(* ===== verification/Mars_Prelude.thy ===== *)
theory Mars_Prelude
  imports Complex_Main "HOL-Library.AList" "HOL-Library.Word" "HOL-Library.Multiset"
begin

text \<open>
  Shared vocabulary of the development: the Go types the sources use (maps, \<open>time.Time\<close>,
  \<open>time.Duration\<close>, \<open>float64\<close>, \<open>uint64\<close>), the interface of a Go map as a locale with its
  interpretation on association lists, and a locale of guarded step functions whose invariants
  every component proves once.

  Conventions.  A Go map is an association list with distinct keys: the list order stands for
  the (unspecified) iteration order, and results that could depend on it are proved independent
  of it.  A \<open>time.Time\<close> is its distance in nanoseconds from Go's zero time, so \<open>IsZero\<close> is
  equality with 0; \<open>Sub\<close> saturates at the bounds of \<open>int64\<close> as the Go library does.
  \<open>float64\<close> values are exact reals: rounding, infinities and NaN are not modelled.  Counters
  of Go type \<open>int\<close> are unbounded integers; generations keep their 64-bit width.
\<close>

named_theorems gm_simps \<open>look-ups after an update of a Go map\<close>
named_theorems gm_intros \<open>well-formedness of Go maps\<close>

subsection \<open>Basic types\<close>

type_synonym gotime = int
type_synonym duration = int
type_synonym float64 = real
type_synonym u64 = "64 word"
type_synonym ('k, 'v) gomap = "('k \<times> 'v) list"

abbreviation millisecond :: duration where "millisecond \<equiv> 1000000"
abbreviation second :: duration where "second \<equiv> 1000000000"

definition isZero :: "gotime \<Rightarrow> bool" where
  "isZero t \<longleftrightarrow> t = 0"

definition time_sub :: "gotime \<Rightarrow> gotime \<Rightarrow> duration" where
  "time_sub t u = max (- (2 ^ 63)) (min (2 ^ 63 - 1) (t - u))"

definition seconds :: "duration \<Rightarrow> float64" where
  "seconds d = of_int d / 1000000000"

definition go_trunc :: "float64 \<Rightarrow> int" where
  "go_trunc x = (if 0 \<le> x then \<lfloor>x\<rfloor> else \<lceil>x\<rceil>)"

definition go_quot :: "int \<Rightarrow> int \<Rightarrow> int" where
  "go_quot a b = sgn a * sgn b * (\<bar>a\<bar> div \<bar>b\<bar>)"

definition go_round :: "float64 \<Rightarrow> float64" where
  "go_round x = (if 0 \<le> x then of_int \<lfloor>x + 1/2\<rfloor> else of_int \<lceil>x - 1/2\<rceil>)"

lemma time_sub_self [simp]: "time_sub t t = 0"
  by (simp add: time_sub_def)

lemma time_sub_mono: "t \<le> t' \<Longrightarrow> time_sub t u \<le> time_sub t' u"
  by (auto simp: time_sub_def)

lemma time_sub_nonneg: "u \<le> t \<Longrightarrow> 0 \<le> time_sub t u"
  by (auto simp: time_sub_def)

lemma seconds_pos [simp]: "0 < seconds d \<longleftrightarrow> 0 < d"
  by (simp add: seconds_def)

lemma go_quot_nonneg: "0 \<le> a \<Longrightarrow> 0 < b \<Longrightarrow> go_quot a b = a div b"
  by (cases "a = 0") (auto simp: go_quot_def)

lemma go_trunc_mono: "x \<le> y \<Longrightarrow> go_trunc x \<le> go_trunc y"
proof (cases "0 \<le> x \<or> y < 0")
  case True
  then show "x \<le> y \<Longrightarrow> go_trunc x \<le> go_trunc y"
    by (auto simp: go_trunc_def floor_mono ceiling_mono)
next
  case False
  then have "\<lceil>x\<rceil> \<le> 0" and "0 \<le> \<lfloor>y\<rfloor>" by (auto simp: ceiling_le_zero)
  with False show "go_trunc x \<le> go_trunc y"
    by (simp add: go_trunc_def order_trans [of "\<lceil>x\<rceil>" 0])
qed

lemma go_trunc_of_int [simp]: "go_trunc (of_int i) = i"
  by (simp add: go_trunc_def)

subsection \<open>Go maps\<close>

definition gm_put :: "'k \<Rightarrow> 'v \<Rightarrow> ('k, 'v) gomap \<Rightarrow> ('k, 'v) gomap" where
  "gm_put = AList.update"

definition gm_del :: "'k \<Rightarrow> ('k, 'v) gomap \<Rightarrow> ('k, 'v) gomap" where
  "gm_del = AList.delete"

definition gm_ok :: "('k, 'v) gomap \<Rightarrow> bool" where
  "gm_ok m \<longleftrightarrow> distinct (map fst m)"

text \<open>\<open>m[k]\<close> on a missing key reads the zero value of the element type.\<close>

definition gm_get0 :: "'v \<Rightarrow> ('k, 'v) gomap \<Rightarrow> 'k \<Rightarrow> 'v" where
  "gm_get0 z m k = (case map_of m k of None \<Rightarrow> z | Some v \<Rightarrow> v)"

abbreviation gm_bool :: "('k, bool) gomap \<Rightarrow> 'k \<Rightarrow> bool" where
  "gm_bool \<equiv> gm_get0 False"

text \<open>A loop \<open>for k, v := range m\<close> that rewrites the element behind a pointer.\<close>

definition gm_map :: "('k \<Rightarrow> 'v \<Rightarrow> 'v) \<Rightarrow> ('k, 'v) gomap \<Rightarrow> ('k, 'v) gomap" where
  "gm_map f m = map (\<lambda>(k, v). (k, f k v)) m"

locale go_map =
  fixes empty :: 'm
    and get :: "'m \<Rightarrow> 'k \<Rightarrow> 'v option"
    and put :: "'k \<Rightarrow> 'v \<Rightarrow> 'm \<Rightarrow> 'm"
    and del :: "'k \<Rightarrow> 'm \<Rightarrow> 'm"
    and len :: "'m \<Rightarrow> nat"
    and ok :: "'m \<Rightarrow> bool"
  assumes get_empty: "get empty k = None"
    and get_put: "get (put k v m) k' = (if k' = k then Some v else get m k')"
    and get_del: "get (del k m) k' = (if k' = k then None else get m k')"
    and ok_empty: "ok empty"
    and ok_put: "ok m \<Longrightarrow> ok (put k v m)"
    and ok_del: "ok m \<Longrightarrow> ok (del k m)"
    and finite_dom: "finite (dom (get m))"
    and len_card: "ok m \<Longrightarrow> len m = card (dom (get m))"
begin

lemma dom_put: "dom (get (put k v m)) = insert k (dom (get m))"
  by (auto simp: dom_def get_put)

lemma dom_del: "dom (get (del k m)) = dom (get m) - {k}"
  by (auto simp: dom_def get_del)

lemma len_put: "ok m \<Longrightarrow> len (put k v m) = (if get m k = None then Suc (len m) else len m)"
  by (auto simp: len_card ok_put dom_put card_insert_if finite_dom domIff insert_absorb)

lemma len_del: "ok m \<Longrightarrow> len (del k m) = (if get m k = None then len m else len m - 1)"
  by (auto simp: len_card ok_del dom_del card_Diff_singleton finite_dom domIff)

lemma len_zero: "ok m \<Longrightarrow> len m = 0 \<longleftrightarrow> get m = Map.empty"
  by (auto simp: len_card finite_dom)

lemma len_pos: "ok m \<Longrightarrow> get m k = Some v \<Longrightarrow> 0 < len m"
  using len_zero [of m] by (metis gr0I option.distinct(1))

lemma int_len_del: "ok m \<Longrightarrow> get m k = Some v \<Longrightarrow> int (len (del k m)) = int (len m) - 1"
  using len_pos [of m k v] by (simp add: len_del of_nat_diff Suc_leI)

end

interpretation gm: go_map "[]" map_of gm_put gm_del length gm_ok
proof unfold_locales
  show "map_of (gm_put k v m) k' = (if k' = k then Some v else map_of m k')" for k :: 'a and v :: 'b and m k'
    by (simp add: gm_put_def update_conv')
  show "map_of (gm_del k m) k' = (if k' = k then None else map_of m k')" for k :: 'a and m :: "('a, 'b) gomap" and k'
    by (simp add: gm_del_def delete_conv')
  show "gm_ok m \<Longrightarrow> length m = card (dom (map_of m))" for m :: "('a, 'b) gomap"
    using distinct_card [of "map fst m"] by (simp add: gm_ok_def dom_map_of_conv_image_fst)
qed (auto simp: gm_ok_def gm_put_def gm_del_def distinct_update distinct_delete finite_dom_map_of)

lemmas [simp, gm_simps] = gm.get_put gm.get_del gm.ok_empty
lemmas [simp, intro, gm_intros] = gm.ok_put gm.ok_del

lemma gm_get0_put [simp, gm_simps]:
  "gm_get0 z (gm_put k v m) k' = (if k' = k then v else gm_get0 z m k')"
  by (simp add: gm_get0_def)

lemma gm_get0_del [simp, gm_simps]:
  "gm_get0 z (gm_del k m) k' = (if k' = k then z else gm_get0 z m k')"
  by (simp add: gm_get0_def)

lemma gm_get0_empty [simp]: "gm_get0 z [] k = z"
  by (simp add: gm_get0_def)

lemma map_of_gm_map [simp, gm_simps]:
  "map_of (gm_map f m) k = map_option (f k) (map_of m k)"
  by (induction m) (auto simp: gm_map_def)

lemma gm_ok_gm_map [simp]: "gm_ok (gm_map f m) = gm_ok m"
  by (simp add: gm_ok_def gm_map_def o_def case_prod_beta)

lemma length_gm_map [simp]: "length (gm_map f m) = length m"
  by (simp add: gm_map_def)

lemma set_gm_del: "set (gm_del k m) = {p \<in> set m. fst p \<noteq> k}"
  by (auto simp: gm_del_def AList.delete_eq)

lemma gm_ok_map_of: "gm_ok m \<Longrightarrow> map_of m k = Some v \<longleftrightarrow> (k, v) \<in> set m"
  by (simp add: gm_ok_def)

subsection \<open>Guarded step functions\<close>

text \<open>
  A component is a step function over its events.  \<open>enabled\<close> says which events the
  environment may deliver in a state; a run is a list of events each enabled where it occurs.
\<close>

fun run :: "('s \<Rightarrow> 'e \<Rightarrow> 's) \<Rightarrow> 's \<Rightarrow> 'e list \<Rightarrow> 's" where
  "run step s [] = s"
| "run step s (e # es) = run step (step s e) es"

fun enabled_run :: "('s \<Rightarrow> 'e \<Rightarrow> bool) \<Rightarrow> ('s \<Rightarrow> 'e \<Rightarrow> 's) \<Rightarrow> 's \<Rightarrow> 'e list \<Rightarrow> bool" where
  "enabled_run en step s [] = True"
| "enabled_run en step s (e # es) = (en s e \<and> enabled_run en step (step s e) es)"

lemma run_append: "run step s (xs @ ys) = run step (run step s xs) ys"
  by (induction xs arbitrary: s) auto

lemma enabled_run_append:
  "enabled_run en step s (xs @ ys) \<longleftrightarrow> enabled_run en step s xs \<and> enabled_run en step (run step s xs) ys"
  by (induction xs arbitrary: s) auto

locale guarded_system =
  fixes initial :: "'s \<Rightarrow> bool"
    and enabled :: "'s \<Rightarrow> 'e \<Rightarrow> bool"
    and step :: "'s \<Rightarrow> 'e \<Rightarrow> 's"
    and invariant :: "'s \<Rightarrow> bool"
  assumes initial_inv: "initial s \<Longrightarrow> invariant s"
    and step_inv: "invariant s \<Longrightarrow> enabled s e \<Longrightarrow> invariant (step s e)"
begin

lemma run_keeps: "invariant s \<Longrightarrow> enabled_run enabled step s es \<Longrightarrow> invariant (run step s es)"
  by (induction es arbitrary: s) (auto intro: step_inv)

lemma run_inv: "initial s \<Longrightarrow> enabled_run enabled step s es \<Longrightarrow> invariant (run step s es)"
  by (blast intro: run_keeps initial_inv)

end

end
