(* ===== verification/Go_Strings.thy ===== *)
theory Go_Strings
  imports Mars_Prelude
begin

text \<open>
  The parts of Go's \<open>strings\<close> and \<open>strconv\<close> packages the sources use.  A Go string is a
  sequence of bytes, here a \<^typ>\<open>string\<close> (a list of 8-bit characters).  Results of the parsers
  are \<open>None\<close> where Go returns an error.  The round trips between printing and parsing numbers
  and between splitting and joining are what the name and sequence-number proofs rest on.
\<close>

subsection \<open>Characters\<close>

abbreviation code :: "char \<Rightarrow> nat" where
  "code c \<equiv> of_char c"

definition isDigit :: "char \<Rightarrow> bool" where
  "isDigit c \<longleftrightarrow> 48 \<le> code c \<and> code c \<le> 57"

definition digitChar :: "nat \<Rightarrow> char" where
  "digitChar n = char_of (48 + n)"

definition digitVal :: "char \<Rightarrow> nat" where
  "digitVal c = code c - 48"

lemma code_digitChar [simp]: "n < 10 \<Longrightarrow> code (digitChar n) = 48 + n"
  by (simp add: digitChar_def)

lemma isDigit_digitChar [simp]: "n < 10 \<Longrightarrow> isDigit (digitChar n)"
  by (simp add: isDigit_def)

lemma digitVal_digitChar [simp]: "n < 10 \<Longrightarrow> digitVal (digitChar n) = n"
  by (simp add: digitVal_def)

subsection \<open>Decimal numbers\<close>

text \<open>\<open>strconv.FormatUint(n, 10)\<close>.\<close>

fun formatUint :: "nat \<Rightarrow> string" where
  "formatUint n = (if n < 10 then [digitChar n] else formatUint (n div 10) @ [digitChar (n mod 10)])"

declare formatUint.simps [simp del]

definition decValue :: "string \<Rightarrow> nat" where
  "decValue s = foldl (\<lambda>acc c. 10 * acc + digitVal c) 0 s"

text \<open>\<open>strconv.ParseUint(s, 10, 64)\<close>.\<close>

definition parseUint10 :: "string \<Rightarrow> nat option" where
  "parseUint10 s =
    (if s \<noteq> [] \<and> list_all isDigit s \<and> decValue s < 2 ^ 64 then Some (decValue s) else None)"

text \<open>\<open>strconv.Itoa\<close> and \<open>strconv.Atoi\<close> on 64-bit integers.\<close>

definition itoa :: "int \<Rightarrow> string" where
  "itoa i = (if i < 0 then CHR ''-'' # formatUint (nat (- i)) else formatUint (nat i))"

definition atoi :: "string \<Rightarrow> int option" where
  "atoi s =
    (let neg = (s \<noteq> [] \<and> hd s = CHR ''-'');
         t = (if s \<noteq> [] \<and> (hd s = CHR ''-'' \<or> hd s = CHR ''+'') then tl s else s)
     in if t = [] \<or> \<not> list_all isDigit t then None
        else let v = (if neg then - int (decValue t) else int (decValue t))
             in if - (2 ^ 63) \<le> v \<and> v < 2 ^ 63 then Some v else None)"

lemma formatUint_nonempty [simp]: "formatUint n \<noteq> []"
  by (subst formatUint.simps) simp

lemma formatUint_digits: "list_all isDigit (formatUint n)"
proof (induction n rule: formatUint.induct)
  case (1 n)
  then show ?case by (subst formatUint.simps) auto
qed

lemma decValue_snoc: "decValue (s @ [c]) = 10 * decValue s + digitVal c"
  by (simp add: decValue_def)

lemma decValue_formatUint [simp]: "decValue (formatUint n) = n"
proof (induction n rule: formatUint.induct)
  case (1 n)
  show ?case
  proof (cases "n < 10")
    case True
    then show ?thesis by (subst formatUint.simps) (simp add: decValue_def)
  next
    case False
    with 1 show ?thesis by (subst formatUint.simps) (simp add: decValue_snoc)
  qed
qed

lemma parseUint10_formatUint: "n < 2 ^ 64 \<Longrightarrow> parseUint10 (formatUint n) = Some n"
  by (simp add: parseUint10_def formatUint_digits)

lemma formatUint_hd: "isDigit (hd (formatUint n))"
  using formatUint_digits [of n] by (cases "formatUint n") auto

lemma atoi_itoa:
  assumes "- (2 ^ 63) \<le> i" and "i < 2 ^ 63"
  shows "atoi (itoa i) = Some i"
proof (cases "i < 0")
  case True
  with assms show ?thesis
    by (simp add: itoa_def atoi_def formatUint_digits)
next
  case False
  have "hd (formatUint (nat i)) \<noteq> CHR ''-''" and "hd (formatUint (nat i)) \<noteq> CHR ''+''"
    using formatUint_hd [of "nat i"] by (auto simp: isDigit_def)
  with False assms show ?thesis
    by (simp add: itoa_def atoi_def formatUint_digits)
qed

subsection \<open>Splitting\<close>

text \<open>\<open>strings.Split(s, sep)\<close> for a one-character separator.\<close>

fun split :: "char \<Rightarrow> string \<Rightarrow> string list" where
  "split sep [] = [[]]"
| "split sep (c # cs) =
    (if c = sep then [] # split sep cs
     else case split sep cs of [] \<Rightarrow> [[c]] | p # ps \<Rightarrow> (c # p) # ps)"

lemma split_nonempty [simp]: "split sep s \<noteq> []"
  by (induction s) (auto split: list.splits)

lemma split_no_sep: "sep \<notin> set s \<Longrightarrow> split sep s = [s]"
  by (induction s) auto

lemma split_append_sep: "sep \<notin> set s \<Longrightarrow> split sep (s @ sep # t) = s # split sep t"
  by (induction s) auto

lemma last_split_append: "last (split sep (s @ sep # t)) = last (split sep t)"
proof (induction s)
  case Nil
  then show ?case by simp
next
  case (Cons c cs)
  obtain p ps where ps: "split sep (cs @ sep # t) = p # ps"
    by (metis split_nonempty neq_Nil_conv)
  have "ps \<noteq> []"
  proof
    assume "ps = []"
    with ps have "length (split sep (cs @ sep # t)) = 1" by simp
    moreover have "length (split sep (xs @ sep # t)) \<ge> 2" for xs
      by (induction xs) (auto simp: Suc_le_eq split: list.splits)
    ultimately show False by (metis one_le_numeral numeral_le_one_iff semiring_norm(69) order_antisym)
  qed
  with Cons ps show ?case by auto
qed

text \<open>\<open>strings.HasPrefix\<close>, \<open>strings.TrimPrefix\<close> and their suffix counterparts.\<close>

definition hasPrefix :: "string \<Rightarrow> string \<Rightarrow> bool" where
  "hasPrefix s p \<longleftrightarrow> take (length p) s = p"

definition trimPrefix :: "string \<Rightarrow> string \<Rightarrow> string" where
  "trimPrefix s p = (if hasPrefix s p then drop (length p) s else s)"

definition hasSuffix :: "string \<Rightarrow> string \<Rightarrow> bool" where
  "hasSuffix s p \<longleftrightarrow> length p \<le> length s \<and> drop (length s - length p) s = p"

definition trimSuffix :: "string \<Rightarrow> string \<Rightarrow> string" where
  "trimSuffix s p = (if hasSuffix s p then take (length s - length p) s else s)"

lemma hasPrefix_append [simp]: "hasPrefix (p @ s) p"
  by (simp add: hasPrefix_def)

lemma trimPrefix_append [simp]: "trimPrefix (p @ s) p = s"
  by (simp add: trimPrefix_def)

end
