(* ===== verification/Ndn_Name.thy ===== *)
theory Ndn_Name
  imports Go_Strings
begin

text \<open>
  NDN names and their URI form (\<open>mars/std/encoding\<close>: \<open>component.go\<close>, \<open>component_fmt.go\<close>,
  \<open>component_new.go\<close> and the name operations of \<open>name_pattern.go\<close>).  A component is its TLV
  type and its bytes; printing chooses the value format from the naming convention of the type,
  parsing inverts it.  The environment switch \<open>DISABLE_ALT_URI\<close> is an argument.  An
  \<open>ErrFormat\<close> return and the index panic of \<open>parseCompTypeFromStr\<close> on an empty type string
  are values of \<open>nameError\<close>; the text of error messages is not modelled.
\<close>

subsection \<open>Components\<close>

record component =
  c_Typ :: u64
  c_Val :: string

type_synonym name = "component list"

datatype nameError = ErrFormat | IndexPanic

datatype compValFmt = FmtText | FmtDec | FmtHex

abbreviation "TypeInvalidComponent \<equiv> (0x00 :: u64)"
abbreviation "TypeImplicitSha256DigestComponent \<equiv> (0x01 :: u64)"
abbreviation "TypeParametersSha256DigestComponent \<equiv> (0x02 :: u64)"
abbreviation "TypeGenericNameComponent \<equiv> (0x08 :: u64)"
abbreviation "TypeSegmentNameComponent \<equiv> (0x32 :: u64)"
abbreviation "TypeByteOffsetNameComponent \<equiv> (0x34 :: u64)"
abbreviation "TypeVersionNameComponent \<equiv> (0x36 :: u64)"
abbreviation "TypeTimestampNameComponent \<equiv> (0x38 :: u64)"
abbreviation "TypeSequenceNumNameComponent \<equiv> (0x3a :: u64)"

definition compConvByType :: "(u64, string \<times> compValFmt) gomap" where
  "compConvByType =
    [(TypeImplicitSha256DigestComponent, (''sha256digest'', FmtHex)),
     (TypeParametersSha256DigestComponent, (''params-sha256'', FmtHex)),
     (TypeSegmentNameComponent, (''seg'', FmtDec)),
     (TypeByteOffsetNameComponent, (''off'', FmtDec)),
     (TypeVersionNameComponent, (''v'', FmtDec)),
     (TypeTimestampNameComponent, (''t'', FmtDec)),
     (TypeSequenceNumNameComponent, (''seq'', FmtDec))]"

definition compConvByStr :: "(string, u64 \<times> compValFmt) gomap" where
  "compConvByStr = map (\<lambda>(typ, nm, fmt). (nm, (typ, fmt))) compConvByType"

definition newStringComponent :: "u64 \<Rightarrow> string \<Rightarrow> component" where
  "newStringComponent typ val = \<lparr>c_Typ = typ, c_Val = val\<rparr>"

definition isAlphabet :: "char \<Rightarrow> bool" where
  "isAlphabet r \<longleftrightarrow> (97 \<le> code r \<and> code r \<le> 122) \<or> (65 \<le> code r \<and> code r \<le> 90)"

definition isLegalCompText :: "char \<Rightarrow> bool" where
  "isLegalCompText b \<longleftrightarrow> isAlphabet b \<or> isDigit b
     \<or> b = CHR ''-'' \<or> b = CHR ''_'' \<or> b = CHR ''.'' \<or> b = CHR ''~''"

subsection \<open>Value formats\<close>

definition hexUpper :: "nat \<Rightarrow> char" where
  "hexUpper n = char_of (if n < 10 then 48 + n else 55 + n)"

definition hexLower :: "nat \<Rightarrow> char" where
  "hexLower n = char_of (if n < 10 then 48 + n else 87 + n)"

definition hexVal :: "char \<Rightarrow> nat option" where
  "hexVal c =
    (let n = code c in
     if 48 \<le> n \<and> n \<le> 57 then Some (n - 48)
     else if 65 \<le> n \<and> n \<le> 70 then Some (n - 55)
     else if 97 \<le> n \<and> n \<le> 102 then Some (n - 87)
     else None)"

text \<open>\<open>strconv.ParseUint(s, 16, 8)\<close> on a two-character string.\<close>

definition parseHex2 :: "char \<Rightarrow> char \<Rightarrow> char option" where
  "parseHex2 a b =
    (case (hexVal a, hexVal b) of (Some x, Some y) \<Rightarrow> Some (char_of (16 * x + y)) | _ \<Rightarrow> None)"

definition textWriteByte :: "char \<Rightarrow> string" where
  "textWriteByte b =
    (if isLegalCompText b then [b]
     else [CHR ''%'', hexUpper (code b div 16), hexUpper (code b mod 16)])"

definition textWriteTo :: "string \<Rightarrow> string" where
  "textWriteTo val = concat (map textWriteByte val)"

definition isSpecial :: "char \<Rightarrow> bool" where
  "isSpecial c \<longleftrightarrow> c = CHR ''%'' \<or> c = CHR ''='' \<or> c = CHR ''/'' \<or> c = CHR 0x5C"

fun textLoop :: "string \<Rightarrow> string option" where
  "textLoop [] = Some []"
| "textLoop (c # cs) =
    (if isLegalCompText c then map_option (Cons c) (textLoop cs)
     else if c = CHR ''%'' \<and> 2 \<le> length cs then
       (case parseHex2 (cs ! 0) (cs ! 1) of
          None \<Rightarrow> None
        | Some v \<Rightarrow> map_option (Cons v) (textLoop (drop 2 cs)))
     else if \<not> isSpecial c then map_option (Cons c) (textLoop cs)
     else None)"

definition textFromString :: "string \<Rightarrow> string option" where
  "textFromString valStr = (if \<not> list_ex isSpecial valStr then Some valStr else textLoop valStr)"

definition numberVal :: "string \<Rightarrow> nat" where
  "numberVal val = foldl (\<lambda>x b. (256 * x + code b) mod 2 ^ 64) 0 val"

definition natEncodingLength :: "nat \<Rightarrow> nat" where
  "natEncodingLength x = (if x \<le> 0xff then 1 else if x \<le> 0xffff then 2 else if x \<le> 0xffffffff then 4 else 8)"

fun beBytes :: "nat \<Rightarrow> nat \<Rightarrow> string" where
  "beBytes 0 x = []"
| "beBytes (Suc w) x = beBytes w (x div 256) @ [char_of (x mod 256)]"

definition natBytes :: "nat \<Rightarrow> string" where
  "natBytes x = beBytes (natEncodingLength x) x"

definition decWriteTo :: "string \<Rightarrow> string" where
  "decWriteTo val = formatUint (numberVal val)"

definition decFromString :: "string \<Rightarrow> string option" where
  "decFromString s = map_option natBytes (parseUint10 s)"

definition hexWriteTo :: "string \<Rightarrow> string" where
  "hexWriteTo val = concat (map (\<lambda>b. [hexLower (code b div 16), hexLower (code b mod 16)]) val)"

fun hexPairs :: "string \<Rightarrow> string option" where
  "hexPairs [] = Some []"
| "hexPairs [c] = None"
| "hexPairs (a # b # cs) =
    (case parseHex2 a b of None \<Rightarrow> None | Some v \<Rightarrow> map_option (Cons v) (hexPairs cs))"

definition hexFromString :: "string \<Rightarrow> string option" where
  "hexFromString s = (if length s mod 2 \<noteq> 0 then None else hexPairs s)"

fun fmtWriteTo :: "compValFmt \<Rightarrow> string \<Rightarrow> string" where
  "fmtWriteTo FmtText val = textWriteTo val"
| "fmtWriteTo FmtDec val = decWriteTo val"
| "fmtWriteTo FmtHex val = hexWriteTo val"

fun fmtFromString :: "compValFmt \<Rightarrow> string \<Rightarrow> string option" where
  "fmtFromString FmtText s = textFromString s"
| "fmtFromString FmtDec s = decFromString s"
| "fmtFromString FmtHex s = hexFromString s"

subsection \<open>Printing\<close>

text \<open>The written size that \<open>WriteTo\<close> returns is the length of the result.\<close>

definition componentWriteTo :: "bool \<Rightarrow> component \<Rightarrow> string" where
  "componentWriteTo disableAlt c =
    (case (if disableAlt then None else map_of compConvByType (c_Typ c)) of
       Some (nm, fmt) \<Rightarrow> nm @ ''='' @ fmtWriteTo fmt (c_Val c)
     | None \<Rightarrow>
         if disableAlt \<or> c_Typ c \<noteq> TypeGenericNameComponent
         then formatUint (unat (c_Typ c)) @ ''='' @ textWriteTo (c_Val c)
         else textWriteTo (c_Val c))"

fun nameWrite :: "bool \<Rightarrow> name \<Rightarrow> string" where
  "nameWrite disableAlt [] = []"
| "nameWrite disableAlt [c] =
    (let w = componentWriteTo disableAlt c in ''/'' @ w @ (if length w = 0 then ''/'' else []))"
| "nameWrite disableAlt (c # cs) = ''/'' @ componentWriteTo disableAlt c @ nameWrite disableAlt cs"

definition nameString :: "bool \<Rightarrow> name \<Rightarrow> string" where
  "nameString disableAlt n =
    (let s = nameWrite disableAlt n in if length s = 0 then ''/'' else s)"

subsection \<open>Parsing\<close>

definition parseCompTypeFromStr :: "string \<Rightarrow> nameError + (u64 \<times> compValFmt)" where
  "parseCompTypeFromStr s =
    (case s of
       [] \<Rightarrow> Inl IndexPanic
     | c # _ \<Rightarrow>
         if isAlphabet c then
           (case map_of compConvByStr s of Some tf \<Rightarrow> Inr tf | None \<Rightarrow> Inl ErrFormat)
         else
           (case parseUint10 s of None \<Rightarrow> Inl ErrFormat | Some n \<Rightarrow> Inr (of_nat n, FmtText)))"

definition componentFromStrInto :: "string \<Rightarrow> nameError + component" where
  "componentFromStrInto s =
    (let eqs = length (filter (\<lambda>c. c = CHR ''='') s);
         typStr = takeWhile (\<lambda>c. c \<noteq> CHR ''='') s;
         valStr = (if eqs = 0 then s else tl (dropWhile (\<lambda>c. c \<noteq> CHR ''='') s))
     in if 1 < eqs then Inl ErrFormat
        else
          case (if eqs = 0 then Inr (TypeGenericNameComponent, FmtText)
                else case parseCompTypeFromStr typStr of
                       Inl e \<Rightarrow> Inl e
                     | Inr (typ, fmt) \<Rightarrow>
                         if typ \<le> TypeInvalidComponent \<or> typ > 0xffff then Inl ErrFormat
                         else Inr (typ, fmt))
          of Inl e \<Rightarrow> Inl e
           | Inr (typ, fmt) \<Rightarrow>
               (case fmtFromString fmt valStr of
                  None \<Rightarrow> Inl ErrFormat
                | Some val \<Rightarrow> Inr \<lparr>c_Typ = typ, c_Val = val\<rparr>))"

fun componentsFromStrs :: "string list \<Rightarrow> nameError + name" where
  "componentsFromStrs [] = Inr []"
| "componentsFromStrs (s # ss) =
    (case componentFromStrInto s of
       Inl e \<Rightarrow> Inl e
     | Inr c \<Rightarrow> (case componentsFromStrs ss of Inl e \<Rightarrow> Inl e | Inr cs \<Rightarrow> Inr (c # cs)))"

definition nameFromStr :: "string \<Rightarrow> nameError + name" where
  "nameFromStr s =
    (let strs0 = split CHR ''/'' s;
         strs1 = (if hd strs0 = [] then tl strs0 else strs0);
         strs2 = (if strs1 \<noteq> [] \<and> last strs1 = [] then butlast strs1 else strs1)
     in componentsFromStrs strs2)"

text \<open>
  \<open>Name.Append\<close> copies or reuses spare capacity behind an unwritten component; as a value the
  result is the concatenation.  \<open>Name.IsPrefix\<close> and \<open>Name.Prefix\<close> as in the source.
\<close>

definition nameAppend :: "name \<Rightarrow> component list \<Rightarrow> name" where
  "nameAppend n rest = n @ rest"

fun nameIsPrefix :: "name \<Rightarrow> name \<Rightarrow> bool" where
  "nameIsPrefix [] rhs = True"
| "nameIsPrefix (c # cs) [] = False"
| "nameIsPrefix (c # cs) (d # ds) = (c = d \<and> nameIsPrefix cs ds)"

definition namePrefix :: "name \<Rightarrow> int \<Rightarrow> name" where
  "namePrefix n i0 =
    (let i = (if i0 < 0 then int (length n) + i0 else i0) in
     if i \<le> 0 then [] else if int (length n) \<le> i then n else take (nat i) n)"

subsection \<open>Value formats invert\<close>

lemma hexVal_hexUpper [simp]: "n < 16 \<Longrightarrow> hexVal (hexUpper n) = Some n"
  by (auto simp: hexVal_def hexUpper_def Let_def)

lemma hexVal_hexLower [simp]: "n < 16 \<Longrightarrow> hexVal (hexLower n) = Some n"
  by (auto simp: hexVal_def hexLower_def Let_def)

lemma code_less [simp]: "code c < 256"
  by (rule nat_of_char_less_256)

lemma code_div_less [simp]: "code c div 16 < 16"
  using code_less [of c] by linarith

lemma char_of_nibbles [simp]: "char_of (16 * (code b div 16) + code b mod 16) = b"
  by simp

lemma parseHex2_nibbles [simp]:
  "parseHex2 (hexUpper (code b div 16)) (hexUpper (code b mod 16)) = Some b"
  "parseHex2 (hexLower (code b div 16)) (hexLower (code b mod 16)) = Some b"
  by (simp_all add: parseHex2_def)

lemma not_legal_percent [simp]: "\<not> isLegalCompText CHR ''%''"
  by (simp add: isLegalCompText_def isAlphabet_def isDigit_def)

lemma legal_not_special: "isLegalCompText c \<Longrightarrow> \<not> isSpecial c"
  by (auto simp: isLegalCompText_def isSpecial_def isAlphabet_def isDigit_def)

lemma textLoop_byte: "textLoop (textWriteByte b @ cs) = map_option (Cons b) (textLoop cs)"
  by (simp add: textWriteByte_def del: map_option_eq_Some)

lemma textLoop_textWriteTo: "textLoop (textWriteTo val) = Some val"
  by (induction val) (simp_all add: textWriteTo_def textLoop_byte)

lemma textWriteTo_plain: "\<not> list_ex isSpecial (textWriteTo val) \<Longrightarrow> textWriteTo val = val"
  by (induction val) (auto simp: textWriteTo_def textWriteByte_def isSpecial_def split: if_splits)

lemma textFromString_textWriteTo [simp]: "textFromString (textWriteTo val) = Some val"
  by (simp add: textFromString_def textWriteTo_plain textLoop_textWriteTo)

lemma numberVal_bound: "numberVal val < 2 ^ 64"
  by (cases val rule: rev_cases) (simp_all add: numberVal_def)

lemma decFromString_decWriteTo: "decFromString (decWriteTo val) = Some (natBytes (numberVal val))"
  by (simp only: decFromString_def decWriteTo_def parseUint10_formatUint [OF numberVal_bound] option.map)

lemma hexPairs_hexWriteTo: "hexPairs (hexWriteTo val) = Some val"
  by (induction val) (simp_all add: hexWriteTo_def)

lemma length_hexWriteTo: "length (hexWriteTo val) = 2 * length val"
  by (induction val) (simp_all add: hexWriteTo_def)

lemma hexFromString_hexWriteTo [simp]: "hexFromString (hexWriteTo val) = Some val"
  by (simp add: hexFromString_def hexPairs_hexWriteTo length_hexWriteTo)

subsection \<open>No separator inside a component\<close>

definition plain :: "string \<Rightarrow> bool" where
  "plain s \<longleftrightarrow> CHR ''='' \<notin> set s \<and> CHR ''/'' \<notin> set s"

lemma plain_append [simp]: "plain (s @ t) \<longleftrightarrow> plain s \<and> plain t"
  by (auto simp: plain_def)

lemma hexUpper_plain: "n < 16 \<Longrightarrow> hexUpper n \<noteq> CHR ''='' \<and> hexUpper n \<noteq> CHR ''/''"
  using hexVal_hexUpper [of n] by (auto simp: hexVal_def)

lemma hexLower_plain: "n < 16 \<Longrightarrow> hexLower n \<noteq> CHR ''='' \<and> hexLower n \<noteq> CHR ''/''"
  using hexVal_hexLower [of n] by (auto simp: hexVal_def)

lemma plain_textWriteTo [simp]: "plain (textWriteTo val)"
proof (induction val)
  case (Cons b val)
  have "plain (textWriteByte b)"
    using hexUpper_plain [of "code b div 16"] hexUpper_plain [of "code b mod 16"]
    by (auto simp: plain_def textWriteByte_def dest: legal_not_special) (auto simp: isSpecial_def dest: legal_not_special)
  with Cons show ?case by (simp add: textWriteTo_def)
qed (simp add: textWriteTo_def plain_def)

lemma plain_formatUint [simp]: "plain (formatUint n)"
  using formatUint_digits [of n] by (auto simp: plain_def list_all_iff isDigit_def)

lemma plain_hexWriteTo [simp]: "plain (hexWriteTo val)"
proof (induction val)
  case (Cons b val)
  then show ?case
    using hexLower_plain [of "code b div 16"] hexLower_plain [of "code b mod 16"]
    by (auto simp: plain_def hexWriteTo_def)
qed (simp add: hexWriteTo_def plain_def)

lemma plain_fmtWriteTo [simp]: "plain (fmtWriteTo fmt val)"
  by (cases fmt) (simp_all add: decWriteTo_def)

subsection \<open>Parsing inverts printing\<close>

definition wf_component :: "bool \<Rightarrow> component \<Rightarrow> bool" where
  "wf_component disableAlt c \<longleftrightarrow>
    c_Typ c \<noteq> 0 \<and> c_Typ c \<le> 0xffff
    \<and> (\<not> disableAlt \<and> map_option snd (map_of compConvByType (c_Typ c)) = Some FmtDec
         \<longrightarrow> natBytes (numberVal (c_Val c)) = c_Val c)"

lemma compConv_cases:
  assumes "map_of compConvByType t = Some (nm, fmt)"
  shows "parseCompTypeFromStr nm = Inr (t, fmt)" and "plain nm" and "fmt \<noteq> FmtText"
  using assms
  by (auto simp: compConvByType_def parseCompTypeFromStr_def compConvByStr_def isAlphabet_def plain_def
      split: if_splits)

lemma parseCompType_formatUint: "parseCompTypeFromStr (formatUint (unat t)) = Inr (t, FmtText)"
proof -
  have "unat t < 2 ^ 64" using unsigned_less [of t] by simp
  then have p: "parseUint10 (formatUint (unat t)) = Some (unat t)"
    by (rule parseUint10_formatUint)
  obtain c cs where f: "formatUint (unat t) = c # cs"
    by (metis formatUint_nonempty neq_Nil_conv)
  have "\<not> isAlphabet c"
    using formatUint_hd [of "unat t"] by (auto simp: f isAlphabet_def isDigit_def)
  with p f show ?thesis
    by (simp add: parseCompTypeFromStr_def)
qed

lemma componentFromStr_typed:
  assumes "plain t" and "plain v" and "parseCompTypeFromStr t = Inr (typ, fmt)"
    and "typ \<noteq> 0" and "typ \<le> 0xffff" and "fmtFromString fmt v = Some val"
  shows "componentFromStrInto (t @ CHR ''='' # v) = Inr \<lparr>c_Typ = typ, c_Val = val\<rparr>"
proof -
  have no: "filter (\<lambda>c. c = CHR ''='') x = []" if "plain x" for x
    using that by (auto simp: plain_def filter_empty_conv)
  have "takeWhile (\<lambda>c. c \<noteq> CHR ''='') (t @ CHR ''='' # v) = t"
    and "dropWhile (\<lambda>c. c \<noteq> CHR ''='') (t @ CHR ''='' # v) = CHR ''='' # v"
    using assms(1) by (auto simp: plain_def takeWhile_append dropWhile_append)
  with assms no show ?thesis
    by (auto simp: componentFromStrInto_def Let_def not_less)
qed

lemma componentFromStr_generic:
  assumes "plain v" and "textFromString v = Some val"
  shows "componentFromStrInto v = Inr \<lparr>c_Typ = TypeGenericNameComponent, c_Val = val\<rparr>"
proof -
  have "filter (\<lambda>c. c = CHR ''='') v = []"
    using assms(1) by (auto simp: plain_def filter_empty_conv)
  with assms(2) show ?thesis
    by (simp add: componentFromStrInto_def)
qed

lemma componentFromStr_componentWriteTo:
  assumes wf: "wf_component da c"
  shows "componentFromStrInto (componentWriteTo da c) = Inr c"
proof (cases "if da then None else map_of compConvByType (c_Typ c)")
  case None
  show ?thesis
  proof (cases "da \<or> c_Typ c \<noteq> TypeGenericNameComponent")
    case True
    then have "componentWriteTo da c = formatUint (unat (c_Typ c)) @ CHR ''='' # textWriteTo (c_Val c)"
      using None by (simp add: componentWriteTo_def)
    with wf show ?thesis
      by (simp add: componentFromStr_typed parseCompType_formatUint wf_component_def)
  next
    case False
    with None have "componentWriteTo da c = textWriteTo (c_Val c)"
      by (simp add: componentWriteTo_def)
    with False show ?thesis
      by (simp add: componentFromStr_generic)
  qed
next
  case (Some p)
  then obtain nm fmt where conv: "map_of compConvByType (c_Typ c) = Some (nm, fmt)" and "\<not> da"
    by (cases p) (auto split: if_splits)
  then have w: "componentWriteTo da c = nm @ CHR ''='' # fmtWriteTo fmt (c_Val c)"
    by (simp add: componentWriteTo_def)
  have "fmtFromString fmt (fmtWriteTo fmt (c_Val c)) = Some (c_Val c)"
    using wf conv \<open>\<not> da\<close> by (cases fmt) (auto simp: decFromString_decWriteTo wf_component_def)
  then show ?thesis
    using wf compConv_cases [OF conv] by (simp add: w componentFromStr_typed wf_component_def)
qed

lemma no_slash_componentWriteTo: "CHR ''/'' \<notin> set (componentWriteTo da c)"
proof -
  have "plain nm" if "map_of compConvByType (c_Typ c) = Some (nm, fmt)" for nm fmt
    using compConv_cases(2) [OF that] .
  then show ?thesis
    using plain_textWriteTo [of "c_Val c"] plain_formatUint [of "unat (c_Typ c)"]
    by (auto simp: componentWriteTo_def plain_def split: option.splits if_splits)
       (metis plain_def plain_fmtWriteTo)+
qed

lemma split_nameWrite:
  "n \<noteq> [] \<Longrightarrow> split CHR ''/'' (nameWrite da n) =
     [] # map (componentWriteTo da) n @ (if componentWriteTo da (last n) = [] then [[]] else [])"
proof (induction da n rule: nameWrite.induct)
  case (2 da c)
  then show ?case
    by (auto simp: split_no_sep split_append_sep no_slash_componentWriteTo Let_def)
next
  case (3 da c d cs)
  obtain r where r: "nameWrite da (d # cs) = CHR ''/'' # r"
    by (cases cs) (auto simp: Let_def)
  with 3 have "split CHR ''/'' r = map (componentWriteTo da) (d # cs)
      @ (if componentWriteTo da (last (d # cs)) = [] then [[]] else [])"
    by simp
  then show ?case
    by (simp add: r split_append_sep no_slash_componentWriteTo)
qed simp

lemma componentsFromStrs_map:
  "\<forall>c \<in> set n. wf_component da c \<Longrightarrow> componentsFromStrs (map (componentWriteTo da) n) = Inr n"
  by (induction n) (auto simp: componentFromStr_componentWriteTo)

lemma nameWrite_slash: "n \<noteq> [] \<Longrightarrow> \<exists>r. nameWrite da n = CHR ''/'' # r"
  by (induction da n rule: nameWrite.induct) (auto simp: Let_def)

text \<open>
  (C28) URI round trip.  Parsing the URI form of a name gives the name back, in both settings of
  \<open>DISABLE_ALT_URI\<close>, whatever bytes the components hold: escapes, empty components, typed
  and digest components included.  A numeric component must be in the encoding the constructors
  produce, and types must be in the range the parser accepts.
\<close>

theorem nameFromStr_nameString:
  assumes "\<forall>c \<in> set n. wf_component disableAlt c"
  shows "nameFromStr (nameString disableAlt n) = Inr n"
proof (cases "n = []")
  case True
  then show ?thesis by (simp add: nameString_def nameFromStr_def)
next
  case False
  let ?w = "componentWriteTo disableAlt"
  from nameWrite_slash [OF False, of disableAlt] have "nameString disableAlt n = nameWrite disableAlt n"
    by (auto simp: nameString_def Let_def)
  with False have "nameFromStr (nameString disableAlt n) = componentsFromStrs (map ?w n)"
    by (simp add: nameFromStr_def split_nameWrite last_map butlast_append)
  with assms show ?thesis by (simp add: componentsFromStrs_map)
qed

text \<open>A name with an escaped, an empty and a versioned component.\<close>

definition demoName :: name where
  "demoName = [newStringComponent 8 ''a b'', newStringComponent 8 [], newStringComponent 0x36 [CHR 0x05]]"

theorem nameFromStr_nameString_witness:
  "nameFromStr (nameString False demoName) = Inr demoName \<and> nameString False demoName = ''/a%20b//v=5''"
proof -
  have "\<forall>c \<in> set demoName. wf_component False c"
    by (simp add: demoName_def newStringComponent_def wf_component_def compConvByType_def
        natBytes_def numberVal_def natEncodingLength_def char_of_def bit_0)
  from nameFromStr_nameString [OF this] have "nameFromStr (nameString False demoName) = Inr demoName" .
  moreover have "nameString False demoName = ''/a%20b//v=5''"
    by (simp add: demoName_def newStringComponent_def nameString_def componentWriteTo_def compConvByType_def
        textWriteTo_def textWriteByte_def isLegalCompText_def isAlphabet_def isDigit_def hexUpper_def
        decWriteTo_def numberVal_def formatUint.simps digitChar_def char_of_def bit_0)
  ultimately show ?thesis by (rule conjI)
qed

text \<open>
  (C32) A URI component with an empty type, such as \<open>/=a\<close>, does not give a format error: the
  parser indexes the empty type string and panics.
\<close>

theorem nameFromStr_empty_type_panics:
  "CHR ''='' \<notin> set v \<Longrightarrow> componentFromStrInto (CHR ''='' # v) = Inl IndexPanic"
proof -
  assume "CHR ''='' \<notin> set v"
  then have "filter (\<lambda>c. c = CHR ''='') v = []"
    by (auto simp: filter_empty_conv)
  then show ?thesis
    by (simp add: componentFromStrInto_def parseCompTypeFromStr_def)
qed

theorem nameFromStr_empty_type_panics_witness:
  "componentFromStrInto ''=a'' = Inl IndexPanic \<and> nameFromStr ''/=a'' = Inl IndexPanic"
  using nameFromStr_empty_type_panics [of "''a''"] by (simp add: nameFromStr_def)

end
