(* ===== verification/Data_Packet.thy ===== *)
theory Data_Packet
  imports Ndn_Name
begin

text \<open>
  The payloads of the MARS protocol (\<open>mars/std/datapacket\<close>): the fixed-size data transmission
  packet (two queue signals and 750 values, little-endian \<open>float64\<close>) and the two-byte path
  discovery packet.  On the wire a \<open>float64\<close> is its 64-bit pattern, so a packet holds
  \<^typ>\<open>u64\<close> patterns and the codec is exact; \<open>float64_of_bits\<close> reads a finite pattern as
  a real number (the patterns of infinities and NaN, which have no real value, read as 0).
  Writing to a \<open>bytes.Buffer\<close> cannot fail, so the serialisers are total.
\<close>

definition DataPacketValueCount :: nat where
  "DataPacketValueCount = 750"

abbreviation float64SizeBytes :: nat where "float64SizeBytes \<equiv> 8"
abbreviation (input) dataPacketMetaFields :: nat where "dataPacketMetaFields \<equiv> 2"

record DataPacket =
  dp_InterestQsf :: u64
  dp_DataQsf :: u64
  dp_Values :: "u64 list"

record DiscoveryPacket =
  disc_TierConverged :: bool
  disc_NodeConverged :: bool

subsection \<open>Little-endian words\<close>

fun leBytes :: "nat \<Rightarrow> nat \<Rightarrow> string" where
  "leBytes 0 x = []"
| "leBytes (Suc w) x = char_of (x mod 256) # leBytes w (x div 256)"

fun leValue :: "string \<Rightarrow> nat" where
  "leValue [] = 0"
| "leValue (c # cs) = code c + 256 * leValue cs"

definition putUint64 :: "u64 \<Rightarrow> string" where
  "putUint64 x = leBytes 8 (unat x)"

definition getUint64 :: "string \<Rightarrow> u64" where
  "getUint64 bs = of_nat (leValue bs)"

definition float64_of_bits :: "u64 \<Rightarrow> float64" where
  "float64_of_bits w =
    (let n = unat w;
         sign = (if n div 2 ^ 63 = 1 then -1 else 1);
         e = (n div 2 ^ 52) mod 2 ^ 11;
         m = n mod 2 ^ 52
     in if e = 2047 then 0
        else if e = 0 then sign * (real m / 2 ^ 1074)
        else sign * (real (2 ^ 52 + m) * 2 ^ e / 2 ^ 1075))"

subsection \<open>Data transmission packets\<close>

definition newDataPacket :: DataPacket where
  "newDataPacket = \<lparr>dp_InterestQsf = 0, dp_DataQsf = 0, dp_Values = replicate DataPacketValueCount 0\<rparr>"

definition newDataPacketWithValues :: "u64 \<Rightarrow> u64 \<Rightarrow> u64 list \<Rightarrow> DataPacket" where
  "newDataPacketWithValues interestQsf dataQsf values =
    \<lparr>dp_InterestQsf = interestQsf, dp_DataQsf = dataQsf,
     dp_Values = (if length values \<noteq> DataPacketValueCount
                  then take DataPacketValueCount values
                         @ replicate (DataPacketValueCount - length values) 0
                  else values)\<rparr>"

definition serializeData :: "DataPacket \<Rightarrow> string" where
  "serializeData dp =
    putUint64 (dp_InterestQsf dp) @ putUint64 (dp_DataQsf dp) @ concat (map putUint64 (dp_Values dp))"

fun readValues :: "nat \<Rightarrow> string \<Rightarrow> u64 list" where
  "readValues 0 bs = []"
| "readValues (Suc n) bs = getUint64 (take 8 bs) # readValues n (drop 8 bs)"

definition deserializeData :: "string \<Rightarrow> DataPacket option" where
  "deserializeData bs =
    (let expectedSize = dataPacketMetaFields * float64SizeBytes + DataPacketValueCount * float64SizeBytes
     in if length bs \<noteq> expectedSize then None
        else Some \<lparr>dp_InterestQsf = getUint64 (take 8 bs), dp_DataQsf = getUint64 (take 8 (drop 8 bs)),
                   dp_Values = readValues DataPacketValueCount (drop 16 bs)\<rparr>)"

definition getSize :: "DataPacket \<Rightarrow> nat" where
  "getSize dp = dataPacketMetaFields * float64SizeBytes + length (dp_Values dp) * float64SizeBytes"

subsection \<open>Path discovery packets\<close>

definition boolByte :: "bool \<Rightarrow> char" where
  "boolByte b = (if b then CHR 0x01 else CHR 0x00)"

definition serializeDiscovery :: "DiscoveryPacket \<Rightarrow> string" where
  "serializeDiscovery dp = [boolByte (disc_TierConverged dp), boolByte (disc_NodeConverged dp)]"

definition deserializeDiscovery :: "string \<Rightarrow> DiscoveryPacket option" where
  "deserializeDiscovery bs =
    (if length bs \<noteq> 1 + 1 then None
     else Some \<lparr>disc_TierConverged = (bs ! 0 \<noteq> CHR 0x00), disc_NodeConverged = (bs ! 1 \<noteq> CHR 0x00)\<rparr>)"

subsection \<open>Round trips\<close>

lemma length_leBytes [simp]: "length (leBytes w x) = w"
  by (induction w arbitrary: x) auto

lemma leValue_leBytes: "leValue (leBytes w x) = x mod 256 ^ w"
proof (induction w arbitrary: x)
  case (Suc w)
  then show ?case
    by (simp add: mod_mult2_eq)
qed simp

lemma leValue_less: "leValue bs < 256 ^ length bs"
proof (induction bs)
  case (Cons c cs)
  have "code c + 256 * leValue cs < 256 + 256 * leValue cs" by simp
  also have "\<dots> = 256 * Suc (leValue cs)" by simp
  also from Cons have "\<dots> \<le> 256 * 256 ^ length cs"
    by (intro mult_le_mono2) simp
  finally show ?case by simp
qed simp

lemma leBytes_leValue: "length bs = w \<Longrightarrow> leBytes w (leValue bs) = bs"
  by (induction bs arbitrary: w) auto

lemma length_putUint64 [simp]: "length (putUint64 x) = 8"
  by (simp add: putUint64_def)

lemma getUint64_putUint64 [simp]: "getUint64 (putUint64 x) = x"
proof -
  have "unat x < 256 ^ 8" using unsigned_less [of x, where ?'a = nat] by simp
  then have "leValue (leBytes 8 (unat x)) = unat x"
    by (simp only: leValue_leBytes mod_less)
  then show ?thesis by (simp add: getUint64_def putUint64_def)
qed

lemma putUint64_getUint64:
  assumes "length bs = 8" shows "putUint64 (getUint64 bs) = bs"
proof -
  have "leValue bs < 2 ^ 64" using leValue_less [of bs] assms by simp
  then have "unat (of_nat (leValue bs) :: u64) = leValue bs"
    by (simp add: unat_of_nat take_bit_eq_mod)
  then show ?thesis
    using assms by (simp add: putUint64_def getUint64_def leBytes_leValue)
qed

lemma length_concat_putUint64 [simp]: "length (concat (map putUint64 vs)) = 8 * length vs"
  by (induction vs) auto

lemma readValues_concat: "readValues (length vs) (concat (map putUint64 vs)) = vs"
  by (induction vs) auto

lemma concat_readValues: "length bs = 8 * n \<Longrightarrow> concat (map putUint64 (readValues n bs)) = bs"
  by (induction n arbitrary: bs) (auto simp: putUint64_getUint64)

lemma length_readValues [simp]: "length (readValues n bs) = n"
  by (induction n arbitrary: bs) auto

text \<open>
  (C29) Payload codec.  Deserialising accepts exactly the byte strings a well-formed packet
  serialises to, and gives that packet back: the codec is a bijection between packets with 750
  values and byte strings of the packet size, and every other length is rejected.
\<close>

theorem data_packet_codec:
  "deserializeData bs = Some dp \<longleftrightarrow> length (dp_Values dp) = DataPacketValueCount \<and> bs = serializeData dp"
proof
  assume l: "deserializeData bs = Some dp"
  then have len: "length bs = 16 + 8 * DataPacketValueCount"
    by (auto simp: deserializeData_def Let_def DataPacketValueCount_def split: if_splits)
  with l have dp: "dp = \<lparr>dp_InterestQsf = getUint64 (take 8 bs), dp_DataQsf = getUint64 (take 8 (drop 8 bs)),
                   dp_Values = readValues DataPacketValueCount (drop 16 bs)\<rparr>"
    by (simp add: deserializeData_def)
  have "serializeData dp = take 8 bs @ take 8 (drop 8 bs) @ drop 16 bs"
    using len by (simp add: dp serializeData_def putUint64_getUint64 concat_readValues)
  also have "\<dots> = take 8 bs @ take 8 (drop 8 bs) @ drop 8 (drop 8 bs)"
    by simp
  also have "\<dots> = bs"
    by (simp only: append_take_drop_id)
  finally show "length (dp_Values dp) = DataPacketValueCount \<and> bs = serializeData dp"
    by (simp add: dp)
next
  assume r: "length (dp_Values dp) = DataPacketValueCount \<and> bs = serializeData dp"
  then have "readValues DataPacketValueCount (concat (map putUint64 (dp_Values dp))) = dp_Values dp"
    using readValues_concat [of "dp_Values dp"] by simp
  with r show "deserializeData bs = Some dp"
    by (simp add: deserializeData_def serializeData_def DataPacketValueCount_def)
qed

lemma getSize_serializeData: "length (serializeData dp) = getSize dp"
  by (simp add: serializeData_def getSize_def)

lemma discovery_roundtrip: "deserializeDiscovery (serializeDiscovery dp) = Some dp"
  by (simp add: deserializeDiscovery_def serializeDiscovery_def boolByte_def)

end
