(* ===== verification/Consumer_Config.thy ===== *)
theory Consumer_Config
  imports Data_Packet
begin

text \<open>
  Constants, tunables and pure helpers of the consumer (\<open>apps/consumer/consumer.go\<close>).  The
  package variables that \<open>main\<close> fixes before any flow starts are the fields of \<open>config\<close>;
  \<open>applyAdaptiveDtTunables\<close> computes four of them.  \<open>cfg_csvOpen\<close> says whether the CSV
  sink of the flow is present and its writes succeed, the only effect of that I/O on the state.
\<close>

subsection \<open>Constants\<close>

definition RTT_WINDOW_DURATION :: duration where "RTT_WINDOW_DURATION = 600 * millisecond"
definition MIN_RTO :: float64 where "MIN_RTO = 240"
definition MAX_RTO :: float64 where "MAX_RTO = 3500"
definition RTO_JITTER_RATIO :: float64 where "RTO_JITTER_RATIO = 1 / 10"
definition DT_INFLIGHT_INITIAL_RTT_MULTIPLIER :: float64 where "DT_INFLIGHT_INITIAL_RTT_MULTIPLIER = 2"
definition DT_INFLIGHT_MIN_PACKETS :: int where "DT_INFLIGHT_MIN_PACKETS = 16"
definition DT_INFLIGHT_MAX_PACKETS :: int where "DT_INFLIGHT_MAX_PACKETS = 512"
definition DT_SEND_BURST_INTERVAL :: duration where "DT_SEND_BURST_INTERVAL = 5 * millisecond"
definition DT_STATIC_CONTROL_PERIOD :: duration where "DT_STATIC_CONTROL_PERIOD = 20 * millisecond"
definition DT_USE_STATIC_CONTROL_PERIOD :: bool where "DT_USE_STATIC_CONTROL_PERIOD = True"
definition DT_CONTROL_PERIOD_RTT_SCALE :: float64 where "DT_CONTROL_PERIOD_RTT_SCALE = 1"
definition DT_USE_QSF_BIAS_REMOVAL :: bool where "DT_USE_QSF_BIAS_REMOVAL = False"
definition PD_INIT_RATE :: float64 where "PD_INIT_RATE = 1000"
definition PD_INIT_RTO :: float64 where "PD_INIT_RTO = 200"
definition PD_REHEARSAL_BUDGET :: int where "PD_REHEARSAL_BUDGET = 20"
definition RC_RTT_LOW_THRESH_MULT :: float64 where "RC_RTT_LOW_THRESH_MULT = 3"
definition RC_RTT_HIGH_THRESH_MULT :: float64 where "RC_RTT_HIGH_THRESH_MULT = 6"
definition RC_INC_FACTOR :: float64 where "RC_INC_FACTOR = 105 / 100"
definition RC_DEC_FACTOR :: float64 where "RC_DEC_FACTOR = 95 / 100"
definition RC_CAP_LOWER_MULT :: float64 where "RC_CAP_LOWER_MULT = 8 / 10"
definition RC_CAP_UPPER_MULT :: float64 where "RC_CAP_UPPER_MULT = 175 / 100"

datatype ConsumerRateControlMode = ConsumerRateControlDelay | ConsumerRateControlQsf

datatype ConsumerQsfRateControlAction =
    ConsumerQsfActionEmergencyDecrease
  | ConsumerQsfActionHoldDraining
  | ConsumerQsfActionGentleDecrease
  | ConsumerQsfActionCautiousIncrease
  | ConsumerQsfActionAggressiveProbe
  | ConsumerQsfActionBWCapped
  | ConsumerQsfActionBWBoosted
  | ConsumerQsfActionGlobalMinCapped
  | ConsumerQsfActionGlobalMaxCapped

record ConsumerQsfRateControlParams =
  qp_MaxQueueSize :: float64
  qp_QueueAlpha :: float64
  qp_QueueBeta :: float64
  qp_MDFactor :: float64
  qp_RPFactor :: float64
  qp_GDFactor :: float64
  qp_CIFactor :: float64
  qp_SlopeThreshold :: float64
  qp_MaxBWSafetyRatio :: float64
  qp_MinBWSafetyRatio :: float64
  qp_MinRate :: float64
  qp_MaxRate :: float64
  qp_SlopeTauRatio :: float64
  qp_NoSampleWarnEvery :: duration

definition rtoOuterMultiplier :: int where "rtoOuterMultiplier = 1"

definition consumerQsfRateControlParams :: ConsumerQsfRateControlParams where
  "consumerQsfRateControlParams =
    \<lparr>qp_MaxQueueSize = 1, qp_QueueAlpha = 5 / 10, qp_QueueBeta = 8 / 10, qp_MDFactor = 9 / 10,
     qp_RPFactor = 105 / 100, qp_GDFactor = 95 / 100, qp_CIFactor = 102 / 100,
     qp_SlopeThreshold = 1 / 10, qp_MaxBWSafetyRatio = 12 / 10, qp_MinBWSafetyRatio = 5 / 10,
     qp_MinRate = 5 / 1000, qp_MaxRate = 0, qp_SlopeTauRatio = 1 / 3,
     qp_NoSampleWarnEvery = 500 * millisecond\<rparr>"

definition baseMaxPackets :: int where "baseMaxPackets = 15000"
definition referenceDtInitRatePps :: float64 where "referenceDtInitRatePps = 3000"
definition referenceDtMinRatePps :: float64 where "referenceDtMinRatePps = 10"
definition referenceDataPacketBytes :: int where "referenceDataPacketBytes = 16 + (150 * 8)"
definition targetDtInitMbps :: float64 where
  "targetDtInitMbps = (referenceDtInitRatePps * of_int referenceDataPacketBytes * 8) / 1000000"
definition targetDtMinRateMbps :: float64 where
  "targetDtMinRateMbps = (referenceDtMinRatePps * of_int referenceDataPacketBytes * 8) / 1000000"
definition baseThroughputWindow :: duration where "baseThroughputWindow = 20 * millisecond"
definition consumerQsfSampleLimit :: nat where "consumerQsfSampleLimit = 3"
definition consumerBwSampleMin :: nat where "consumerBwSampleMin = 2"
definition consumerBwObsLimit :: nat where "consumerBwObsLimit = 3"
definition consumerBwAlphaUp :: float64 where "consumerBwAlphaUp = 25 / 100"
definition consumerBwAlphaDown :: float64 where "consumerBwAlphaDown = 25 / 100"
definition consumerBwAlphaSmall :: float64 where "consumerBwAlphaSmall = 1 / 10"
definition oddConsumerDtDelay :: duration where "oddConsumerDtDelay = 1001500 * 1000"

datatype TransmissionMode = ModePD | ModeDT

record config =
  cfg_MAX_PACKETS :: int
  cfg_DT_INIT_RATE :: float64
  cfg_THROUGHPUT_WINDOW_DUR :: duration
  cfg_RC_MIN_RATE :: float64
  cfg_consumerRateControlMode :: ConsumerRateControlMode
  cfg_consumerNodeName :: string
  cfg_consumerIndex :: int
  cfg_initialMode :: TransmissionMode
  cfg_disableAltUri :: bool
  cfg_csvOpen :: bool

subsection \<open>Helpers\<close>

definition rateMbpsToPps :: "float64 \<Rightarrow> float64 \<Rightarrow> float64" where
  "rateMbpsToPps rateMbps payloadBytes =
    (if rateMbps \<le> 0 \<or> payloadBytes \<le> 0 then 0 else (rateMbps * 1000000) / (payloadBytes * 8))"

definition ratePpsToMbps :: "float64 \<Rightarrow> float64 \<Rightarrow> float64" where
  "ratePpsToMbps ratePps payloadBytes =
    (if ratePps \<le> 0 \<or> payloadBytes \<le> 0 then 0 else (ratePps * payloadBytes * 8) / 1000000)"

definition selectConsumerRateControlMode :: "string \<Rightarrow> ConsumerRateControlMode" where
  "selectConsumerRateControlMode deploymentMode =
    (if deploymentMode = ''minimal'' then ConsumerRateControlDelay else ConsumerRateControlQsf)"

definition applyAdaptiveDtTunables :: "string \<Rightarrow> int \<Rightarrow> config \<Rightarrow> config" where
  "applyAdaptiveDtTunables deploymentMode flowCount cfg =
    (let currentPktSize = int (getSize newDataPacket) in
     if currentPktSize \<le> 0 then cfg
     else
       let payloadBytes = of_int currentPktSize :: float64;
           scale = of_int referenceDataPacketBytes / payloadBytes
       in if scale \<le> 0 then cfg
          else
            let effectiveInitMbps =
                  (if deploymentMode = ''minimal'' \<and> 0 < flowCount
                   then targetDtInitMbps / of_int flowCount else targetDtInitMbps)
            in cfg\<lparr>cfg_DT_INIT_RATE := max 1 (rateMbpsToPps effectiveInitMbps payloadBytes),
                   cfg_RC_MIN_RATE := max 1 (rateMbpsToPps targetDtMinRateMbps payloadBytes),
                   cfg_MAX_PACKETS := go_trunc (max 1 (go_round (of_int baseMaxPackets * scale))),
                   cfg_THROUGHPUT_WINDOW_DUR := baseThroughputWindow\<rparr>)"

definition consumerMilestoneTarget :: "int \<Rightarrow> float64 \<Rightarrow> int" where
  "consumerMilestoneTarget totalPackets ratio =
    (if totalPackets \<le> 0 then 0
     else let t0 = \<lceil>of_int totalPackets * ratio\<rceil>;
              t1 = (if t0 < 1 then 1 else t0)
          in if t1 > totalPackets then totalPackets else t1)"

definition consumerDurationSeconds :: "gotime \<Rightarrow> gotime \<Rightarrow> float64" where
  "consumerDurationSeconds start end =
    (if isZero start \<or> isZero end then 0
     else let duration = seconds (time_sub end start) in if duration < 0 then 0 else duration)"

definition clampFloat :: "float64 \<Rightarrow> float64 \<Rightarrow> float64 \<Rightarrow> float64" where
  "clampFloat value minimum maximum =
    (if value < minimum then minimum
     else if 0 < maximum \<and> maximum < value then maximum
     else value)"

definition parseConsumerIndex :: "string \<Rightarrow> int option" where
  "parseConsumerIndex nodeName =
    (if \<not> hasPrefix nodeName ''con'' then None
     else
       let idx0 = trimPrefix nodeName ''con'';
           idxStr = (if hasSuffix idx0 ''app'' then trimSuffix idx0 ''app'' else idx0)
       in if idxStr = [] then None
          else case atoi idxStr of
                 None \<Rightarrow> None
               | Some idx \<Rightarrow> if idx < 0 then None else Some idx)"

definition extractSeqNum :: "string \<Rightarrow> int" where
  "extractSeqNum nameStr =
    (let lastPart = last (split CHR ''/'' nameStr) in
     if \<not> hasPrefix lastPart ''seq-'' then -1
     else case atoi (trimPrefix lastPart ''seq-'') of None \<Rightarrow> -1 | Some seqNum \<Rightarrow> seqNum)"

definition parseProducerRange :: "string \<Rightarrow> string list option" where
  "parseProducerRange rangeStr =
    (case split CHR ''-'' rangeStr of
       [a, b] \<Rightarrow>
         (case (atoi a, atoi b) of
            (Some start, Some end) \<Rightarrow> Some (map (\<lambda>i. ''/pro'' @ itoa i @ ''app'') [start..end])
          | _ \<Rightarrow> None)
     | _ \<Rightarrow> None)"

subsection \<open>Facts\<close>

lemmas rto_defs = MIN_RTO_def MAX_RTO_def RTO_JITTER_RATIO_def

lemma consumerMilestoneTarget_bounds:
  "0 < n \<Longrightarrow> 1 \<le> consumerMilestoneTarget n r \<and> consumerMilestoneTarget n r \<le> n"
  by (auto simp: consumerMilestoneTarget_def Let_def)

lemma consumerMilestoneTarget_min_max:
  "0 < n \<Longrightarrow> consumerMilestoneTarget n r = min n (max 1 \<lceil>of_int n * r\<rceil>)"
proof -
  have "(let t1 = (if t0 < 1 then 1 else t0) in if t1 > n then n else t1) = min n (max 1 t0)" for t0 :: int
    by (auto simp: Let_def)
  then show "0 < n \<Longrightarrow> ?thesis"
    by (simp only: consumerMilestoneTarget_def Let_def) auto
qed

lemma consumerMilestoneTarget_mono:
  assumes "r \<le> r'" and "0 < n"
  shows "consumerMilestoneTarget n r \<le> consumerMilestoneTarget n r'"
proof -
  have "\<lceil>of_int n * r\<rceil> \<le> \<lceil>of_int n * r'\<rceil>"
    using assms by (intro ceiling_mono mult_left_mono) auto
  with assms(2) show ?thesis by (simp only: consumerMilestoneTarget_min_max min.mono max.mono order_refl)
qed

lemma clampFloat_bounds:
  "0 < hi \<Longrightarrow> lo \<le> hi \<Longrightarrow> lo \<le> clampFloat v lo hi \<and> clampFloat v lo hi \<le> hi"
  by (auto simp: clampFloat_def)

lemma getSize_newDataPacket [simp]: "getSize newDataPacket = 6016"
  by (simp add: getSize_def newDataPacket_def DataPacketValueCount_def)

text \<open>What the rest of the consumer assumes of its configuration.\<close>

definition cfg_ok :: "config \<Rightarrow> bool" where
  "cfg_ok cfg \<longleftrightarrow> 1 \<le> cfg_MAX_PACKETS cfg \<and> 1 \<le> cfg_DT_INIT_RATE cfg \<and> 1 \<le> cfg_RC_MIN_RATE cfg
     \<and> 0 < cfg_THROUGHPUT_WINDOW_DUR cfg"

lemma cfg_ok_applyAdaptive: "cfg_ok (applyAdaptiveDtTunables mode n cfg)"
proof -
  have "0 < referenceDataPacketBytes" by (simp add: referenceDataPacketBytes_def)
  moreover have "1 \<le> go_trunc (max 1 x)" for x
    using go_trunc_mono [of 1 "max 1 x"] by (simp add: go_trunc_def)
  ultimately show ?thesis
    by (simp add: applyAdaptiveDtTunables_def cfg_ok_def Let_def baseThroughputWindow_def)
qed

lemma adaptive_MAX_PACKETS: "cfg_MAX_PACKETS (applyAdaptiveDtTunables mode n cfg) = 3032"
  by (simp add: applyAdaptiveDtTunables_def Let_def referenceDataPacketBytes_def baseMaxPackets_def
      go_round_def go_trunc_def)

end
