(* ===== verification/Rate_Control.thy ===== *)
theory Rate_Control
  imports Consumer_Config
begin

text \<open>
  RTT estimation, queue-signal processing, bandwidth estimation and rate control of one consumer
  flow (\<open>apps/consumer/consumer.go\<close>).  \<open>rateState\<close> holds the fields of \<open>FlowContext\<close> these
  methods read and write; the flow embeds it as one field.  The two fields \<open>Mode\<close> and
  \<open>isFinished\<close> of the flow that two of the methods test are arguments here.  Logging is not
  modelled; of the CSV output only its effect on the retained \<open>lastCsv\<close> fields is.
\<close>

subsection \<open>State\<close>

record RTTSample =
  rs_Timestamp :: gotime
  rs_RTT :: float64

record PacketSample =
  pk_Timestamp :: gotime
  pk_Size :: int
  pk_RTT :: float64
  pk_RTTValid :: bool
  pk_InterestQsf :: float64
  pk_DataQsf :: float64

datatype bwTrend = bwTrendUnknown | bwTrendIncreasing | bwTrendDecreasing | bwTrendFluctuating

record rateState =
  r_currentRate :: float64
  r_rto :: float64
  r_rttHistory :: "RTTSample list"
  r_srtt :: float64
  r_rttVar :: float64
  r_window :: "PacketSample list"
  r_estimatedBandwidth :: float64
  r_lastMeasuredBandwidth :: float64
  r_lastBWUpdateRule :: string
  r_lastInterestQsfAvg :: float64
  r_lastInterestQsfSlope :: float64
  r_lastDataQsfAvg :: float64
  r_lastDataQsfSlope :: float64
  r_lastQsfObservationOk :: bool
  r_qsfWindowWarmed :: bool
  r_interestQsfBias :: float64
  r_interestQsfBiasSum :: float64
  r_interestQsfBiasCount :: int
  r_interestQsfBiasReady :: bool
  r_bwCapActive :: bool
  r_bwCapEligible :: bool
  r_bwBootstrapReady :: bool
  r_bwObservations :: "float64 list"
  r_lastBwObservationTime :: gotime
  r_lastRateSampleTime :: gotime
  r_lastNoSampleWarn :: gotime
  r_congestionWindow :: float64
  r_pktsCalibrated :: int
  r_initialRTTSum :: float64
  r_baseRTT :: float64
  r_adjustmentPeriod :: duration
  r_lastRateUpdate :: gotime
  r_interestsSentInPeriod :: int
  r_lastCsvPayloadBytes :: float64
  r_lastCsvBWMbps :: float64
  r_lastCsvPrevRateMbps :: float64
  r_lastCsvActualRateMbps :: float64
  r_lastCsvNewRateMbps :: float64
  r_lastCsvMetricsValid :: bool

subsection \<open>Congestion window\<close>

definition initialDTInflightWindow :: "config \<Rightarrow> float64 \<Rightarrow> float64 \<Rightarrow> float64" where
  "initialDTInflightWindow cfg rate0 rttMs0 =
    (let rate = (if rate0 \<le> 0 then cfg_DT_INIT_RATE cfg else rate0);
         rttMs = (if rttMs0 \<le> 0 then MIN_RTO / 4 else rttMs0);
         window = rate * (rttMs / 1000) * DT_INFLIGHT_INITIAL_RTT_MULTIPLIER
     in clampFloat window (of_int DT_INFLIGHT_MIN_PACKETS) (of_int DT_INFLIGHT_MAX_PACKETS))"

definition dtInflightLimitLocked :: "config \<Rightarrow> rateState \<Rightarrow> int" where
  "dtInflightLimitLocked cfg r =
    (let window = (if r_congestionWindow r \<le> 0
                   then initialDTInflightWindow cfg (r_currentRate r) (r_baseRTT r)
                   else r_congestionWindow r);
         limit0 = \<lceil>window\<rceil>;
         limit1 = (if limit0 < DT_INFLIGHT_MIN_PACKETS then DT_INFLIGHT_MIN_PACKETS else limit0)
     in if limit1 > DT_INFLIGHT_MAX_PACKETS then DT_INFLIGHT_MAX_PACKETS else limit1)"

definition growCongestionWindowOnAckLocked :: "config \<Rightarrow> rateState \<Rightarrow> rateState" where
  "growCongestionWindowOnAckLocked cfg r0 =
    (let r = (if r_congestionWindow r0 \<le> 0
              then r0\<lparr>r_congestionWindow := initialDTInflightWindow cfg (r_currentRate r0) (r_baseRTT r0)\<rparr>
              else r0)
     in if r_congestionWindow r \<ge> of_int DT_INFLIGHT_MAX_PACKETS then r
        else
          let w = r_congestionWindow r + 1 / max (r_congestionWindow r) 1
          in r\<lparr>r_congestionWindow :=
                 (if w > of_int DT_INFLIGHT_MAX_PACKETS then of_int DT_INFLIGHT_MAX_PACKETS else w)\<rparr>)"

subsection \<open>RTT and RTO\<close>

definition applyRTOOuterMultiplier :: "float64 \<Rightarrow> int \<Rightarrow> float64" where
  "applyRTOOuterMultiplier calculatedRTO multiplier =
    (let f0 = of_int multiplier * calculatedRTO;
         f1 = (if f0 < MIN_RTO then MIN_RTO else f0)
     in if f1 > MAX_RTO then MAX_RTO else f1)"

text \<open>Index of the first element satisfying \<open>P\<close>, as the loops with \<open>break\<close> find it.\<close>

fun findIdx :: "('a \<Rightarrow> bool) \<Rightarrow> 'a list \<Rightarrow> nat option" where
  "findIdx P [] = None"
| "findIdx P (x # xs) = (if P x then Some 0 else map_option Suc (findIdx P xs))"

definition updateRTT :: "gotime \<Rightarrow> float64 \<Rightarrow> rateState \<Rightarrow> rateState" where
  "updateRTT receiveTime rttVal r =
    (let hist0 = r_rttHistory r @ [\<lparr>rs_Timestamp = receiveTime, rs_RTT = rttVal\<rparr>];
         validIdx = (case findIdx (\<lambda>s. time_sub receiveTime (rs_Timestamp s) \<le> RTT_WINDOW_DURATION) hist0
                     of None \<Rightarrow> 0 | Some i \<Rightarrow> i);
         hist = drop validIdx hist0;
         count = length hist;
         (meanRTT, variance, calculatedRTO) =
           (if count < 2 then (rttVal, 0, max MIN_RTO (2 * rttVal))
            else
              let mean = foldl (\<lambda>acc s. acc + rs_RTT s) 0 hist / of_nat count;
                  var = foldl (\<lambda>acc s. acc + (rs_RTT s - mean) * (rs_RTT s - mean)) 0 hist / of_nat count
              in (mean, var, mean + 4 * sqrt var))
     in r\<lparr>r_rttHistory := hist, r_srtt := meanRTT, r_rttVar := variance,
          r_rto := applyRTOOuterMultiplier calculatedRTO rtoOuterMultiplier\<rparr>)"

subsection \<open>Window and queue signals\<close>

definition trimRateControlWindow :: "config \<Rightarrow> gotime \<Rightarrow> rateState \<Rightarrow> rateState" where
  "trimRateControlWindow cfg now r =
    (let cutoff = now - cfg_THROUGHPUT_WINDOW_DUR cfg;
         validWinIdx = (case findIdx (\<lambda>s. \<not> pk_Timestamp s < cutoff) (r_window r)
                        of None \<Rightarrow> length (r_window r) | Some i \<Rightarrow> i)
     in if 0 < validWinIdx then r\<lparr>r_window := drop validWinIdx (r_window r)\<rparr> else r)"

definition consumerLatestQsfSamples :: "PacketSample list \<Rightarrow> PacketSample list" where
  "consumerLatestQsfSamples window =
    (if length window \<le> consumerQsfSampleLimit then window
     else drop (length window - consumerQsfSampleLimit) window)"

definition consumerComputeQsfSignal ::
  "config \<Rightarrow> gotime \<Rightarrow> PacketSample list \<Rightarrow> (PacketSample \<Rightarrow> float64) \<Rightarrow> float64 \<times> float64" where
  "consumerComputeQsfSignal cfg now samples selector =
    (if length samples = 0 then (0, 0)
     else
       let tau0 = seconds (cfg_THROUGHPUT_WINDOW_DUR cfg) * qp_SlopeTauRatio consumerQsfRateControlParams;
           tau = (if tau0 \<le> 0 then seconds (cfg_THROUGHPUT_WINDOW_DUR cfg) / 3 else tau0);
           t = (\<lambda>s. seconds (time_sub (pk_Timestamp s) now));
           w = (\<lambda>s. exp (t s / tau));
           avgQsf = sum_list (map selector samples) / of_nat (length samples);
           sumW = sum_list (map w samples);
           sumWT = sum_list (map (\<lambda>s. w s * t s) samples);
           sumWQ = sum_list (map (\<lambda>s. w s * selector s) samples);
           sumWTT = sum_list (map (\<lambda>s. w s * t s * t s) samples);
           sumWTQ = sum_list (map (\<lambda>s. w s * t s * selector s) samples);
           denom = sumW * sumWTT - sumWT * sumWT
       in if \<bar>denom\<bar> < 1 / 1000000000 then (avgQsf, 0)
          else (avgQsf, (sumW * sumWTQ - sumWT * sumWQ) / denom))"

definition observeInterestQsfBias :: "float64 \<Rightarrow> rateState \<Rightarrow> rateState" where
  "observeInterestQsfBias rawQsf r =
    (if \<not> DT_USE_QSF_BIAS_REMOVAL then r
     else if r_interestQsfBiasReady r then r
     else
       let r1 = r\<lparr>r_interestQsfBiasSum := r_interestQsfBiasSum r + rawQsf,
                  r_interestQsfBiasCount := r_interestQsfBiasCount r + 1\<rparr>;
           r2 = r1\<lparr>r_interestQsfBias := r_interestQsfBiasSum r1 / of_int (r_interestQsfBiasCount r1)\<rparr>
       in if r_interestQsfBiasCount r2 \<ge> int consumerQsfSampleLimit
          then r2\<lparr>r_interestQsfBiasReady := True\<rparr> else r2)"

definition correctedInterestQsf :: "rateState \<Rightarrow> float64 \<Rightarrow> float64" where
  "correctedInterestQsf r rawQsf =
    (if \<not> DT_USE_QSF_BIAS_REMOVAL then rawQsf
     else let corrected = rawQsf - r_interestQsfBias r in if corrected < 0 then 0 else corrected)"

definition computeQsfSignalsLocked ::
  "config \<Rightarrow> gotime \<Rightarrow> rateState \<Rightarrow> rateState \<times> float64 \<times> float64 \<times> float64 \<times> float64" where
  "computeQsfSignalsLocked cfg now r =
    (if length (r_window r) = 0 then
       (if r_lastQsfObservationOk r
        then (r, r_lastInterestQsfAvg r, r_lastInterestQsfSlope r, r_lastDataQsfAvg r, r_lastDataQsfSlope r)
        else (r, 0, 0, 0, 0))
     else
       let samples = consumerLatestQsfSamples (r_window r);
           (interestQ, interestSlope) =
             consumerComputeQsfSignal cfg now samples (\<lambda>s. correctedInterestQsf r (pk_InterestQsf s));
           (dataQ, dataSlope) = consumerComputeQsfSignal cfg now samples pk_DataQsf
       in (r\<lparr>r_lastInterestQsfAvg := interestQ, r_lastInterestQsfSlope := interestSlope,
             r_lastDataQsfAvg := dataQ, r_lastDataQsfSlope := dataSlope,
             r_lastQsfObservationOk := True\<rparr>,
           interestQ, interestSlope, dataQ, dataSlope))"

definition computeDominantQsfSignal ::
  "config \<Rightarrow> gotime \<Rightarrow> rateState \<Rightarrow> rateState \<times> float64 \<times> float64 \<times> string \<times> float64 \<times> float64 \<times> float64 \<times> float64" where
  "computeDominantQsfSignal cfg now r =
    (let (r1, interestQ, interestSlope, dataQ, dataSlope) = computeQsfSignalsLocked cfg now r in
     if interestQ \<ge> dataQ
     then (r1, interestQ, interestSlope, ''interest'', interestQ, interestSlope, dataQ, dataSlope)
     else (r1, dataQ, dataSlope, ''data'', interestQ, interestSlope, dataQ, dataSlope))"

definition consumerHasNoSampleObservation :: "config \<Rightarrow> rateState \<Rightarrow> bool" where
  "consumerHasNoSampleObservation cfg r =
    (case cfg_consumerRateControlMode cfg of
       ConsumerRateControlQsf \<Rightarrow> r_lastQsfObservationOk r
     | _ \<Rightarrow> \<not> isZero (r_lastRateSampleTime r))"

definition consumerNoSampleRuleString :: "config \<Rightarrow> string" where
  "consumerNoSampleRuleString cfg =
    (case cfg_consumerRateControlMode cfg of
       ConsumerRateControlQsf \<Rightarrow> ''no-qsf-sample-retain''
     | _ \<Rightarrow> ''no-delay-sample-retain'')"

definition consumerControlPeriodFromBootstrap :: "float64 \<Rightarrow> duration" where
  "consumerControlPeriodFromBootstrap baseRTT =
    (if DT_USE_STATIC_CONTROL_PERIOD then DT_STATIC_CONTROL_PERIOD
     else let period = go_trunc (baseRTT * DT_CONTROL_PERIOD_RTT_SCALE * of_int millisecond)
          in if period < DT_STATIC_CONTROL_PERIOD then DT_STATIC_CONTROL_PERIOD else period)"

definition consumerBwObservationSpacing :: "duration \<Rightarrow> duration" where
  "consumerBwObservationSpacing period0 =
    (let period = (if period0 \<le> 0 then DT_STATIC_CONTROL_PERIOD else period0);
         spacing = go_quot period 3
     in if spacing \<le> 0 then millisecond else spacing)"

fun adjacentAll :: "('a \<Rightarrow> 'a \<Rightarrow> bool) \<Rightarrow> 'a list \<Rightarrow> bool" where
  "adjacentAll P (x # y # ys) = (P x y \<and> adjacentAll P (y # ys))"
| "adjacentAll P _ = True"

definition consumerBwTrend :: "float64 list \<Rightarrow> bwTrend" where
  "consumerBwTrend observations =
    (if length observations < 2 then bwTrendUnknown
     else if adjacentAll (\<lambda>a b. \<not> b \<le> a) observations then bwTrendIncreasing
     else if adjacentAll (\<lambda>a b. \<not> b \<ge> a) observations then bwTrendDecreasing
     else bwTrendFluctuating)"

definition averageFloat64 :: "float64 list \<Rightarrow> float64" where
  "averageFloat64 values =
    (if length values = 0 then 0 else sum_list values / of_nat (length values))"

definition windowPayloadAvgBytes :: "rateState \<Rightarrow> float64" where
  "windowPayloadAvgBytes r =
    (if length (r_window r) = 0 then 0
     else of_int (sum_list (map pk_Size (r_window r))) / of_nat (length (r_window r)))"

definition windowRTTAvg :: "rateState \<Rightarrow> float64" where
  "windowRTTAvg r =
    (let valid = filter pk_RTTValid (r_window r) in
     if length valid = 0 then 0 else sum_list (map pk_RTT valid) / of_nat (length valid))"

definition measuredPPSFromWindow :: "config \<Rightarrow> rateState \<Rightarrow> float64" where
  "measuredPPSFromWindow cfg r =
    (if length (r_window r) = 0 \<or> cfg_THROUGHPUT_WINDOW_DUR cfg \<le> 0 then 0
     else of_nat (length (r_window r)) / seconds (cfg_THROUGHPUT_WINDOW_DUR cfg))"

definition bwSampleCountFromWindow :: "rateState \<Rightarrow> nat" where
  "bwSampleCountFromWindow r = length (r_window r)"

definition writeRateControlCsv ::
  "config \<Rightarrow> float64 \<Rightarrow> float64 \<Rightarrow> float64 \<Rightarrow> float64 \<Rightarrow> string \<Rightarrow> rateState \<Rightarrow> rateState" where
  "writeRateControlCsv cfg bwPps prevRate actualRate newRate controlState r =
    (if cfg_consumerNodeName cfg = [] \<or> \<not> cfg_csvOpen cfg then r
     else
       let payloadBytes = windowPayloadAvgBytes r;
           csvPayloadBytes = (if payloadBytes \<le> 0 \<and> r_lastCsvPayloadBytes r > 0
                              then r_lastCsvPayloadBytes r else payloadBytes);
           frozen = (controlState = ''frozen'' \<and> length (r_window r) = 0 \<and> r_lastCsvMetricsValid r);
           bwMbps = (if frozen then r_lastCsvBWMbps r else ratePpsToMbps bwPps csvPayloadBytes);
           prevRateMbps = (if frozen then r_lastCsvPrevRateMbps r else ratePpsToMbps prevRate csvPayloadBytes);
           actualRateMbps = ratePpsToMbps actualRate csvPayloadBytes;
           newRateMbps = (if frozen then r_lastCsvNewRateMbps r else ratePpsToMbps newRate csvPayloadBytes)
       in r\<lparr>r_lastCsvBWMbps := bwMbps, r_lastCsvPrevRateMbps := prevRateMbps,
            r_lastCsvActualRateMbps := actualRateMbps, r_lastCsvNewRateMbps := newRateMbps,
            r_lastCsvPayloadBytes := (if payloadBytes > 0 then payloadBytes else r_lastCsvPayloadBytes r),
            r_lastCsvMetricsValid := True\<rparr>)"

subsection \<open>Bandwidth estimation\<close>

text \<open>
  The Qsf and the delay estimator share their text except for the pressure test and the names of
  two rules; \<open>updateBandwidthEstimate\<close> is that text, with these as arguments.
\<close>

definition bwSampleRule :: "nat \<Rightarrow> float64 \<Rightarrow> float64 \<Rightarrow> string" where
  "bwSampleRule sampleCount measuredPPS prevBW =
    (if sampleCount < consumerBwSampleMin then
       (if sampleCount = 0 then ''no-sample-retain''
        else if prevBW > 0 then ''insufficient-sample-retain''
        else ''insufficient-sample-skip'')
     else if measuredPPS \<le> 0 \<and> prevBW > 0 then ''no-sample-retain''
     else ''retain'')"

definition bwCandidate ::
  "bool \<Rightarrow> bool \<Rightarrow> bwTrend \<Rightarrow> float64 \<Rightarrow> float64 \<Rightarrow> float64 \<Rightarrow> string \<Rightarrow> string
     \<Rightarrow> float64 \<times> float64 \<times> string" where
  "bwCandidate triggerUp triggerPressure trend prevBW latest avgRecent monoRule fluctRule =
    (if triggerUp \<and> trend = bwTrendIncreasing then (avgRecent, consumerBwAlphaUp, ''throughput-high-monotonic'')
     else if triggerUp then (latest, consumerBwAlphaSmall, ''throughput-high-fluctuating'')
     else if triggerPressure \<and> trend = bwTrendDecreasing then (latest, consumerBwAlphaDown, monoRule)
     else if triggerPressure then (latest, consumerBwAlphaSmall, fluctRule)
     else (prevBW, 0, ''retain''))"

definition recordBwObservation :: "gotime \<Rightarrow> float64 \<Rightarrow> rateState \<Rightarrow> rateState" where
  "recordBwObservation now measuredPPS r =
    (let obs = r_bwObservations r @ [measuredPPS]
     in r\<lparr>r_lastBwObservationTime := now,
          r_bwObservations := (if length obs > consumerBwObsLimit
                               then drop (length obs - consumerBwObsLimit) obs else obs)\<rparr>)"

definition updateBandwidthEstimate ::
  "config \<Rightarrow> gotime \<Rightarrow> bool \<Rightarrow> string \<Rightarrow> string \<Rightarrow> rateState \<Rightarrow> rateState \<times> string" where
  "updateBandwidthEstimate cfg now triggerPressure monoRule fluctRule r =
    (if r_adjustmentPeriod r \<le> 0 then (r, r_lastBWUpdateRule r)
     else
       let measuredPPS = measuredPPSFromWindow cfg r;
           sampleCount = bwSampleCountFromWindow r;
           prevBW = r_estimatedBandwidth r;
           rule = bwSampleRule sampleCount measuredPPS prevBW;
           r1 = r\<lparr>r_lastMeasuredBandwidth := measuredPPS\<rparr>
       in if sampleCount < consumerBwSampleMin \<or> measuredPPS \<le> 0
          then (r1\<lparr>r_lastBWUpdateRule := rule\<rparr>, rule)
          else if \<not> isZero (r_lastBwObservationTime r1)
                  \<and> time_sub now (r_lastBwObservationTime r1) < consumerBwObservationSpacing (r_adjustmentPeriod r1)
          then (r1\<lparr>r_lastBWUpdateRule := ''cadence-wait''\<rparr>, ''cadence-wait'')
          else
            let r2 = recordBwObservation now measuredPPS r1 in
            if \<not> r_bwBootstrapReady r2 then
              (if length (r_bwObservations r2) < consumerBwObsLimit
               then (r2\<lparr>r_lastBWUpdateRule := ''bootstrap-collecting''\<rparr>, ''bootstrap-collecting'')
               else (r2\<lparr>r_estimatedBandwidth := averageFloat64 (r_bwObservations r2),
                        r_bwBootstrapReady := True, r_lastBWUpdateRule := ''bootstrap-ready'',
                        r_lastRateUpdate := now, r_interestsSentInPeriod := 0\<rparr>, ''bootstrap-ready''))
            else
              let latest = last (r_bwObservations r2);
                  avgRecent = averageFloat64 (r_bwObservations r2);
                  trend = consumerBwTrend (r_bwObservations r2);
                  (candidate, alpha, rule') =
                    bwCandidate (measuredPPS > prevBW) triggerPressure trend prevBW latest avgRecent monoRule fluctRule;
                  r3 = (if alpha > 0
                        then let bw = prevBW + alpha * (candidate - prevBW)
                             in r2\<lparr>r_estimatedBandwidth := bw,
                                   r_bwCapEligible := (if bw \<ge> cfg_DT_INIT_RATE cfg then True else r_bwCapEligible r2)\<rparr>
                        else r2)
              in (r3\<lparr>r_lastBWUpdateRule := rule'\<rparr>, rule'))"

definition updateQsfBandwidthEstimate :: "config \<Rightarrow> gotime \<Rightarrow> float64 \<Rightarrow> rateState \<Rightarrow> rateState \<times> string" where
  "updateQsfBandwidthEstimate cfg now queuePressureQsf r =
    (let qthLow = qp_MaxQueueSize consumerQsfRateControlParams * qp_QueueAlpha consumerQsfRateControlParams
     in updateBandwidthEstimate cfg now (queuePressureQsf > qthLow)
          ''queue-pressure-monotonic'' ''queue-pressure-fluctuating'' r)"

definition updateDelayBandwidthEstimate :: "config \<Rightarrow> gotime \<Rightarrow> rateState \<Rightarrow> rateState \<times> string" where
  "updateDelayBandwidthEstimate cfg now r =
    updateBandwidthEstimate cfg now
      (r_baseRTT r > 0 \<and> windowRTTAvg r \<ge> RC_RTT_HIGH_THRESH_MULT * r_baseRTT r)
      ''delay-pressure-monotonic'' ''delay-pressure-fluctuating'' r"

subsection \<open>Per-packet update\<close>

definition calibrateRTT :: "config \<Rightarrow> gotime \<Rightarrow> float64 \<Rightarrow> rateState \<Rightarrow> rateState" where
  "calibrateRTT cfg receiveTime rttVal r =
    (let r1 = r\<lparr>r_initialRTTSum := r_initialRTTSum r + rttVal, r_pktsCalibrated := r_pktsCalibrated r + 1\<rparr>
     in if r_pktsCalibrated r1 = 5 then
          let base = r_initialRTTSum r1 / 5;
              calibratedWindow = initialDTInflightWindow cfg (r_currentRate r1) base
          in r1\<lparr>r_baseRTT := base,
                r_congestionWindow := (if calibratedWindow > r_congestionWindow r1
                                       then calibratedWindow else r_congestionWindow r1),
                r_adjustmentPeriod := consumerControlPeriodFromBootstrap base,
                r_lastRateUpdate := receiveTime, r_interestsSentInPeriod := 0\<rparr>
        else r1)"

definition updateRateControl ::
  "config \<Rightarrow> gotime \<Rightarrow> int \<Rightarrow> float64 \<Rightarrow> bool \<Rightarrow> float64 \<Rightarrow> float64 \<Rightarrow> rateState \<Rightarrow> rateState" where
  "updateRateControl cfg receiveTime payloadSize rttVal rttValid interestQsf dataQsf r =
    (let r0 = observeInterestQsfBias interestQsf r;
         r1 = r0\<lparr>r_lastRateSampleTime := receiveTime,
                 r_window := r_window r0 @ [\<lparr>pk_Timestamp = receiveTime, pk_Size = payloadSize,
                   pk_RTT = rttVal, pk_RTTValid = rttValid, pk_InterestQsf = interestQsf,
                   pk_DataQsf = dataQsf\<rparr>]\<rparr>;
         r2 = trimRateControlWindow cfg receiveTime r1;
         r3 = (if length (r_window r2) \<ge> consumerQsfSampleLimit then r2\<lparr>r_qsfWindowWarmed := True\<rparr> else r2)
     in if r_pktsCalibrated r3 < 5
        then (if \<not> rttValid then r3 else calibrateRTT cfg receiveTime rttVal r3)
        else (case cfg_consumerRateControlMode cfg of
                ConsumerRateControlQsf \<Rightarrow>
                  fst (updateQsfBandwidthEstimate cfg receiveTime
                         (max (correctedInterestQsf r3 interestQsf) dataQsf) r3)
              | _ \<Rightarrow> fst (updateDelayBandwidthEstimate cfg receiveTime r3)))"

subsection \<open>Periodic rate adjustment\<close>

definition delayRttStep :: "float64 \<Rightarrow> rateState \<Rightarrow> float64" where
  "delayRttStep avgWinRTT r =
    (if avgWinRTT < RC_RTT_LOW_THRESH_MULT * r_baseRTT r then r_currentRate r * RC_INC_FACTOR
     else if avgWinRTT \<ge> RC_RTT_HIGH_THRESH_MULT * r_baseRTT r then r_estimatedBandwidth r * RC_DEC_FACTOR
     else r_currentRate r)"

definition delayTargetRate :: "config \<Rightarrow> float64 \<Rightarrow> rateState \<Rightarrow> float64" where
  "delayTargetRate cfg avgWinRTT r =
    (let t0 = delayRttStep avgWinRTT r;
         lower0 = RC_CAP_LOWER_MULT * r_estimatedBandwidth r;
         lower = (if lower0 < 1 then 1 else lower0);
         upper0 = RC_CAP_UPPER_MULT * r_estimatedBandwidth r;
         upper = (if upper0 < cfg_DT_INIT_RATE cfg then cfg_DT_INIT_RATE cfg else upper0);
         t1 = (if r_bwCapActive r
               then let t = (if t0 < lower then lower else t0) in if t > upper then upper else t
               else t0)
     in if t1 < cfg_RC_MIN_RATE cfg then cfg_RC_MIN_RATE cfg else t1)"

definition updateDelayRateControl :: "config \<Rightarrow> gotime \<Rightarrow> float64 \<Rightarrow> rateState \<Rightarrow> rateState" where
  "updateDelayRateControl cfg receiveTime actualRate r =
    (let a0 = windowRTTAvg r;
         a1 = (if a0 \<le> 0 then r_srtt r else a0);
         avgWinRTT = (if a1 \<le> 0 then r_baseRTT r else a1);
         (r1, _, _, _, _) = computeQsfSignalsLocked cfg receiveTime r;
         (r2, _, _, _, _) = computeQsfSignalsLocked cfg receiveTime r1;
         oldRate = r_currentRate r2;
         newRate = delayTargetRate cfg avgWinRTT r2;
         r3 = r2\<lparr>r_currentRate := newRate, r_lastRateUpdate := receiveTime\<rparr>
     in writeRateControlCsv cfg (r_estimatedBandwidth r3) oldRate actualRate newRate ''normal'' r3)"

definition qsfQueueStep ::
  "float64 \<Rightarrow> float64 \<Rightarrow> float64 \<Rightarrow> float64 \<times> ConsumerQsfRateControlAction" where
  "qsfQueueStep currentQ queueSlope currentRate =
    (let params = consumerQsfRateControlParams;
         qthHigh = qp_MaxQueueSize params * qp_QueueBeta params;
         qthLow = qp_MaxQueueSize params * qp_QueueAlpha params
     in if currentQ \<ge> qthHigh then
          (if queueSlope > qp_SlopeThreshold params
           then (currentRate * qp_MDFactor params, ConsumerQsfActionEmergencyDecrease)
           else if queueSlope < - qp_SlopeThreshold params then (currentRate, ConsumerQsfActionHoldDraining)
           else (currentRate * qp_GDFactor params, ConsumerQsfActionGentleDecrease))
        else if currentQ \<ge> qthLow then (currentRate, ConsumerQsfActionHoldDraining)
        else if queueSlope > qp_SlopeThreshold params
        then (currentRate * qp_CIFactor params, ConsumerQsfActionCautiousIncrease)
        else (currentRate * qp_RPFactor params, ConsumerQsfActionAggressiveProbe))"

definition qsfBandwidthCap ::
  "bool \<Rightarrow> float64 \<Rightarrow> float64 \<Rightarrow> float64 \<times> ConsumerQsfRateControlAction
     \<Rightarrow> float64 \<times> ConsumerQsfRateControlAction" where
  "qsfBandwidthCap bwCapActive estimatedBandwidth currentQ ta0 =
    (let params = consumerQsfRateControlParams;
         qthLow = qp_MaxQueueSize params * qp_QueueAlpha params
     in if bwCapActive \<and> estimatedBandwidth > 0 then
          let upper = estimatedBandwidth * qp_MaxBWSafetyRatio params;
              ta1 = (if upper > 0 \<and> fst ta0 > upper then (upper, ConsumerQsfActionBWCapped) else ta0)
          in if currentQ < qthLow then
               let lower = estimatedBandwidth * qp_MinBWSafetyRatio params
               in if lower > 0 \<and> fst ta1 < lower then (lower, ConsumerQsfActionBWBoosted) else ta1
             else ta1
        else ta0)"

definition qsfTargetRate ::
  "config \<Rightarrow> float64 \<Rightarrow> float64 \<Rightarrow> rateState \<Rightarrow> float64 \<times> ConsumerQsfRateControlAction" where
  "qsfTargetRate cfg currentQ queueSlope r =
    (let params = consumerQsfRateControlParams;
         minRate = max (qp_MinRate params) (cfg_RC_MIN_RATE cfg);
         currentRate = (if r_currentRate r \<le> 0 then minRate else r_currentRate r);
         ta0 = qsfQueueStep currentQ queueSlope currentRate;
         ta1 = qsfBandwidthCap (r_bwCapActive r) (r_estimatedBandwidth r) currentQ ta0;
         ta2 = (if fst ta1 < minRate then (minRate, ConsumerQsfActionGlobalMinCapped) else ta1)
     in if qp_MaxRate params > 0 \<and> fst ta2 > qp_MaxRate params
        then (qp_MaxRate params, ConsumerQsfActionGlobalMaxCapped) else ta2)"

definition updateQsfRateControl :: "config \<Rightarrow> gotime \<Rightarrow> float64 \<Rightarrow> rateState \<Rightarrow> rateState" where
  "updateQsfRateControl cfg receiveTime actualRate r =
    (let (r1, currentQ, queueSlope, _, _, _, _, _) = computeDominantQsfSignal cfg receiveTime r;
         (targetRate, _) = qsfTargetRate cfg currentQ queueSlope r1;
         oldRate = r_currentRate r1;
         r2 = r1\<lparr>r_currentRate := targetRate, r_lastRateUpdate := receiveTime\<rparr>
     in writeRateControlCsv cfg (r_estimatedBandwidth r2) oldRate actualRate targetRate ''normal'' r2)"

definition freezeRateControl :: "config \<Rightarrow> gotime \<Rightarrow> float64 \<Rightarrow> rateState \<Rightarrow> rateState" where
  "freezeRateControl cfg now actualRate r =
    (let r1 = (case cfg_consumerRateControlMode cfg of
                 ConsumerRateControlQsf \<Rightarrow> fst (computeDominantQsfSignal cfg now r) | _ \<Rightarrow> r);
         r2 = r1\<lparr>r_lastBWUpdateRule := consumerNoSampleRuleString cfg, r_lastRateUpdate := now\<rparr>;
         r3 = writeRateControlCsv cfg (r_estimatedBandwidth r2) (r_currentRate r1) actualRate
                (r_currentRate r2) ''frozen'' r2
     in r3\<lparr>r_interestsSentInPeriod := 0\<rparr>)"

definition runPeriodicRateControl ::
  "config \<Rightarrow> TransmissionMode \<Rightarrow> bool \<Rightarrow> gotime \<Rightarrow> rateState \<Rightarrow> rateState" where
  "runPeriodicRateControl cfg mode isFinished now r =
    (if mode \<noteq> ModeDT \<or> r_pktsCalibrated r < 5 \<or> isFinished \<or> r_adjustmentPeriod r \<le> 0
        \<or> \<not> r_bwBootstrapReady r
     then r
     else
       let r1 = trimRateControlWindow cfg now r;
           timeSinceLastUpdate = time_sub now (r_lastRateUpdate r1)
       in if timeSinceLastUpdate < r_adjustmentPeriod r1 then r1
          else
            let actualRate = (if seconds timeSinceLastUpdate > 0
                              then of_int (r_interestsSentInPeriod r1) / seconds timeSinceLastUpdate else 0)
            in if length (r_window r1) = 0 \<and> consumerHasNoSampleObservation cfg r1
               then freezeRateControl cfg now actualRate r1
               else
                 let r2 = (if \<not> r_bwCapActive r1 \<and> r_bwBootstrapReady r1 \<and> r_bwCapEligible r1
                              \<and> r_estimatedBandwidth r1 \<ge> cfg_DT_INIT_RATE cfg
                           then r1\<lparr>r_bwCapActive := True\<rparr> else r1);
                     r3 = (case cfg_consumerRateControlMode cfg of
                             ConsumerRateControlQsf \<Rightarrow> updateQsfRateControl cfg now actualRate r2
                           | _ \<Rightarrow> updateDelayRateControl cfg now actualRate r2)
                 in r3\<lparr>r_interestsSentInPeriod := 0\<rparr>)"

definition checkRateControlNoFreshSamples ::
  "config \<Rightarrow> TransmissionMode \<Rightarrow> bool \<Rightarrow> gotime \<Rightarrow> rateState \<Rightarrow> rateState" where
  "checkRateControlNoFreshSamples cfg mode isFinished now r =
    (if mode \<noteq> ModeDT \<or> r_pktsCalibrated r < 5 \<or> isFinished then r
     else
       let r1 = trimRateControlWindow cfg now r in
       if length (r_window r1) > 0 \<or> r_estimatedBandwidth r1 \<le> 0 then r1
       else
         let w = qp_NoSampleWarnEvery consumerQsfRateControlParams;
             warnEvery = (if w \<le> 0 then 500 * millisecond else w)
         in if \<not> isZero (r_lastNoSampleWarn r1) \<and> time_sub now (r_lastNoSampleWarn r1) < warnEvery
            then r1 else r1\<lparr>r_lastNoSampleWarn := now\<rparr>)"

definition initRateState :: "config \<Rightarrow> gotime \<Rightarrow> rateState \<Rightarrow> rateState" where
  "initRateState cfg now r = r\<lparr>
     r_currentRate := cfg_DT_INIT_RATE cfg, r_rto := MIN_RTO * 2, r_rttHistory := [],
     r_estimatedBandwidth := cfg_DT_INIT_RATE cfg, r_lastMeasuredBandwidth := 0,
     r_lastBWUpdateRule := ''init'', r_lastInterestQsfAvg := 0, r_lastInterestQsfSlope := 0,
     r_lastDataQsfAvg := 0, r_lastDataQsfSlope := 0, r_lastQsfObservationOk := False,
     r_qsfWindowWarmed := False, r_interestQsfBias := 0, r_interestQsfBiasSum := 0,
     r_interestQsfBiasCount := 0, r_interestQsfBiasReady := False, r_bwCapActive := False,
     r_bwCapEligible := False, r_bwBootstrapReady := False, r_bwObservations := [],
     r_lastBwObservationTime := 0, r_lastRateSampleTime := 0, r_lastNoSampleWarn := 0,
     r_congestionWindow := initialDTInflightWindow cfg (cfg_DT_INIT_RATE cfg) 0, r_window := [],
     r_pktsCalibrated := 0, r_initialRTTSum := 0, r_baseRTT := 0, r_srtt := 0, r_rttVar := 0,
     r_interestsSentInPeriod := 0, r_lastRateUpdate := now\<rparr>"

definition zeroRateState :: rateState where
  "zeroRateState = \<lparr>r_currentRate = 0, r_rto = 0, r_rttHistory = [], r_srtt = 0, r_rttVar = 0,
     r_window = [], r_estimatedBandwidth = 0, r_lastMeasuredBandwidth = 0, r_lastBWUpdateRule = [],
     r_lastInterestQsfAvg = 0, r_lastInterestQsfSlope = 0, r_lastDataQsfAvg = 0,
     r_lastDataQsfSlope = 0, r_lastQsfObservationOk = False, r_qsfWindowWarmed = False,
     r_interestQsfBias = 0, r_interestQsfBiasSum = 0, r_interestQsfBiasCount = 0,
     r_interestQsfBiasReady = False, r_bwCapActive = False, r_bwCapEligible = False,
     r_bwBootstrapReady = False, r_bwObservations = [], r_lastBwObservationTime = 0,
     r_lastRateSampleTime = 0, r_lastNoSampleWarn = 0, r_congestionWindow = 0,
     r_pktsCalibrated = 0, r_initialRTTSum = 0, r_baseRTT = 0, r_adjustmentPeriod = 0,
     r_lastRateUpdate = 0, r_interestsSentInPeriod = 0, r_lastCsvPayloadBytes = 0,
     r_lastCsvBWMbps = 0, r_lastCsvPrevRateMbps = 0, r_lastCsvActualRateMbps = 0,
     r_lastCsvNewRateMbps = 0, r_lastCsvMetricsValid = False\<rparr>"

subsection \<open>Time windows\<close>

lemma findIdx_dropWhile:
  "drop (case findIdx P xs of None \<Rightarrow> length xs | Some i \<Rightarrow> i) xs = dropWhile (\<lambda>x. \<not> P x) xs"
  by (induction xs) (auto split: option.splits)

lemma findIdx_Some_iff: "(\<exists>i. findIdx P xs = Some i) \<longleftrightarrow> (\<exists>x\<in>set xs. P x)"
  by (induction xs) auto

lemma findIdx_length: "findIdx P xs = Some i \<Longrightarrow> i < length xs"
  by (induction xs arbitrary: i) (auto split: if_splits)

lemma dropWhile_sorted_filter:
  "sorted (map key xs) \<Longrightarrow> dropWhile (\<lambda>x. key x < (c :: 'k :: linorder)) xs = filter (\<lambda>x. c \<le> key x) xs"
proof (induction xs)
  case (Cons x xs)
  show ?case
  proof (cases "key x < c")
    case True
    then show ?thesis using Cons by simp
  next
    case False
    then have "\<forall>y\<in>set xs. c \<le> key y" using Cons.prems by force
    then show ?thesis using False by (simp add: filter_id_conv)
  qed
qed simp

lemma foldl_add_sum_list: "foldl (\<lambda>acc s. acc + g s) (a :: 'a :: comm_monoid_add) xs = a + sum_list (map g xs)"
  by (induction xs arbitrary: a) (auto simp: add.assoc)

lemma averageFloat64_singleton [simp]: "averageFloat64 [x] = x"
  by (simp add: averageFloat64_def)

lemma averageFloat64_bounds:
  assumes "xs \<noteq> []" and "\<forall>x\<in>set xs. lo \<le> x \<and> x \<le> hi"
  shows "lo \<le> averageFloat64 xs \<and> averageFloat64 xs \<le> hi"
proof -
  have "of_nat (length xs) * lo \<le> sum_list xs \<and> sum_list xs \<le> of_nat (length xs) * hi"
    using assms(2) by (induction xs) (auto simp: algebra_simps)
  then show ?thesis
    using assms(1) by (simp add: averageFloat64_def pos_le_divide_eq pos_divide_le_eq mult.commute)
qed

lemma trimRateControlWindow_window:
  "r_window (trimRateControlWindow cfg now r)
    = dropWhile (\<lambda>s. pk_Timestamp s < now - cfg_THROUGHPUT_WINDOW_DUR cfg) (r_window r)"
  using findIdx_dropWhile [of "r_window r" "\<lambda>s. \<not> pk_Timestamp s < now - cfg_THROUGHPUT_WINDOW_DUR cfg"]
  by (auto simp: trimRateControlWindow_def Let_def)

lemma trimRateControlWindow_eq:
  "trimRateControlWindow cfg now r
    = r\<lparr>r_window := dropWhile (\<lambda>s. pk_Timestamp s < now - cfg_THROUGHPUT_WINDOW_DUR cfg) (r_window r)\<rparr>"
  using trimRateControlWindow_window [of cfg now r] by (auto simp: trimRateControlWindow_def Let_def)

subsection \<open>RTT and RTO\<close>

lemma applyRTOOuterMultiplier_clamp: "applyRTOOuterMultiplier x m = clampFloat (of_int m * x) MIN_RTO MAX_RTO"
  by (auto simp: applyRTOOuterMultiplier_def clampFloat_def rto_defs Let_def)

lemma rto_clamp_bounds: "MIN_RTO \<le> clampFloat x MIN_RTO MAX_RTO \<and> clampFloat x MIN_RTO MAX_RTO \<le> MAX_RTO"
  by (auto simp: clampFloat_def rto_defs)

definition rttVariance :: "float64 list \<Rightarrow> float64" where
  "rttVariance xs = averageFloat64 (map (\<lambda>x. (x - averageFloat64 xs) * (x - averageFloat64 xs)) xs)"

lemma updateRTT_history:
  assumes "sorted (map rs_Timestamp (r_rttHistory r))"
    and "\<forall>s\<in>set (r_rttHistory r). rs_Timestamp s \<le> t"
  shows "r_rttHistory (updateRTT t v r)
    = filter (\<lambda>s. t - rs_Timestamp s \<le> RTT_WINDOW_DURATION) (r_rttHistory r)
        @ [\<lparr>rs_Timestamp = t, rs_RTT = v\<rparr>]"
proof -
  let ?P = "\<lambda>s. time_sub t (rs_Timestamp s) \<le> RTT_WINDOW_DURATION"
  let ?h = "r_rttHistory r @ [\<lparr>rs_Timestamp = t, rs_RTT = v\<rparr>]"
  have "?P \<lparr>rs_Timestamp = t, rs_RTT = v\<rparr>" by (simp add: RTT_WINDOW_DURATION_def)
  then obtain i where i: "findIdx ?P ?h = Some i"
    using findIdx_Some_iff [of ?P ?h] by auto
  have P: "?P s \<longleftrightarrow> \<not> rs_Timestamp s < t - RTT_WINDOW_DURATION" for s :: RTTSample
    by (auto simp: time_sub_def RTT_WINDOW_DURATION_def)
  have "drop i ?h = dropWhile (\<lambda>s. rs_Timestamp s < t - RTT_WINDOW_DURATION) ?h"
    using findIdx_dropWhile [of ?h ?P] unfolding i by (simp only: P option.case not_not)
  also have "\<dots> = filter (\<lambda>s. t - RTT_WINDOW_DURATION \<le> rs_Timestamp s) ?h"
    by (rule dropWhile_sorted_filter) (use assms in \<open>auto simp: sorted_append\<close>)
  finally show ?thesis using i
    by (simp add: updateRTT_def Let_def split: prod.splits)
      (auto simp: RTT_WINDOW_DURATION_def intro!: filter_cong)
qed

lemma updateRTT_estimates:
  "r_srtt (updateRTT t v r) = averageFloat64 (map rs_RTT (r_rttHistory (updateRTT t v r))) \<and>
   r_rttVar (updateRTT t v r) = rttVariance (map rs_RTT (r_rttHistory (updateRTT t v r))) \<and>
   r_rto (updateRTT t v r) = clampFloat
     (if length (r_rttHistory (updateRTT t v r)) = 1 then max MIN_RTO (2 * v)
      else r_srtt (updateRTT t v r) + 4 * sqrt (r_rttVar (updateRTT t v r))) MIN_RTO MAX_RTO"
proof -
  let ?P = "\<lambda>s. time_sub t (rs_Timestamp s) \<le> RTT_WINDOW_DURATION"
  let ?new = "\<lparr>rs_Timestamp = t, rs_RTT = v\<rparr>"
  let ?h = "r_rttHistory r @ [?new]"
  have "?P ?new" by (simp add: RTT_WINDOW_DURATION_def)
  then obtain i where i: "findIdx ?P ?h = Some i" and "i < length ?h"
    using findIdx_Some_iff [of ?P ?h] findIdx_length [of ?P ?h] by auto
  then have ne: "drop i ?h = butlast (drop i ?h) @ [?new]"
    by (simp add: drop_append)
  define H where "H = drop i ?h"
  have H: "r_rttHistory (updateRTT t v r) = H" and "H \<noteq> []"
    using i ne by (auto simp: updateRTT_def Let_def H_def split: prod.splits)
  show ?thesis
  proof (cases "length H < 2")
    case True
    then have "length (butlast H) = 0" unfolding length_butlast by simp
    then have "H = [?new]" using ne unfolding H_def [symmetric] by (metis append_Nil length_0_conv)
    then show ?thesis unfolding H unfolding updateRTT_def Let_def i option.case H_def [symmetric]
      by (simp add: applyRTOOuterMultiplier_clamp rtoOuterMultiplier_def rttVariance_def)
  next
    case False
    then show ?thesis using \<open>H \<noteq> []\<close>
      unfolding H unfolding updateRTT_def Let_def i option.case H_def [symmetric]
      by (simp add: applyRTOOuterMultiplier_clamp rtoOuterMultiplier_def
          rttVariance_def averageFloat64_def foldl_add_sum_list comp_def)
  qed
qed

text \<open>
  (C17) An RTT sample taken at time t keeps exactly the samples of the last \<open>RTT_WINDOW_DURATION\<close>
  and the new one, \<open>srtt\<close> and \<open>rttVar\<close> are their mean and variance, and the RTO is mean plus four
  standard deviations (twice the sample when it is the only one), always within \<open>MIN_RTO\<close> and
  \<open>MAX_RTO\<close>.
\<close>

theorem updateRTT_windowed_estimate:
  assumes "sorted (map rs_Timestamp (r_rttHistory r))"
    and "\<forall>s\<in>set (r_rttHistory r). rs_Timestamp s \<le> t"
  shows "let r' = updateRTT t v r in
    r_rttHistory r' = filter (\<lambda>s. t - rs_Timestamp s \<le> RTT_WINDOW_DURATION) (r_rttHistory r)
      @ [\<lparr>rs_Timestamp = t, rs_RTT = v\<rparr>] \<and>
    r_srtt r' = averageFloat64 (map rs_RTT (r_rttHistory r')) \<and>
    r_rttVar r' = rttVariance (map rs_RTT (r_rttHistory r')) \<and>
    r_rto r' = clampFloat (if length (r_rttHistory r') = 1 then max MIN_RTO (2 * v)
      else r_srtt r' + 4 * sqrt (r_rttVar r')) MIN_RTO MAX_RTO \<and>
    MIN_RTO \<le> r_rto r' \<and> r_rto r' \<le> MAX_RTO"
  using updateRTT_history [OF assms, of v] updateRTT_estimates [of t v r] rto_clamp_bounds
  unfolding Let_def by metis

theorem updateRTT_windowed_estimate_witness:
  "let r' = updateRTT 1500000000 100 (zeroRateState\<lparr>r_rttHistory :=
       [\<lparr>rs_Timestamp = 500000000, rs_RTT = 900\<rparr>, \<lparr>rs_Timestamp = 1300000000, rs_RTT = 300\<rparr>]\<rparr>)
   in r_rttHistory r'
        = [\<lparr>rs_Timestamp = 1300000000, rs_RTT = 300\<rparr>, \<lparr>rs_Timestamp = 1500000000, rs_RTT = 100\<rparr>]
      \<and> r_srtt r' = 200 \<and> r_rttVar r' = 10000 \<and> r_rto r' = 600"
proof -
  have "sqrt 10000 = 100" by (rule real_sqrt_unique) simp_all
  then show ?thesis
    using updateRTT_windowed_estimate [of "zeroRateState\<lparr>r_rttHistory :=
        [\<lparr>rs_Timestamp = 500000000, rs_RTT = 900\<rparr>, \<lparr>rs_Timestamp = 1300000000, rs_RTT = 300\<rparr>]\<rparr>"
        1500000000 100]
    by (simp add: Let_def RTT_WINDOW_DURATION_def averageFloat64_def rttVariance_def clampFloat_def rto_defs)
qed

subsection \<open>Bandwidth estimate\<close>

lemmas alpha_defs = consumerBwAlphaUp_def consumerBwAlphaDown_def consumerBwAlphaSmall_def

lemma convex_step:
  assumes "0 \<le> a" "a \<le> (1 :: real)" "lo \<le> p" "p \<le> hi" "lo \<le> c" "c \<le> hi"
  shows "lo \<le> p + a * (c - p) \<and> p + a * (c - p) \<le> hi"
proof -
  have "a * (lo - p) \<le> a * (c - p)" "a * (c - p) \<le> a * (hi - p)"
    using assms by (auto intro: mult_left_mono)
  moreover have "lo - p \<le> a * (lo - p)" "a * (hi - p) \<le> hi - p"
    using assms mult_left_le_one_le [of "p - lo" a] mult_left_le_one_le [of "hi - p" a]
    by (simp_all add: algebra_simps)
  ultimately show ?thesis by simp
qed

lemma recordBwObservation_obs:
  "r_bwObservations (recordBwObservation now m r) \<noteq> []"
  "last (r_bwObservations (recordBwObservation now m r)) = m"
  "set (r_bwObservations (recordBwObservation now m r)) \<subseteq> insert m (set (r_bwObservations r))"
  "length (r_bwObservations (recordBwObservation now m r))
     = min consumerBwObsLimit (length (r_bwObservations r) + 1)"
  by (auto simp: recordBwObservation_def Let_def consumerBwObsLimit_def last_append dest: in_set_dropD)

lemma recordBwObservation_frame [simp]:
  "r_estimatedBandwidth (recordBwObservation now m r) = r_estimatedBandwidth r"
  "r_bwBootstrapReady (recordBwObservation now m r) = r_bwBootstrapReady r"
  "r_bwCapEligible (recordBwObservation now m r) = r_bwCapEligible r"
  "r_bwCapActive (recordBwObservation now m r) = r_bwCapActive r"
  "r_currentRate (recordBwObservation now m r) = r_currentRate r"
  "r_rto (recordBwObservation now m r) = r_rto r"
  "r_congestionWindow (recordBwObservation now m r) = r_congestionWindow r"
  "r_pktsCalibrated (recordBwObservation now m r) = r_pktsCalibrated r"
  "r_adjustmentPeriod (recordBwObservation now m r) = r_adjustmentPeriod r"
  "r_interestsSentInPeriod (recordBwObservation now m r) = r_interestsSentInPeriod r"
  by (auto simp: recordBwObservation_def Let_def)

text \<open>The four ways an estimator call can end: nothing, retain, bootstrap, convex step.\<close>

lemma updateBandwidthEstimate_cases:
  fixes cfg now p mr fr r
  defines "r' \<equiv> fst (updateBandwidthEstimate cfg now p mr fr r)"
    and "m \<equiv> measuredPPSFromWindow cfg r"
    and "obs \<equiv> r_bwObservations (recordBwObservation now (measuredPPSFromWindow cfg r) r)"
  obtains
    (retain) "r_estimatedBandwidth r' = r_estimatedBandwidth r" "r_bwObservations r' = r_bwObservations r"
      "r_bwBootstrapReady r' = r_bwBootstrapReady r" "r_bwCapEligible r' = r_bwCapEligible r"
      "r_interestsSentInPeriod r' = r_interestsSentInPeriod r"
  | (collect) "0 < m" "\<not> r_bwBootstrapReady r" "r_estimatedBandwidth r' = r_estimatedBandwidth r"
      "r_bwObservations r' = obs" "\<not> r_bwBootstrapReady r'" "r_bwCapEligible r' = r_bwCapEligible r"
      "r_interestsSentInPeriod r' = r_interestsSentInPeriod r"
  | (bootstrap) "0 < m" "\<not> r_bwBootstrapReady r" "r_bwObservations r' = obs" "consumerBwObsLimit \<le> length obs"
      "r_estimatedBandwidth r' = averageFloat64 obs" "r_bwBootstrapReady r'"
      "r_bwCapEligible r' = r_bwCapEligible r" "r_interestsSentInPeriod r' = 0"
  | (adjust) c a where "0 < m" "r_bwBootstrapReady r" "r_bwObservations r' = obs" "r_bwBootstrapReady r'"
      "fst (bwCandidate (m > r_estimatedBandwidth r) p (consumerBwTrend obs) (r_estimatedBandwidth r) m
         (averageFloat64 obs) mr fr) = c"
      "fst (snd (bwCandidate (m > r_estimatedBandwidth r) p (consumerBwTrend obs) (r_estimatedBandwidth r) m
         (averageFloat64 obs) mr fr)) = a"
      "r_estimatedBandwidth r' = r_estimatedBandwidth r + a * (c - r_estimatedBandwidth r)"
      "r_interestsSentInPeriod r' = r_interestsSentInPeriod r"
proof -
  show thesis
  proof (cases "r_adjustmentPeriod r \<le> 0 \<or> length (r_window r) < consumerBwSampleMin \<or> m \<le> 0
        \<or> (\<not> isZero (r_lastBwObservationTime r) \<and>
           time_sub now (r_lastBwObservationTime r) < consumerBwObservationSpacing (r_adjustmentPeriod r))")
    case True
    then show thesis
      by (intro retain) (auto simp: updateBandwidthEstimate_def r'_def m_def Let_def bwSampleCountFromWindow_def)
  next
    case False
    have rec: "r_bwObservations (recordBwObservation now m (r\<lparr>r_lastMeasuredBandwidth := m\<rparr>)) = obs"
      by (simp add: recordBwObservation_def obs_def m_def Let_def)
    note step = updateBandwidthEstimate_def r'_def m_def [symmetric] bwSampleCountFromWindow_def rec
    show thesis
    proof (cases "r_bwBootstrapReady r")
      case True
      obtain c a s where cand: "bwCandidate (m > r_estimatedBandwidth r) p (consumerBwTrend obs)
          (r_estimatedBandwidth r) m (averageFloat64 obs) mr fr = (c, a, s)"
        by (metis prod_cases3)
      have "0 \<le> a" using cand by (auto simp: bwCandidate_def alpha_defs split: if_splits)
      have last: "last obs = m" by (simp add: obs_def m_def recordBwObservation_obs)
      show thesis
        by (rule adjust [of c a])
          (use False True cand \<open>0 \<le> a\<close> in \<open>auto simp: step Let_def last\<close>)
    next
      case boot: False
      show thesis
      proof (cases "length obs < consumerBwObsLimit")
        case True
        show thesis by (rule collect) (use False boot True in \<open>auto simp: step Let_def\<close>)
      next
        case full: False
        show thesis by (rule bootstrap) (use False boot full in \<open>auto simp: step Let_def\<close>)
      qed
    qed
  qed
qed

lemma bwCandidate_range:
  assumes "bwCandidate up p tr prev m avg mr fr = (c, a, s)"
  shows "0 \<le> a" "a \<le> 1" "c \<in> {avg, m, prev}"
  using assms by (auto simp: bwCandidate_def alpha_defs split: if_splits)

text \<open>
  (C18) One call of the bandwidth estimator on a bootstrapped flow moves the estimate to a point
  between the old estimate and the recent throughput observations.  The estimate only rises when
  the measured throughput exceeds it, and stays put when it does not and there is no queue or
  delay pressure.
\<close>

theorem bandwidth_estimate_step:
  fixes lo hi :: real
  assumes "r_bwBootstrapReady r"
    and "r' = fst (updateBandwidthEstimate cfg now pressure mr fr r)"
    and "\<forall>x\<in>insert (r_estimatedBandwidth r) (set (r_bwObservations r')). lo \<le> x \<and> x \<le> hi"
  shows "(lo \<le> r_estimatedBandwidth r' \<and> r_estimatedBandwidth r' \<le> hi)
    \<and> (r_estimatedBandwidth r < r_estimatedBandwidth r' \<longrightarrow> r_estimatedBandwidth r < measuredPPSFromWindow cfg r)
    \<and> (\<not> r_estimatedBandwidth r < measuredPPSFromWindow cfg r \<and> \<not> pressure
         \<longrightarrow> r_estimatedBandwidth r' = r_estimatedBandwidth r)"
proof (cases rule: updateBandwidthEstimate_cases [of cfg now pressure mr fr r])
  case (adjust c a)
  let ?obs = "r_bwObservations (recordBwObservation now (measuredPPSFromWindow cfg r) r)"
  let ?b = "bwCandidate (r_estimatedBandwidth r < measuredPPSFromWindow cfg r) pressure (consumerBwTrend ?obs)
      (r_estimatedBandwidth r) (measuredPPSFromWindow cfg r) (averageFloat64 ?obs) mr fr"
  obtain s where b: "?b = (c, a, s)" using adjust(5,6) by (cases ?b) simp
  have obs: "r_bwObservations r' = ?obs" using adjust(3) assms(2) by simp
  have m: "measuredPPSFromWindow cfg r \<in> set ?obs"
    using last_in_set [OF recordBwObservation_obs(1) [of now "measuredPPSFromWindow cfg r" r]]
    by (simp only: recordBwObservation_obs(2))
  have c: "lo \<le> c \<and> c \<le> hi"
    using bwCandidate_range(3) [OF b] assms(3) m averageFloat64_bounds [of ?obs lo hi]
      recordBwObservation_obs(1) unfolding obs by (elim insertE) simp_all
  have new: "r_estimatedBandwidth r' = r_estimatedBandwidth r + a * (c - r_estimatedBandwidth r)"
    using adjust(7) assms(2) by simp
  have "lo \<le> r_estimatedBandwidth r' \<and> r_estimatedBandwidth r' \<le> hi"
    unfolding new using bwCandidate_range(1,2) [OF b] assms(3) c by (intro convex_step) auto
  moreover have "r_estimatedBandwidth r < r_estimatedBandwidth r'
      \<longrightarrow> r_estimatedBandwidth r < measuredPPSFromWindow cfg r"
    using b unfolding new
    by (auto simp: bwCandidate_def zero_less_mult_iff not_less alpha_defs split: if_splits)
  moreover have "\<not> r_estimatedBandwidth r < measuredPPSFromWindow cfg r \<and> \<not> pressure
      \<longrightarrow> r_estimatedBandwidth r' = r_estimatedBandwidth r"
    using b unfolding new by (auto simp: bwCandidate_def)
  ultimately show ?thesis by blast
next
  case retain
  then have "r_estimatedBandwidth r' = r_estimatedBandwidth r" using assms(2) by simp
  then show ?thesis using assms(3) by simp
qed (use assms(1) in simp_all)

definition demoSample :: "gotime \<Rightarrow> PacketSample" where
  "demoSample t = \<lparr>pk_Timestamp = t, pk_Size = 6016, pk_RTT = 20, pk_RTTValid = True,
     pk_InterestQsf = 0, pk_DataQsf = 0\<rparr>"

definition demoConfig :: config where
  "demoConfig = \<lparr>cfg_MAX_PACKETS = 3, cfg_DT_INIT_RATE = 600, cfg_THROUGHPUT_WINDOW_DUR = 20000000,
     cfg_RC_MIN_RATE = 2, cfg_consumerRateControlMode = ConsumerRateControlQsf,
     cfg_consumerNodeName = ''c0'', cfg_consumerIndex = 0, cfg_initialMode = ModeDT,
     cfg_disableAltUri = False, cfg_csvOpen = False\<rparr>"

definition demoRate :: rateState where
  "demoRate = (initRateState demoConfig 5 zeroRateState)\<lparr>
     r_adjustmentPeriod := 20000000, r_bwBootstrapReady := True, r_pktsCalibrated := 5,
     r_bwObservations := [1, 2, 3], r_estimatedBandwidth := 90,
     r_window := [demoSample 100, demoSample 200]\<rparr>"

lemmas demo_defs = demoSample_def demoConfig_def demoRate_def initRateState_def zeroRateState_def
  seconds_def measuredPPSFromWindow_def bwSampleCountFromWindow_def consumerBwSampleMin_def
  consumerBwObsLimit_def

theorem bandwidth_estimate_step_witness:
  "r_estimatedBandwidth (fst (updateBandwidthEstimate demoConfig 300 False [] [] demoRate)) \<le> 100"
proof -
  let ?r = "fst (updateBandwidthEstimate demoConfig 300 False [] [] demoRate)"
  have "r_bwBootstrapReady demoRate" by (simp add: demo_defs)
  moreover have "\<forall>x\<in>insert (r_estimatedBandwidth demoRate) (set (r_bwObservations ?r)). 2 \<le> x \<and> x \<le> 100"
    by (simp add: updateBandwidthEstimate_def recordBwObservation_def demo_defs isZero_def
        bwCandidate_def consumerBwTrend_def alpha_defs averageFloat64_def)
  ultimately show ?thesis using bandwidth_estimate_step [of demoRate ?r demoConfig 300 False "[]" "[]" 2 100] by blast
qed

text \<open>
  The step is not monotone in the direction of its trigger: with rising observations the candidate
  is their average, so a measurement above the estimate can lower it.
\<close>

lemma bw_high_throughput_can_lower_estimate:
  "r_estimatedBandwidth demoRate < measuredPPSFromWindow demoConfig demoRate \<and>
   snd (updateQsfBandwidthEstimate demoConfig 300 0 demoRate) = ''throughput-high-monotonic'' \<and>
   r_estimatedBandwidth (fst (updateQsfBandwidthEstimate demoConfig 300 0 demoRate)) < r_estimatedBandwidth demoRate"
  by (simp add: updateQsfBandwidthEstimate_def updateBandwidthEstimate_def recordBwObservation_def demo_defs
      isZero_def bwCandidate_def consumerBwTrend_def alpha_defs averageFloat64_def
      consumerQsfRateControlParams_def)

subsection \<open>Queue slope\<close>

lemma sum_list_residual:
  fixes w t q :: "'a \<Rightarrow> real"
  shows "sum_list (map (\<lambda>x. w x * (q x - a - b * t x)) xs)
      = sum_list (map (\<lambda>x. w x * q x) xs) - a * sum_list (map w xs) - b * sum_list (map (\<lambda>x. w x * t x) xs)"
    and "sum_list (map (\<lambda>x. w x * t x * (q x - a - b * t x)) xs)
      = sum_list (map (\<lambda>x. w x * t x * q x) xs) - a * sum_list (map (\<lambda>x. w x * t x) xs)
        - b * sum_list (map (\<lambda>x. w x * t x * t x) xs)"
  by (induction xs) (auto simp: algebra_simps)

lemma sum_list_square_split:
  fixes w t e :: "'a \<Rightarrow> real"
  shows "sum_list (map (\<lambda>x. w x * (e x + (c + d * t x))\<^sup>2) xs)
      = sum_list (map (\<lambda>x. w x * (e x)\<^sup>2) xs) + sum_list (map (\<lambda>x. w x * (c + d * t x)\<^sup>2) xs)
        + 2 * (c * sum_list (map (\<lambda>x. w x * e x) xs) + d * sum_list (map (\<lambda>x. w x * t x * e x) xs))"
  by (induction xs) (auto simp: algebra_simps power2_eq_square)

text \<open>Weighted least squares: the two normal equations make the fitted line a minimiser.\<close>

lemma normal_equations_minimise:
  fixes w t q :: "'a \<Rightarrow> real"
  assumes "\<forall>x. 0 \<le> w x"
    and "sum_list (map (\<lambda>x. w x * (q x - a - b * t x)) xs) = 0"
    and "sum_list (map (\<lambda>x. w x * t x * (q x - a - b * t x)) xs) = 0"
  shows "sum_list (map (\<lambda>x. w x * (q x - a - b * t x)\<^sup>2) xs)
       \<le> sum_list (map (\<lambda>x. w x * (q x - a' - b' * t x)\<^sup>2) xs)"
proof -
  have eq: "q x - a' - b' * t x = (q x - a - b * t x) + ((a - a') + (b - b') * t x)" for x
    by (simp add: algebra_simps)
  have "0 \<le> sum_list (map (\<lambda>x. w x * ((a - a') + (b - b') * t x)\<^sup>2) xs)"
    using assms(1) by (intro sum_list_nonneg) auto
  then show ?thesis unfolding eq sum_list_square_split using assms(2,3) by simp
qed

lemma sum_list_pos: "xs \<noteq> [] \<Longrightarrow> (\<And>x. 0 < (w x :: real)) \<Longrightarrow> 0 < sum_list (map w xs)"
proof (induction xs)
  case (Cons x xs)
  then show ?case by (cases "xs = []") (simp_all add: add_pos_pos)
qed simp

lemma normal_solution:
  fixes W T Q TT TQ :: real
  assumes "W \<noteq> 0" "D \<noteq> 0" and D: "D = W * TT - T * T"
    and b: "b = (W * TQ - T * Q) / D" and a: "a = (Q - b * T) / W"
  shows "TQ - a * T - b * TT = 0"
proof -
  have bD: "b * D = W * TQ - T * Q" and aW: "a * W = Q - b * T" using assms(1,2) a b by simp_all
  have "W * (TQ - a * T - b * TT) = W * TQ - (a * W) * T - b * (W * TT)" by (simp add: algebra_simps)
  also have "\<dots> = W * TQ - T * Q - b * D" unfolding aW D by (simp add: algebra_simps)
  also have "\<dots> = 0" unfolding bD by simp
  finally show ?thesis using assms(1) by simp
qed

definition qsfWeight :: "config \<Rightarrow> gotime \<Rightarrow> PacketSample \<Rightarrow> float64" where
  "qsfWeight cfg now s = exp (seconds (time_sub (pk_Timestamp s) now)
     / (seconds (cfg_THROUGHPUT_WINDOW_DUR cfg) * qp_SlopeTauRatio consumerQsfRateControlParams))"

definition qsfResidual ::
  "config \<Rightarrow> gotime \<Rightarrow> (PacketSample \<Rightarrow> float64) \<Rightarrow> PacketSample list \<Rightarrow> float64 \<Rightarrow> float64 \<Rightarrow> float64" where
  "qsfResidual cfg now q samples a b = sum_list (map (\<lambda>s. qsfWeight cfg now s
      * (q s - a - b * seconds (time_sub (pk_Timestamp s) now))\<^sup>2) samples)"

definition qsfSpread :: "config \<Rightarrow> gotime \<Rightarrow> PacketSample list \<Rightarrow> float64" where
  "qsfSpread cfg now samples =
    (let t = (\<lambda>s. seconds (time_sub (pk_Timestamp s) now)); w = qsfWeight cfg now
     in sum_list (map w samples) * sum_list (map (\<lambda>s. w s * t s * t s) samples)
        - sum_list (map (\<lambda>s. w s * t s) samples) * sum_list (map (\<lambda>s. w s * t s) samples))"

text \<open>
  (C15) The queue slope the rate controller uses is the slope of the exponentially weighted least
  squares line through the samples, whenever the samples are spread in time: some intercept
  makes it minimise the weighted squared error over all lines.
\<close>

theorem qsf_slope_least_squares:
  assumes "samples \<noteq> []" and "0 < cfg_THROUGHPUT_WINDOW_DUR cfg"
    and "1 / 1000000000 \<le> \<bar>qsfSpread cfg now samples\<bar>"
  shows "\<exists>a. \<forall>a' b'. qsfResidual cfg now q samples a (snd (consumerComputeQsfSignal cfg now samples q))
               \<le> qsfResidual cfg now q samples a' b'"
proof -
  let ?t = "\<lambda>s. seconds (time_sub (pk_Timestamp s) now)" and ?w = "qsfWeight cfg now"
  let ?S = "\<lambda>f. sum_list (map f samples)"
  let ?b = "(?S ?w * ?S (\<lambda>s. ?w s * ?t s * q s) - ?S (\<lambda>s. ?w s * ?t s) * ?S (\<lambda>s. ?w s * q s))
              / qsfSpread cfg now samples"
  let ?a = "(?S (\<lambda>s. ?w s * q s) - ?b * ?S (\<lambda>s. ?w s * ?t s)) / ?S ?w"
  have tau: "\<not> seconds (cfg_THROUGHPUT_WINDOW_DUR cfg) * qp_SlopeTauRatio consumerQsfRateControlParams \<le> 0"
    using assms(2) by (simp add: consumerQsfRateControlParams_def not_le)
  have "snd (consumerComputeQsfSignal cfg now samples q) = ?b"
    using assms(1,3) tau by (simp add: consumerComputeQsfSignal_def Let_def qsfSpread_def qsfWeight_def [abs_def])
  moreover
  have W: "0 < ?S ?w" using assms(1) by (intro sum_list_pos) (simp_all add: qsfWeight_def)
  then have W': "?S ?w \<noteq> 0" by simp
  have D: "qsfSpread cfg now samples \<noteq> 0" using assms(3) by auto
  have "qsfResidual cfg now q samples ?a ?b \<le> qsfResidual cfg now q samples a' b'" for a' b'
    unfolding qsfResidual_def
  proof (rule normal_equations_minimise)
    show "\<forall>s. 0 \<le> ?w s" by (simp add: qsfWeight_def)
    show "?S (\<lambda>s. ?w s * (q s - ?a - ?b * ?t s)) = 0"
      unfolding sum_list_residual(1) using W by simp
    show "?S (\<lambda>s. ?w s * ?t s * (q s - ?a - ?b * ?t s)) = 0"
      unfolding sum_list_residual(2)
      by (rule normal_solution [OF W' D _ refl refl]) (simp add: qsfSpread_def Let_def)
  qed
  ultimately show ?thesis by auto
qed

theorem qsf_slope_least_squares_witness:
  "\<exists>a. \<forall>a' b'. qsfResidual demoConfig 20000000 pk_DataQsf [demoSample 0, demoSample 20000000] a
      (snd (consumerComputeQsfSignal demoConfig 20000000 [demoSample 0, demoSample 20000000] pk_DataQsf))
    \<le> qsfResidual demoConfig 20000000 pk_DataQsf [demoSample 0, demoSample 20000000] a' b'"
proof (rule qsf_slope_least_squares)
  have "exp (3 :: real) \<le> 27"
    using power_mono [OF exp_le, of 3] by (simp add: exp_of_nat_mult [of 3 1, symmetric])
  then have "1 / 27 \<le> exp (- 3 :: real)" by (simp add: exp_minus field_simps)
  then show "1 / 1000000000 \<le> \<bar>qsfSpread demoConfig 20000000 [demoSample 0, demoSample 20000000]\<bar>"
    by (simp add: qsfSpread_def qsfWeight_def demo_defs time_sub_def consumerQsfRateControlParams_def algebra_simps)
qed (simp_all add: demo_defs)

subsection \<open>Target rates\<close>

definition qsfFactor :: "float64 \<Rightarrow> float64 \<Rightarrow> float64" where
  "qsfFactor q slope =
    (if 8 / 10 \<le> q then (if 1 / 10 < slope then 9 / 10 else if slope < - 1 / 10 then 1 else 95 / 100)
     else if 1 / 2 \<le> q then 1 else if 1 / 10 < slope then 102 / 100 else 105 / 100)"

definition qsfCap :: "bool \<Rightarrow> float64 \<Rightarrow> float64 \<Rightarrow> float64 \<Rightarrow> float64" where
  "qsfCap active bw q x =
    (if active \<and> 0 < bw
     then let y = min x (12 / 10 * bw) in if q < 1 / 2 then max y (1 / 2 * bw) else y
     else x)"

lemma qsfQueueStep_factor: "fst (qsfQueueStep q slope c) = c * qsfFactor q slope"
  by (simp add: qsfQueueStep_def qsfFactor_def consumerQsfRateControlParams_def Let_def)

lemma qsfBandwidthCap_cap: "fst (qsfBandwidthCap active bw q ta) = qsfCap active bw q (fst ta)"
  by (simp add: qsfBandwidthCap_def qsfCap_def consumerQsfRateControlParams_def Let_def)

lemma qsfTargetRate_max:
  "fst (qsfTargetRate cfg q slope r) = max (max (5 / 1000) (cfg_RC_MIN_RATE cfg))
     (qsfCap (r_bwCapActive r) (r_estimatedBandwidth r) q
       ((if r_currentRate r \<le> 0 then max (5 / 1000) (cfg_RC_MIN_RATE cfg) else r_currentRate r) * qsfFactor q slope))"
proof -
  have params: "qp_MinRate consumerQsfRateControlParams = 5 / 1000" "qp_MaxRate consumerQsfRateControlParams = 0"
    by (simp_all add: consumerQsfRateControlParams_def)
  show ?thesis
    unfolding qsfTargetRate_def Let_def params
    by (simp only: qsfBandwidthCap_cap qsfQueueStep_factor max_def [of "max _ _" "qsfCap _ _ _ _"] less_irrefl
        simp_thms if_False if_distrib [of fst] fst_conv not_le [symmetric]) argo
qed

lemma qsfFactor_bounds:
  "qsfFactor q slope \<le> 105 / 100" "8 / 10 \<le> q \<Longrightarrow> 1 / 10 < slope \<Longrightarrow> qsfFactor q slope = 9 / 10"
  by (auto simp: qsfFactor_def)

text \<open>
  (C14) The Qsf controller's next rate is never below the configured minimum; with an active
  bandwidth cap it stays at or below 1.2 times the estimate (or the minimum, if larger) and, with
  a short queue, at or above half the estimate; a long growing queue cuts a positive rate to
  nine tenths or less, or to the minimum if that is larger, and no step multiplies the rate by more than 1.05 except to reach the
  minimum or the lower bandwidth bound.
\<close>

theorem qsf_target_rate_bounds:
  fixes cfg r q slope
  defines "minRate \<equiv> max (5 / 1000) (cfg_RC_MIN_RATE cfg)"
    and "rate \<equiv> fst (qsfTargetRate cfg q slope r)"
  shows "minRate \<le> rate
    \<and> (r_bwCapActive r \<and> 0 < r_estimatedBandwidth r \<longrightarrow> rate \<le> max minRate (12 / 10 * r_estimatedBandwidth r))
    \<and> (r_bwCapActive r \<and> 0 < r_estimatedBandwidth r \<and> q < 1 / 2 \<longrightarrow> 1 / 2 * r_estimatedBandwidth r \<le> rate)
    \<and> (8 / 10 \<le> q \<and> 1 / 10 < slope \<and> 0 < r_currentRate r \<longrightarrow> rate \<le> max minRate (9 / 10 * r_currentRate r))
    \<and> (0 < r_currentRate r \<longrightarrow>
        rate \<le> max (max minRate (1 / 2 * r_estimatedBandwidth r)) (105 / 100 * r_currentRate r))"
proof (intro conjI impI)
  note rate = rate_def [unfolded qsfTargetRate_max, folded minRate_def]
  show "minRate \<le> rate" unfolding rate by simp
  show "rate \<le> max minRate (12 / 10 * r_estimatedBandwidth r)"
    if "r_bwCapActive r \<and> 0 < r_estimatedBandwidth r"
    using that unfolding rate by (auto simp: qsfCap_def Let_def)
  show "1 / 2 * r_estimatedBandwidth r \<le> rate"
    if "r_bwCapActive r \<and> 0 < r_estimatedBandwidth r \<and> q < 1 / 2"
    using that unfolding rate by (auto simp: qsfCap_def Let_def)
  show "rate \<le> max minRate (9 / 10 * r_currentRate r)"
    if "8 / 10 \<le> q \<and> 1 / 10 < slope \<and> 0 < r_currentRate r"
    using that unfolding rate by (auto simp: qsfFactor_bounds qsfCap_def Let_def)
  show "rate \<le> max (max minRate (1 / 2 * r_estimatedBandwidth r)) (105 / 100 * r_currentRate r)"
    if "0 < r_currentRate r"
  proof -
    define x where "x = r_currentRate r * qsfFactor q slope"
    have "x \<le> 105 / 100 * r_currentRate r"
      using that qsfFactor_bounds(1) [of q slope] by (simp add: x_def)
    moreover have "rate = max minRate (qsfCap (r_bwCapActive r) (r_estimatedBandwidth r) q x)"
      using that by (simp add: rate x_def)
    ultimately show ?thesis by (auto simp: qsfCap_def Let_def)
  qed
qed

theorem qsf_target_rate_bounds_witness:
  "fst (qsfTargetRate demoConfig 1 1 (demoRate\<lparr>r_currentRate := 500\<rparr>)) \<le> 450"
  using qsf_target_rate_bounds [of demoConfig 1 1 "demoRate\<lparr>r_currentRate := 500\<rparr>"]
  by (simp add: demoConfig_def)

text \<open>
  (C19) The delay controller's next rate is never below \<open>RC_MIN_RATE\<close>; with an active cap it lies
  between 0.8 times the estimate and the larger of 1.75 times the estimate and the initial rate
  (up to the minimum); between the two RTT thresholds an uncapped rate above the minimum is kept.
\<close>

theorem delay_target_rate_bounds:
  fixes cfg r rtt
  defines "rate \<equiv> delayTargetRate cfg rtt r"
  shows "cfg_RC_MIN_RATE cfg \<le> rate
    \<and> (r_bwCapActive r \<longrightarrow>
        rate \<le> max (cfg_RC_MIN_RATE cfg) (max (cfg_DT_INIT_RATE cfg) (175 / 100 * r_estimatedBandwidth r))
        \<and> min (8 / 10 * r_estimatedBandwidth r) (max (cfg_DT_INIT_RATE cfg) (175 / 100 * r_estimatedBandwidth r)) \<le> rate)
    \<and> (\<not> r_bwCapActive r \<and> 3 * r_baseRTT r \<le> rtt \<and> rtt < 6 * r_baseRTT r \<and> cfg_RC_MIN_RATE cfg \<le> r_currentRate r
        \<longrightarrow> rate = r_currentRate r)"
proof (intro conjI impI)
  note defs = rate_def delayTargetRate_def Let_def RC_CAP_LOWER_MULT_def RC_CAP_UPPER_MULT_def
  show "cfg_RC_MIN_RATE cfg \<le> rate" unfolding rate_def delayTargetRate_def Let_def by simp
  show "rate \<le> max (cfg_RC_MIN_RATE cfg) (max (cfg_DT_INIT_RATE cfg) (175 / 100 * r_estimatedBandwidth r))"
    if "r_bwCapActive r"
    using that unfolding defs by simp
  show "min (8 / 10 * r_estimatedBandwidth r) (max (cfg_DT_INIT_RATE cfg) (175 / 100 * r_estimatedBandwidth r)) \<le> rate"
    if "r_bwCapActive r"
    using that unfolding defs by simp (auto simp: min_def)
  show "rate = r_currentRate r"
    if "\<not> r_bwCapActive r \<and> 3 * r_baseRTT r \<le> rtt \<and> rtt < 6 * r_baseRTT r \<and> cfg_RC_MIN_RATE cfg \<le> r_currentRate r"
    using that unfolding defs by (simp add: delayRttStep_def RC_RTT_LOW_THRESH_MULT_def RC_RTT_HIGH_THRESH_MULT_def)
qed

theorem delay_target_rate_bounds_witness:
  "delayTargetRate demoConfig 40 (demoRate\<lparr>r_currentRate := 500, r_baseRTT := 10\<rparr>) = 500"
  using delay_target_rate_bounds [of demoConfig 40 "demoRate\<lparr>r_currentRate := 500, r_baseRTT := 10\<rparr>"]
  by (simp add: demoConfig_def demoRate_def initRateState_def)

end
