(* ===== verification/Rate_Invariant.thy ===== *)
theory Rate_Invariant
  imports Rate_Control
begin

text \<open>
  The invariant of a flow's rate state (RTO, congestion window, rate, bandwidth estimate and the
  bootstrap and cap flags) and that every operation of \<open>Rate_Control\<close> keeps it.
\<close>

subsection \<open>Congestion window\<close>

lemma initialDTInflightWindow_bounds:
  "of_int DT_INFLIGHT_MIN_PACKETS \<le> initialDTInflightWindow cfg rate rtt"
  "initialDTInflightWindow cfg rate rtt \<le> of_int DT_INFLIGHT_MAX_PACKETS"
  unfolding initialDTInflightWindow_def Let_def
  by (auto simp: clampFloat_def DT_INFLIGHT_MIN_PACKETS_def DT_INFLIGHT_MAX_PACKETS_def)

definition cwnd_ok :: "rateState \<Rightarrow> bool" where
  "cwnd_ok r \<longleftrightarrow> of_int DT_INFLIGHT_MIN_PACKETS \<le> r_congestionWindow r
     \<and> r_congestionWindow r \<le> of_int DT_INFLIGHT_MAX_PACKETS"

lemma grow_cwnd_ok: "cwnd_ok r \<Longrightarrow> cwnd_ok (growCongestionWindowOnAckLocked cfg r)"
  by (auto simp: growCongestionWindowOnAckLocked_def cwnd_ok_def Let_def DT_INFLIGHT_MIN_PACKETS_def
      DT_INFLIGHT_MAX_PACKETS_def intro: add_increasing2)

lemma grow_frame:
  "growCongestionWindowOnAckLocked cfg r
     = r\<lparr>r_congestionWindow := r_congestionWindow (growCongestionWindowOnAckLocked cfg r)\<rparr>"
  by (simp add: growCongestionWindowOnAckLocked_def Let_def)

lemma dtInflightLimitLocked_bounds:
  "DT_INFLIGHT_MIN_PACKETS \<le> dtInflightLimitLocked cfg r" "dtInflightLimitLocked cfg r \<le> DT_INFLIGHT_MAX_PACKETS"
  by (simp_all add: dtInflightLimitLocked_def Let_def DT_INFLIGHT_MIN_PACKETS_def DT_INFLIGHT_MAX_PACKETS_def)

subsection \<open>Invariant\<close>

text \<open>What every operation keeps of a flow's rate state once data transmission started.\<close>

definition rate_inv :: "config \<Rightarrow> rateState \<Rightarrow> bool" where
  "rate_inv cfg r \<longleftrightarrow>
     MIN_RTO \<le> r_rto r \<and> r_rto r \<le> MAX_RTO \<and> cwnd_ok r
     \<and> min (cfg_DT_INIT_RATE cfg) (cfg_RC_MIN_RATE cfg) \<le> r_currentRate r
     \<and> 0 < r_estimatedBandwidth r \<and> length (r_bwObservations r) \<le> consumerBwObsLimit
     \<and> list_all (\<lambda>x. 0 < x) (r_bwObservations r)
     \<and> (r_bwBootstrapReady r \<longrightarrow> length (r_bwObservations r) = consumerBwObsLimit)
     \<and> (r_bwCapEligible r \<longrightarrow> r_bwBootstrapReady r)
     \<and> (r_bwCapActive r \<longrightarrow> r_bwCapEligible r)
     \<and> 0 \<le> r_pktsCalibrated r \<and> r_pktsCalibrated r \<le> 5
     \<and> (r_pktsCalibrated r = 5 \<longrightarrow> 0 < r_adjustmentPeriod r)
     \<and> (r_bwBootstrapReady r \<longrightarrow> r_pktsCalibrated r = 5)
     \<and> 0 \<le> r_interestsSentInPeriod r"

lemma rate_inv_init: "cfg_ok cfg \<Longrightarrow> rate_inv cfg (initRateState cfg now r)"
  using initialDTInflightWindow_bounds
  by (simp add: rate_inv_def initRateState_def cwnd_ok_def rto_defs cfg_ok_def)

lemma rate_inv_rto:
  "rate_inv cfg r \<Longrightarrow> MIN_RTO \<le> x \<and> x \<le> MAX_RTO
    \<Longrightarrow> rate_inv cfg (r\<lparr>r_rttHistory := h, r_srtt := m, r_rttVar := v, r_rto := x\<rparr>)"
  by (simp add: rate_inv_def cwnd_ok_def)

lemma updateRTT_frame:
  obtains h m v' where "updateRTT t v r
    = r\<lparr>r_rttHistory := h, r_srtt := m, r_rttVar := v', r_rto := r_rto (updateRTT t v r)\<rparr>"
proof -
  define h where "h = r_rttHistory (updateRTT t v r)"
  define m where "m = r_srtt (updateRTT t v r)"
  define v' where "v' = r_rttVar (updateRTT t v r)"
  have "updateRTT t v r = r\<lparr>r_rttHistory := h, r_srtt := m, r_rttVar := v', r_rto := r_rto (updateRTT t v r)\<rparr>"
    unfolding h_def m_def v'_def updateRTT_def Let_def case_prod_beta by simp
  then show thesis by (rule that)
qed

lemma rate_inv_updateRTT: "rate_inv cfg r \<Longrightarrow> rate_inv cfg (updateRTT t v r)"
proof -
  assume inv: "rate_inv cfg r"
  have "MIN_RTO \<le> r_rto (updateRTT t v r) \<and> r_rto (updateRTT t v r) \<le> MAX_RTO"
    using updateRTT_estimates [of t v r] rto_clamp_bounds by metis
  then have "rate_inv cfg (r\<lparr>r_rttHistory := h, r_srtt := m, r_rttVar := v', r_rto := r_rto (updateRTT t v r)\<rparr>)"
    for h m v' using inv by (intro rate_inv_rto)
  moreover obtain h m v' where eq: "updateRTT t v r
      = r\<lparr>r_rttHistory := h, r_srtt := m, r_rttVar := v', r_rto := r_rto (updateRTT t v r)\<rparr>"
    by (rule updateRTT_frame)
  ultimately show ?thesis by (subst eq)
qed

lemma rate_inv_grow: "rate_inv cfg r \<Longrightarrow> rate_inv cfg (growCongestionWindowOnAckLocked cfg r)"
  by (subst grow_frame, drule rate_inv_def [THEN iffD1])
    (use grow_cwnd_ok [of r cfg] in \<open>simp add: rate_inv_def cwnd_ok_def\<close>)

lemma averageFloat64_pos: "xs \<noteq> [] \<Longrightarrow> list_all (\<lambda>x. 0 < x) xs \<Longrightarrow> 0 < averageFloat64 xs"
  by (induction xs) (auto simp: averageFloat64_def intro!: divide_pos_pos add_pos_nonneg sum_list_nonneg
      simp: list_all_iff less_imp_le)

lemma updateBandwidthEstimate_frame:
  fixes cfg now p mr fr r
  defines "r' \<equiv> fst (updateBandwidthEstimate cfg now p mr fr r)"
  shows "r_currentRate r' = r_currentRate r" "r_rto r' = r_rto r" "r_congestionWindow r' = r_congestionWindow r"
    "r_pktsCalibrated r' = r_pktsCalibrated r" "r_adjustmentPeriod r' = r_adjustmentPeriod r"
    "r_bwCapActive r' = r_bwCapActive r"
  by (auto simp: r'_def updateBandwidthEstimate_def Let_def split: prod.splits)

lemma updateBandwidthEstimate_eligible:
  "r_bwBootstrapReady r \<Longrightarrow> r_bwCapEligible r \<Longrightarrow> r_bwCapEligible (fst (updateBandwidthEstimate cfg now p mr fr r))"
  by (auto simp: updateBandwidthEstimate_def Let_def split: prod.splits)

lemma rate_inv_updateBandwidthEstimate:
  assumes "rate_inv cfg r" and "r_pktsCalibrated r = 5"
  shows "rate_inv cfg (fst (updateBandwidthEstimate cfg now p mr fr r))"
proof -
  let ?r' = "fst (updateBandwidthEstimate cfg now p mr fr r)"
  let ?m = "measuredPPSFromWindow cfg r"
  let ?obs = "r_bwObservations (recordBwObservation now ?m r)"
  have pos: "list_all (\<lambda>x. 0 < x) ?obs" if "0 < ?m"
    using that recordBwObservation_obs(3) [of now ?m r] assms(1) by (auto simp: rate_inv_def list_all_iff)
  have len: "length ?obs \<le> consumerBwObsLimit" by (simp add: recordBwObservation_obs(4))
  have avg: "0 < averageFloat64 ?obs" if "0 < ?m"
    using averageFloat64_pos pos that recordBwObservation_obs(1) by blast
  note inv = assms(1) [unfolded rate_inv_def]
  show ?thesis
  proof (cases rule: updateBandwidthEstimate_cases [of cfg now p mr fr r])
    case retain
    then show ?thesis using inv by (simp add: rate_inv_def cwnd_ok_def updateBandwidthEstimate_frame)
  next
    case collect
    then show ?thesis using inv pos len
      by (auto simp: rate_inv_def cwnd_ok_def updateBandwidthEstimate_frame)
  next
    case bootstrap
    then show ?thesis using inv pos len avg assms(2)
      by (auto simp: rate_inv_def cwnd_ok_def updateBandwidthEstimate_frame)
  next
    case (adjust c a)
    have "0 < r_estimatedBandwidth ?r'"
    proof -
      obtain s where b: "bwCandidate (r_estimatedBandwidth r < ?m) p (consumerBwTrend ?obs) (r_estimatedBandwidth r) ?m
          (averageFloat64 ?obs) mr fr = (c, a, s)"
        using adjust(5,6) by (metis prod.collapse)
      define lo where "lo = min (r_estimatedBandwidth r) c"
      have "0 < lo"
        using bwCandidate_range(3) [OF b] avg adjust(1) inv by (auto simp: lo_def)
      moreover have "lo \<le> r_estimatedBandwidth ?r'"
        using convex_step [of a lo "r_estimatedBandwidth r" "max (r_estimatedBandwidth r) c" c]
          bwCandidate_range(1,2) [OF b] adjust(7) by (simp add: lo_def)
      ultimately show ?thesis by simp
    qed
    moreover have "length ?obs = consumerBwObsLimit"
      using inv adjust(2) by (simp add: recordBwObservation_obs(4))
    ultimately show ?thesis using inv adjust pos assms(2) updateBandwidthEstimate_eligible [of r cfg now p mr fr]
      by (auto simp: rate_inv_def cwnd_ok_def updateBandwidthEstimate_frame)
  qed
qed

lemma rate_inv_trim [simp]: "rate_inv cfg (trimRateControlWindow cfg' now r) \<longleftrightarrow> rate_inv cfg r"
  by (simp add: trimRateControlWindow_eq rate_inv_def cwnd_ok_def)

lemma rate_inv_calibrate:
  assumes "rate_inv cfg r" and "r_pktsCalibrated r < 5"
  shows "rate_inv cfg (calibrateRTT cfg t v r)"
proof -
  have "0 < consumerControlPeriodFromBootstrap b" for b
    by (simp add: consumerControlPeriodFromBootstrap_def DT_USE_STATIC_CONTROL_PERIOD_def DT_STATIC_CONTROL_PERIOD_def)
  then show ?thesis
    using assms initialDTInflightWindow_bounds [of cfg "r_currentRate r"]
    by (auto simp: calibrateRTT_def rate_inv_def cwnd_ok_def Let_def)
qed

lemma rate_inv_updateRateControl:
  assumes "rate_inv cfg r"
  shows "rate_inv cfg (updateRateControl cfg t sz v valid iq dq r)"
proof -
  define r1 where "r1 = (observeInterestQsfBias iq r)\<lparr>r_lastRateSampleTime := t,
      r_window := r_window (observeInterestQsfBias iq r) @ [\<lparr>pk_Timestamp = t, pk_Size = sz,
        pk_RTT = v, pk_RTTValid = valid, pk_InterestQsf = iq, pk_DataQsf = dq\<rparr>]\<rparr>"
  define r2 where "r2 = trimRateControlWindow cfg t r1"
  define r3 where "r3 = (if length (r_window r2) \<ge> consumerQsfSampleLimit then r2\<lparr>r_qsfWindowWarmed := True\<rparr> else r2)"
  have "rate_inv cfg r1"
    using assms by (simp add: r1_def observeInterestQsfBias_def DT_USE_QSF_BIAS_REMOVAL_def rate_inv_def cwnd_ok_def)
  then have "rate_inv cfg r2" by (simp add: r2_def)
  then have r3: "rate_inv cfg r3" by (simp add: r3_def rate_inv_def cwnd_ok_def)
  have "updateRateControl cfg t sz v valid iq dq r
    = (if r_pktsCalibrated r3 < 5
       then (if \<not> valid then r3 else calibrateRTT cfg t v r3)
       else (case cfg_consumerRateControlMode cfg of
               ConsumerRateControlQsf \<Rightarrow>
                 fst (updateQsfBandwidthEstimate cfg t (max (correctedInterestQsf r3 iq) dq) r3)
             | _ \<Rightarrow> fst (updateDelayBandwidthEstimate cfg t r3)))"
    unfolding updateRateControl_def Let_def r3_def r2_def r1_def by (rule refl)
  moreover have "\<not> r_pktsCalibrated r3 < 5 \<Longrightarrow> r_pktsCalibrated r3 = 5"
    using r3 by (simp add: rate_inv_def)
  ultimately show ?thesis
    using r3 by (simp add: rate_inv_calibrate rate_inv_updateBandwidthEstimate updateQsfBandwidthEstimate_def
        updateDelayBandwidthEstimate_def Let_def split: ConsumerRateControlMode.split)
qed

lemma rate_inv_csv [simp]: "rate_inv cfg (writeRateControlCsv cfg' a b c d e r) \<longleftrightarrow> rate_inv cfg r"
  by (simp add: writeRateControlCsv_def Let_def rate_inv_def cwnd_ok_def)

lemma computeQsfSignalsLocked_frame:
  obtains a b c d ok where "fst (computeQsfSignalsLocked cfg now r)
    = r\<lparr>r_lastInterestQsfAvg := a, r_lastInterestQsfSlope := b, r_lastDataQsfAvg := c,
        r_lastDataQsfSlope := d, r_lastQsfObservationOk := ok\<rparr>"
proof (cases "r_window r = []")
  case True
  then have "fst (computeQsfSignalsLocked cfg now r) = r" by (simp add: computeQsfSignalsLocked_def)
  then show thesis
    by (intro that [of "r_lastQsfObservationOk r" "r_lastDataQsfSlope r" "r_lastDataQsfAvg r"
          "r_lastInterestQsfSlope r" "r_lastInterestQsfAvg r"]) simp
next
  case False
  then show thesis
    by (intro that) (simp add: computeQsfSignalsLocked_def Let_def case_prod_beta)
qed

lemma computeQsfSignalsLocked_rate [simp]:
  "rate_inv cfg (fst (computeQsfSignalsLocked cfg' now r)) \<longleftrightarrow> rate_inv cfg r"
  "r_currentRate (fst (computeQsfSignalsLocked cfg' now r)) = r_currentRate r"
  "r_bwCapActive (fst (computeQsfSignalsLocked cfg' now r)) = r_bwCapActive r"
  "r_estimatedBandwidth (fst (computeQsfSignalsLocked cfg' now r)) = r_estimatedBandwidth r"
proof -
  obtain a b c d ok where eq: "fst (computeQsfSignalsLocked cfg' now r)
    = r\<lparr>r_lastInterestQsfAvg := a, r_lastInterestQsfSlope := b, r_lastDataQsfAvg := c,
        r_lastDataQsfSlope := d, r_lastQsfObservationOk := ok\<rparr>"
    by (rule computeQsfSignalsLocked_frame)
  show "rate_inv cfg (fst (computeQsfSignalsLocked cfg' now r)) \<longleftrightarrow> rate_inv cfg r"
    unfolding eq by (simp add: rate_inv_def cwnd_ok_def)
qed (rule computeQsfSignalsLocked_frame [of cfg' now r], simp)+

lemma fst_computeDominantQsfSignal [simp]:
  "fst (computeDominantQsfSignal cfg now r) = fst (computeQsfSignalsLocked cfg now r)"
  by (simp add: computeDominantQsfSignal_def split: prod.split)

lemma rate_inv_new_rate:
  "rate_inv cfg r \<Longrightarrow> cfg_RC_MIN_RATE cfg \<le> x \<Longrightarrow> rate_inv cfg (r\<lparr>r_currentRate := x, r_lastRateUpdate := now\<rparr>)"
  by (simp add: rate_inv_def cwnd_ok_def)

lemma rate_inv_updateQsfRateControl:
  assumes "rate_inv cfg r"
  shows "rate_inv cfg (updateQsfRateControl cfg now a r)"
proof -
  obtain r1 q slope rest where c: "computeDominantQsfSignal cfg now r = (r1, q, slope, rest)"
    by (cases "computeDominantQsfSignal cfg now r")
  have "rate_inv cfg r1"
    using assms computeQsfSignalsLocked_rate(1) [of cfg cfg now r] fst_computeDominantQsfSignal [of cfg now r]
    by (simp add: c)
  moreover have "cfg_RC_MIN_RATE cfg \<le> fst (qsfTargetRate cfg q slope r1)"
    unfolding qsfTargetRate_max by simp
  ultimately show ?thesis
    by (simp add: updateQsfRateControl_def c Let_def case_prod_beta rate_inv_new_rate)
qed

lemma rate_inv_updateDelayRateControl:
  assumes "rate_inv cfg r"
  shows "rate_inv cfg (updateDelayRateControl cfg now a r)"
proof -
  have "cfg_RC_MIN_RATE cfg \<le> delayTargetRate cfg x r'" for x r'
    unfolding delayTargetRate_def Let_def by simp
  then show ?thesis
    using assms unfolding updateDelayRateControl_def Let_def case_prod_beta
    by (simp add: rate_inv_new_rate del: if_split)
qed

lemma rate_inv_freeze: "rate_inv cfg r \<Longrightarrow> rate_inv cfg (freezeRateControl cfg now a r)"
proof -
  assume "rate_inv cfg r"
  moreover have "rate_inv cfg (x\<lparr>r_interestsSentInPeriod := 0\<rparr>)" if "rate_inv cfg x" for x
    using that by (simp add: rate_inv_def cwnd_ok_def)
  moreover have "rate_inv cfg (x\<lparr>r_lastBWUpdateRule := u, r_lastRateUpdate := now\<rparr>)" if "rate_inv cfg x" for x u
    using that by (simp add: rate_inv_def cwnd_ok_def)
  ultimately show ?thesis
    by (simp add: freezeRateControl_def Let_def split: ConsumerRateControlMode.split)
qed

lemma rate_inv_runPeriodic:
  assumes "rate_inv cfg r"
  shows "rate_inv cfg (runPeriodicRateControl cfg mode fin now r)"
proof -
  have zero: "rate_inv cfg (x\<lparr>r_interestsSentInPeriod := 0\<rparr>)" if "rate_inv cfg x" for x
    using that by (simp add: rate_inv_def cwnd_ok_def)
  have cap: "rate_inv cfg (x\<lparr>r_bwCapActive := True\<rparr>)" if "r_bwCapEligible x" "rate_inv cfg x" for x
    using that by (simp add: rate_inv_def cwnd_ok_def)
  have trim: "rate_inv cfg (trimRateControlWindow cfg now r)" using assms by simp
  show ?thesis
    unfolding runPeriodicRateControl_def Let_def
    by (auto intro!: zero rate_inv_freeze rate_inv_updateQsfRateControl rate_inv_updateDelayRateControl cap trim assms
        split: ConsumerRateControlMode.split)
qed

lemma rate_inv_noFresh: "rate_inv cfg r \<Longrightarrow> rate_inv cfg (checkRateControlNoFreshSamples cfg mode fin now r)"
proof -
  assume "rate_inv cfg r"
  then have "rate_inv cfg (trimRateControlWindow cfg now r)" by simp
  then show ?thesis using \<open>rate_inv cfg r\<close>
    unfolding checkRateControlNoFreshSamples_def Let_def by (simp add: rate_inv_def cwnd_ok_def)
qed

subsection \<open>Periodic adjustment\<close>

lemma csv_frame [simp]:
  "r_currentRate (writeRateControlCsv cfg a b c d e r) = r_currentRate r"
  "r_lastRateUpdate (writeRateControlCsv cfg a b c d e r) = r_lastRateUpdate r"
  "r_adjustmentPeriod (writeRateControlCsv cfg a b c d e r) = r_adjustmentPeriod r"
  by (simp_all add: writeRateControlCsv_def Let_def)

lemma computeQsfSignalsLocked_period [simp]:
  "r_adjustmentPeriod (fst (computeQsfSignalsLocked cfg now r)) = r_adjustmentPeriod r"
  by (rule computeQsfSignalsLocked_frame [of cfg now r]) simp

lemma updateQsfRateControl_rate:
  "cfg_RC_MIN_RATE cfg \<le> r_currentRate (updateQsfRateControl cfg now a r)"
  "r_lastRateUpdate (updateQsfRateControl cfg now a r) = now"
  "r_adjustmentPeriod (updateQsfRateControl cfg now a r) = r_adjustmentPeriod r"
proof -
  obtain r1 q slope rest where c: "computeDominantQsfSignal cfg now r = (r1, q, slope, rest)"
    by (cases "computeDominantQsfSignal cfg now r")
  have "r_adjustmentPeriod r1 = r_adjustmentPeriod r"
    using computeQsfSignalsLocked_period [of cfg now r] fst_computeDominantQsfSignal [of cfg now r] by (simp add: c)
  moreover have "cfg_RC_MIN_RATE cfg \<le> fst (qsfTargetRate cfg q slope r1)"
    unfolding qsfTargetRate_max by simp
  ultimately show
    "cfg_RC_MIN_RATE cfg \<le> r_currentRate (updateQsfRateControl cfg now a r)"
    "r_lastRateUpdate (updateQsfRateControl cfg now a r) = now"
    "r_adjustmentPeriod (updateQsfRateControl cfg now a r) = r_adjustmentPeriod r"
    by (simp_all add: updateQsfRateControl_def c Let_def case_prod_beta)
qed

lemma updateDelayRateControl_rate:
  "cfg_RC_MIN_RATE cfg \<le> r_currentRate (updateDelayRateControl cfg now a r)"
  "r_lastRateUpdate (updateDelayRateControl cfg now a r) = now"
  "r_adjustmentPeriod (updateDelayRateControl cfg now a r) = r_adjustmentPeriod r"
proof -
  have "cfg_RC_MIN_RATE cfg \<le> delayTargetRate cfg x r'" for x r'
    unfolding delayTargetRate_def Let_def by simp
  then show
    "cfg_RC_MIN_RATE cfg \<le> r_currentRate (updateDelayRateControl cfg now a r)"
    "r_lastRateUpdate (updateDelayRateControl cfg now a r) = now"
    "r_adjustmentPeriod (updateDelayRateControl cfg now a r) = r_adjustmentPeriod r"
    unfolding updateDelayRateControl_def Let_def case_prod_beta by (simp_all split del: if_split)
qed

lemma freezeRateControl_rate:
  "r_currentRate (freezeRateControl cfg now a r) = r_currentRate r"
  by (simp add: freezeRateControl_def Let_def split: ConsumerRateControlMode.split)

lemma runPeriodic_change:
  assumes "r_currentRate (runPeriodicRateControl cfg mode fin now r) \<noteq> r_currentRate r"
  shows "mode = ModeDT \<and> \<not> fin \<and> r_bwBootstrapReady r
    \<and> r_adjustmentPeriod r \<le> time_sub now (r_lastRateUpdate r)
    \<and> cfg_RC_MIN_RATE cfg \<le> r_currentRate (runPeriodicRateControl cfg mode fin now r)
    \<and> r_lastRateUpdate (runPeriodicRateControl cfg mode fin now r) = now
    \<and> r_adjustmentPeriod (runPeriodicRateControl cfg mode fin now r) = r_adjustmentPeriod r
    \<and> r_interestsSentInPeriod (runPeriodicRateControl cfg mode fin now r) = 0"
  using assms unfolding runPeriodicRateControl_def Let_def
  by (auto simp: trimRateControlWindow_eq freezeRateControl_rate updateQsfRateControl_rate updateDelayRateControl_rate
      not_less split: ConsumerRateControlMode.splits if_splits)

text \<open>
  (C20) The periodic loop changes a flow's rate only in data transmission, after the bandwidth
  bootstrap and when a full control period has passed since the last adjustment; the new rate is
  at least \<open>RC_MIN_RATE\<close>, and a further call less than a control period later leaves it alone.
\<close>

theorem periodic_rate_once_per_period:
  assumes "r' = runPeriodicRateControl cfg mode fin now r"
    and "r_currentRate r' \<noteq> r_currentRate r"
    and "time_sub now2 now < r_adjustmentPeriod r"
  shows "mode = ModeDT \<and> \<not> fin \<and> r_bwBootstrapReady r
    \<and> r_adjustmentPeriod r \<le> time_sub now (r_lastRateUpdate r)
    \<and> cfg_RC_MIN_RATE cfg \<le> r_currentRate r'
    \<and> r_currentRate (runPeriodicRateControl cfg mode2 fin2 now2 r') = r_currentRate r'"
proof -
  have first: "mode = ModeDT \<and> \<not> fin \<and> r_bwBootstrapReady r
      \<and> r_adjustmentPeriod r \<le> time_sub now (r_lastRateUpdate r) \<and> cfg_RC_MIN_RATE cfg \<le> r_currentRate r'"
    and "r_lastRateUpdate r' = now" "r_adjustmentPeriod r' = r_adjustmentPeriod r"
    using runPeriodic_change [of cfg mode fin now r] assms(2) unfolding assms(1) by blast+
  then have "\<not> r_adjustmentPeriod r' \<le> time_sub now2 (r_lastRateUpdate r')" using assms(3) by simp
  then show ?thesis using first runPeriodic_change [of cfg mode2 fin2 now2 r'] by blast
qed

theorem periodic_rate_once_per_period_witness:
  "r_currentRate (runPeriodicRateControl demoConfig ModeDT False 20000005 (demoRate\<lparr>r_window := []\<rparr>)) = 630 \<and>
   r_currentRate (runPeriodicRateControl demoConfig ModeDT False 30000000
     (runPeriodicRateControl demoConfig ModeDT False 20000005 (demoRate\<lparr>r_window := []\<rparr>))) = 630"
proof -
  let ?r' = "runPeriodicRateControl demoConfig ModeDT False 20000005 (demoRate\<lparr>r_window := []\<rparr>)"
  have rate: "r_currentRate (updateQsfRateControl demoConfig t a x) = fst (qsfTargetRate demoConfig 0 0 x)"
    if "r_window x = []" "\<not> r_lastQsfObservationOk x" for t a x
    using that
    by (simp add: updateQsfRateControl_def computeDominantQsfSignal_def computeQsfSignalsLocked_def case_prod_beta Let_def)
  have r': "r_currentRate ?r' = 630"
    by (simp add: runPeriodicRateControl_def demoRate_def demoConfig_def initRateState_def trimRateControlWindow_def
        time_sub_def consumerHasNoSampleObservation_def rate [unfolded demoConfig_def] qsfTargetRate_max
        qsfCap_def qsfFactor_def)
  then have "r_currentRate (runPeriodicRateControl demoConfig ModeDT False 30000000 ?r') = r_currentRate ?r'"
    using periodic_rate_once_per_period [OF refl, of demoConfig ModeDT False 20000005 "demoRate\<lparr>r_window := []\<rparr>"
        30000000 ModeDT False]
    by (simp add: demoRate_def initRateState_def demoConfig_def time_sub_def)
  then show ?thesis using r' by simp
qed

end
