(* ===== verification/Shadow_Loss.thy ===== *)
theory Shadow_Loss
  imports Mars_Prelude "HOL-Library.Product_Lexorder"
begin

text \<open>
  The shadow loss detector of the MARS consumer (\<open>apps/consumer/shadow_loss.go\<close>): nine
  threshold configurations watch every outstanding sequence number, count how often a sequence
  would have been declared lost and how the suspicion ended, and the configuration
  350 ms / 8 later ACKs produces the fast-repair candidates the retransmission controller acts on.

  First the data and operations in the order of the source, then the invariant of the detector,
  its preservation by every operation, and the characterisation of the candidates of a scan.

  The Go field \<open>pending\<close> is nil exactly when \<open>states\<close> is nil (both are assigned only in
  \<open>reset\<close>), so a nil map is the empty list and the nil test of \<open>ensureInitialized\<close> is
  subsumed by its length test.
\<close>

subsection \<open>Data\<close>

definition shadowLossScanInterval :: duration where
  "shadowLossScanInterval = 20 * millisecond"

definition shadowFastRepairAgeFloor :: duration where
  "shadowFastRepairAgeFloor = 350 * millisecond"

definition shadowFastRepairLaterACKThreshold :: int where
  "shadowFastRepairLaterACKThreshold = 8"

record shadowLossConfiguration =
  conf_AgeFloor :: duration
  conf_LaterACKThreshold :: int

definition shadowLossConfigurations :: "shadowLossConfiguration list" where
  "shadowLossConfigurations =
    [\<lparr>conf_AgeFloor = 250 * millisecond, conf_LaterACKThreshold = 8\<rparr>,
     \<lparr>conf_AgeFloor = 250 * millisecond, conf_LaterACKThreshold = 16\<rparr>,
     \<lparr>conf_AgeFloor = 250 * millisecond, conf_LaterACKThreshold = 32\<rparr>,
     \<lparr>conf_AgeFloor = 350 * millisecond, conf_LaterACKThreshold = 8\<rparr>,
     \<lparr>conf_AgeFloor = 350 * millisecond, conf_LaterACKThreshold = 16\<rparr>,
     \<lparr>conf_AgeFloor = 350 * millisecond, conf_LaterACKThreshold = 32\<rparr>,
     \<lparr>conf_AgeFloor = 500 * millisecond, conf_LaterACKThreshold = 8\<rparr>,
     \<lparr>conf_AgeFloor = 500 * millisecond, conf_LaterACKThreshold = 16\<rparr>,
     \<lparr>conf_AgeFloor = 500 * millisecond, conf_LaterACKThreshold = 32\<rparr>]"

datatype shadowCandidateStatus =
    shadowCandidateNone
  | shadowCandidateActive
  | shadowCandidateResolvedBeforeRTO
  | shadowCandidateReachedRTO

record shadowPendingSequence =
  ps_firstSentAt :: gotime
  ps_laterACKs :: int
  ps_inRecovery :: bool
  ps_generation :: u64
  ps_fastRepairTriggeredGeneration :: u64
  ps_fastRepairQueuedGeneration :: u64
  ps_fastRepairSent :: bool

record shadowFastRepairCandidate =
  cand_Sequence :: int
  cand_Generation :: u64
  cand_Age :: duration
  cand_LaterACKs :: int

datatype shadowFastRepairQueueOutcome =
    shadowFastRepairQueueStale
  | shadowFastRepairQueueQueued
  | shadowFastRepairQueueAlreadyQueued
  | shadowFastRepairQueueAlreadyTriggered

record shadowLossThresholdState =
  ts_configuration :: shadowLossConfiguration
  ts_status :: "(int, shadowCandidateStatus) gomap"
  ts_suspectedAt :: "(int, gotime) gomap"
  ts_shadowSuspects :: int
  ts_resolvedBeforeRTO :: int
  ts_reachedRTO :: int
  ts_leadToRTOTotal :: duration
  ts_suspectInflightTime :: duration

record shadowLossDetector =
  d_pending :: "(int, shadowPendingSequence) gomap"
  d_states :: "shadowLossThresholdState list"
  d_lastScan :: gotime
  d_firstAttemptRTOs :: int
  d_fastRepairTriggers :: int
  d_fastRepairQueued :: int
  d_fastRepairAlreadyQueued :: int
  d_fastRepairAlreadyTriggered :: int
  d_fastRepairStale :: int
  d_fastRepairSent :: int
  d_fastRepairResolved :: int
  d_fastRepairResolvedAfterSend :: int

record ShadowLossSummary =
  sum_AgeFloor :: duration
  sum_LaterACKThreshold :: int
  sum_ShadowSuspects :: int
  sum_ResolvedBeforeRTO :: int
  sum_ReachedRTO :: int
  sum_ActiveAtEnd :: int
  sum_LeadToRTOTotal :: duration
  sum_AvgLeadToRTO :: duration
  sum_SuspectInflightTotal :: duration
  sum_SuspectInflightAvg :: duration
  sum_FirstAttemptRTOs :: int

record ShadowFastRepairSummary =
  frs_AgeFloor :: duration
  frs_LaterACKThreshold :: int
  frs_Triggers :: int
  frs_Queued :: int
  frs_AlreadyQueued :: int
  frs_AlreadyTriggered :: int
  frs_Stale :: int
  frs_Sent :: int
  frs_Resolved :: int
  frs_ResolvedAfterSend :: int

subsection \<open>Operations\<close>

definition newThresholdState :: "shadowLossConfiguration \<Rightarrow> shadowLossThresholdState" where
  "newThresholdState c =
    \<lparr>ts_configuration = c, ts_status = [], ts_suspectedAt = [], ts_shadowSuspects = 0,
     ts_resolvedBeforeRTO = 0, ts_reachedRTO = 0, ts_leadToRTOTotal = 0,
     ts_suspectInflightTime = 0\<rparr>"

definition detectorReset :: shadowLossDetector where
  "detectorReset =
    \<lparr>d_pending = [], d_states = map newThresholdState shadowLossConfigurations, d_lastScan = 0,
     d_firstAttemptRTOs = 0, d_fastRepairTriggers = 0, d_fastRepairQueued = 0,
     d_fastRepairAlreadyQueued = 0, d_fastRepairAlreadyTriggered = 0, d_fastRepairStale = 0,
     d_fastRepairSent = 0, d_fastRepairResolved = 0, d_fastRepairResolvedAfterSend = 0\<rparr>"

definition ensureInitialized :: "shadowLossDetector \<Rightarrow> shadowLossDetector" where
  "ensureInitialized d =
    (if length (d_states d) \<noteq> length shadowLossConfigurations then detectorReset else d)"

definition newPending :: "gotime \<Rightarrow> shadowPendingSequence" where
  "newPending t =
    \<lparr>ps_firstSentAt = t, ps_laterACKs = 0, ps_inRecovery = False, ps_generation = 0,
     ps_fastRepairTriggeredGeneration = 0, ps_fastRepairQueuedGeneration = 0,
     ps_fastRepairSent = False\<rparr>"

definition recordFreshSendLocked :: "int \<Rightarrow> gotime \<Rightarrow> shadowLossDetector \<Rightarrow> shadowLossDetector" where
  "recordFreshSendLocked sequence sentAt d0 =
    (if sequence \<le> 0 then d0
     else let d = ensureInitialized d0 in
       case map_of (d_pending d) sequence of
         Some _ \<Rightarrow> d
       | None \<Rightarrow> d\<lparr>d_pending := gm_put sequence (newPending sentAt) (d_pending d)\<rparr>)"

definition updatePending ::
  "int \<Rightarrow> (shadowPendingSequence \<Rightarrow> shadowPendingSequence) \<Rightarrow> shadowLossDetector \<Rightarrow> shadowLossDetector" where
  "updatePending sequence f d =
    (case map_of (d_pending d) sequence of
       None \<Rightarrow> d
     | Some p \<Rightarrow> d\<lparr>d_pending := gm_put sequence (f p) (d_pending d)\<rparr>)"

definition recordRecoverySendLocked :: "int \<Rightarrow> shadowLossDetector \<Rightarrow> shadowLossDetector" where
  "recordRecoverySendLocked sequence d =
    updatePending sequence (\<lambda>p. p\<lparr>ps_inRecovery := True\<rparr>) (ensureInitialized d)"

definition recordAttemptLocked :: "int \<Rightarrow> u64 \<Rightarrow> shadowLossDetector \<Rightarrow> shadowLossDetector" where
  "recordAttemptLocked sequence generation d =
    (if sequence \<le> 0 \<or> generation = 0 then d
     else updatePending sequence (\<lambda>p. p\<lparr>ps_generation := generation\<rparr>) (ensureInitialized d))"

definition recordFastRepairSendLocked :: "int \<Rightarrow> shadowLossDetector \<Rightarrow> shadowLossDetector" where
  "recordFastRepairSendLocked sequence d0 =
    (let d = ensureInitialized d0 in
     updatePending sequence (\<lambda>p. p\<lparr>ps_fastRepairSent := True\<rparr>)
       (d\<lparr>d_fastRepairSent := d_fastRepairSent d + 1\<rparr>))"

definition nonNegativeDuration :: "gotime \<Rightarrow> gotime \<Rightarrow> duration" where
  "nonNegativeDuration end start =
    (let duration = time_sub end start in if duration < 0 then 0 else duration)"

definition statusOf :: "shadowLossThresholdState \<Rightarrow> int \<Rightarrow> shadowCandidateStatus" where
  "statusOf state = gm_get0 shadowCandidateNone (ts_status state)"

definition finishCandidateLocked ::
  "int \<Rightarrow> shadowCandidateStatus \<Rightarrow> gotime \<Rightarrow> shadowLossThresholdState \<Rightarrow> shadowLossThresholdState" where
  "finishCandidateLocked sequence status finishedAt state =
    (case map_of (ts_suspectedAt state) sequence of
       None \<Rightarrow> state
     | Some suspectedAt \<Rightarrow>
         if statusOf state sequence \<noteq> shadowCandidateActive then state
         else
           let duration = nonNegativeDuration finishedAt suspectedAt;
               state1 = state
                 \<lparr>ts_suspectInflightTime := ts_suspectInflightTime state + duration,
                  ts_suspectedAt := gm_del sequence (ts_suspectedAt state),
                  ts_status := gm_put sequence status (ts_status state)\<rparr>
           in (case status of
                 shadowCandidateResolvedBeforeRTO \<Rightarrow>
                   state1\<lparr>ts_resolvedBeforeRTO := ts_resolvedBeforeRTO state1 + 1\<rparr>
               | shadowCandidateReachedRTO \<Rightarrow>
                   state1\<lparr>ts_reachedRTO := ts_reachedRTO state1 + 1,
                          ts_leadToRTOTotal := ts_leadToRTOTotal state1 + duration\<rparr>
               | _ \<Rightarrow> state1))"

definition countLaterACK :: "int \<Rightarrow> int \<Rightarrow> shadowPendingSequence \<Rightarrow> shadowPendingSequence" where
  "countLaterACK sequence pendingSequence p =
    (if pendingSequence < sequence \<and> \<not> ps_inRecovery p
     then p\<lparr>ps_laterACKs := ps_laterACKs p + 1\<rparr> else p)"

definition recordDataLocked :: "int \<Rightarrow> gotime \<Rightarrow> shadowLossDetector \<Rightarrow> shadowLossDetector" where
  "recordDataLocked sequence receivedAt d0 =
    (let d = ensureInitialized d0;
         d1 = (case map_of (d_pending d) sequence of
                 None \<Rightarrow> d
               | Some p \<Rightarrow>
                   let da = (if ps_fastRepairQueuedGeneration p \<noteq> 0
                             then let db = d\<lparr>d_fastRepairResolved := d_fastRepairResolved d + 1\<rparr>
                                  in if ps_fastRepairSent p
                                     then db\<lparr>d_fastRepairResolvedAfterSend :=
                                                d_fastRepairResolvedAfterSend db + 1\<rparr>
                                     else db
                             else d)
                   in da\<lparr>d_states :=
                            map (finishCandidateLocked sequence shadowCandidateResolvedBeforeRTO receivedAt)
                              (d_states da),
                         d_pending := gm_del sequence (d_pending da)\<rparr>)
     in d1\<lparr>d_pending := gm_map (countLaterACK sequence) (d_pending d1)\<rparr>)"

definition recordRTOLocked :: "int \<Rightarrow> gotime \<Rightarrow> shadowLossDetector \<Rightarrow> shadowLossDetector" where
  "recordRTOLocked sequence expiredAt d0 =
    (let d = ensureInitialized d0;
         d1 = (case map_of (d_pending d) sequence of
                 None \<Rightarrow> d
               | Some p \<Rightarrow>
                   (if \<not> ps_inRecovery p then d\<lparr>d_firstAttemptRTOs := d_firstAttemptRTOs d + 1\<rparr> else d)
                   \<lparr>d_pending := gm_put sequence (p\<lparr>ps_inRecovery := True\<rparr>) (d_pending d)\<rparr>)
     in d1\<lparr>d_states :=
             map (finishCandidateLocked sequence shadowCandidateReachedRTO expiredAt) (d_states d1)\<rparr>)"

definition suspect ::
  "gotime \<Rightarrow> duration \<Rightarrow> int \<Rightarrow> shadowPendingSequence \<Rightarrow> shadowLossThresholdState \<Rightarrow> shadowLossThresholdState" where
  "suspect now age sequence p state =
    (if statusOf state sequence \<noteq> shadowCandidateNone
        \<or> age < conf_AgeFloor (ts_configuration state)
        \<or> ps_laterACKs p < conf_LaterACKThreshold (ts_configuration state)
     then state
     else state\<lparr>ts_status := gm_put sequence shadowCandidateActive (ts_status state),
                ts_suspectedAt := gm_put sequence now (ts_suspectedAt state),
                ts_shadowSuspects := ts_shadowSuspects state + 1\<rparr>)"

definition scanEntry ::
  "gotime \<Rightarrow> bool \<Rightarrow> shadowLossDetector \<times> shadowFastRepairCandidate list
   \<Rightarrow> int \<times> shadowPendingSequence \<Rightarrow> shadowLossDetector \<times> shadowFastRepairCandidate list" where
  "scanEntry now collectFastRepair acc entry =
    (let (d, candidates) = acc; (sequence, p) = entry in
     if ps_inRecovery p \<or> isZero (ps_firstSentAt p) then (d, candidates)
     else
       let age = nonNegativeDuration now (ps_firstSentAt p);
           d1 = d\<lparr>d_states := map (suspect now age sequence p) (d_states d)\<rparr>
       in if \<not> collectFastRepair \<or> ps_generation p = 0 then (d1, candidates)
          else if age < shadowFastRepairAgeFloor
                  \<or> ps_laterACKs p < shadowFastRepairLaterACKThreshold
                  \<or> ps_fastRepairTriggeredGeneration p = ps_generation p
          then (d1, candidates)
          else
            (d1\<lparr>d_pending := gm_put sequence
                   (p\<lparr>ps_fastRepairTriggeredGeneration := ps_generation p\<rparr>) (d_pending d1),
                d_fastRepairTriggers := d_fastRepairTriggers d1 + 1\<rparr>,
             candidates @ [\<lparr>cand_Sequence = sequence, cand_Generation = ps_generation p,
                            cand_Age = age, cand_LaterACKs = ps_laterACKs p\<rparr>]))"

text \<open>
  The comparator of \<open>sort.Slice\<close>: older candidates first, ties by sequence number.
\<close>

definition candKey :: "shadowFastRepairCandidate \<Rightarrow> int \<times> int" where
  "candKey c = (- cand_Age c, cand_Sequence c)"

definition scanPendingLocked ::
  "gotime \<Rightarrow> bool \<Rightarrow> shadowLossDetector \<Rightarrow> shadowLossDetector \<times> shadowFastRepairCandidate list" where
  "scanPendingLocked now collectFastRepair d0 =
    (let d = ensureInitialized d0;
         (d1, candidates) = foldl (scanEntry now collectFastRepair) (d, []) (d_pending d)
     in (d1, if 1 < length candidates then sort_key candKey candidates else candidates))"

definition scanLocked :: "gotime \<Rightarrow> shadowLossDetector \<Rightarrow> shadowLossDetector" where
  "scanLocked now d = fst (scanPendingLocked now False d)"

definition scanIfDueLocked ::
  "gotime \<Rightarrow> shadowLossDetector \<Rightarrow> shadowLossDetector \<times> shadowFastRepairCandidate list" where
  "scanIfDueLocked now d0 =
    (let d = ensureInitialized d0 in
     if \<not> isZero (d_lastScan d) \<and> time_sub now (d_lastScan d) < shadowLossScanInterval then (d, [])
     else scanPendingLocked now True (d\<lparr>d_lastScan := now\<rparr>))"

definition recordFastRepairQueueOutcomeLocked ::
  "shadowFastRepairCandidate \<Rightarrow> shadowFastRepairQueueOutcome \<Rightarrow> shadowLossDetector \<Rightarrow> shadowLossDetector" where
  "recordFastRepairQueueOutcomeLocked candidate outcome d0 =
    (let d = ensureInitialized d0 in
     case outcome of
       shadowFastRepairQueueQueued \<Rightarrow>
         (let d1 = d\<lparr>d_fastRepairQueued := d_fastRepairQueued d + 1\<rparr> in
          case map_of (d_pending d1) (cand_Sequence candidate) of
            None \<Rightarrow> d1
          | Some p \<Rightarrow>
              if ps_generation p = cand_Generation candidate
              then d1\<lparr>d_pending := gm_put (cand_Sequence candidate)
                        (p\<lparr>ps_fastRepairQueuedGeneration := cand_Generation candidate\<rparr>) (d_pending d1)\<rparr>
              else d1)
     | shadowFastRepairQueueAlreadyQueued \<Rightarrow>
         d\<lparr>d_fastRepairAlreadyQueued := d_fastRepairAlreadyQueued d + 1\<rparr>
     | shadowFastRepairQueueAlreadyTriggered \<Rightarrow>
         d\<lparr>d_fastRepairAlreadyTriggered := d_fastRepairAlreadyTriggered d + 1\<rparr>
     | shadowFastRepairQueueStale \<Rightarrow>
         d\<lparr>d_fastRepairStale := d_fastRepairStale d + 1\<rparr>)"

definition averageDuration :: "duration \<Rightarrow> int \<Rightarrow> duration" where
  "averageDuration totalDur n = (if n \<le> 0 then 0 else go_quot totalDur n)"

definition summaryOf :: "gotime \<Rightarrow> int \<Rightarrow> shadowLossThresholdState \<Rightarrow> ShadowLossSummary" where
  "summaryOf now firstRTOs state =
    (let inflightTotal = foldl (\<lambda>acc (k, suspectedAt). acc + nonNegativeDuration now suspectedAt)
                           (ts_suspectInflightTime state) (ts_suspectedAt state)
     in \<lparr>sum_AgeFloor = conf_AgeFloor (ts_configuration state),
         sum_LaterACKThreshold = conf_LaterACKThreshold (ts_configuration state),
         sum_ShadowSuspects = ts_shadowSuspects state,
         sum_ResolvedBeforeRTO = ts_resolvedBeforeRTO state,
         sum_ReachedRTO = ts_reachedRTO state,
         sum_ActiveAtEnd = int (length (ts_suspectedAt state)),
         sum_LeadToRTOTotal = ts_leadToRTOTotal state,
         sum_AvgLeadToRTO = averageDuration (ts_leadToRTOTotal state) (ts_reachedRTO state),
         sum_SuspectInflightTotal = inflightTotal,
         sum_SuspectInflightAvg = averageDuration inflightTotal (ts_shadowSuspects state),
         sum_FirstAttemptRTOs = firstRTOs\<rparr>)"

definition summariesLocked :: "gotime \<Rightarrow> shadowLossDetector \<Rightarrow> shadowLossDetector \<times> ShadowLossSummary list" where
  "summariesLocked now d0 =
    (let d = ensureInitialized d0
     in (d, map (summaryOf now (d_firstAttemptRTOs d)) (d_states d)))"

definition fastRepairSummaryLocked :: "shadowLossDetector \<Rightarrow> shadowLossDetector \<times> ShadowFastRepairSummary" where
  "fastRepairSummaryLocked d0 =
    (let d = ensureInitialized d0
     in (d, \<lparr>frs_AgeFloor = shadowFastRepairAgeFloor,
             frs_LaterACKThreshold = shadowFastRepairLaterACKThreshold,
             frs_Triggers = d_fastRepairTriggers d, frs_Queued = d_fastRepairQueued d,
             frs_AlreadyQueued = d_fastRepairAlreadyQueued d,
             frs_AlreadyTriggered = d_fastRepairAlreadyTriggered d,
             frs_Stale = d_fastRepairStale d, frs_Sent = d_fastRepairSent d,
             frs_Resolved = d_fastRepairResolved d,
             frs_ResolvedAfterSend = d_fastRepairResolvedAfterSend d\<rparr>))"

text \<open>The detector as a step function over the calls its flow makes.\<close>

datatype shadowEvent =
    FreshSend int gotime
  | RecoverySend int
  | Attempt int u64
  | FastRepairSend int
  | DataArrived int gotime
  | RTOExpired int gotime
  | ScanOnly gotime
  | ScanIfDue gotime
  | QueueOutcome shadowFastRepairCandidate shadowFastRepairQueueOutcome

fun shadowStep :: "shadowLossDetector \<Rightarrow> shadowEvent \<Rightarrow> shadowLossDetector" where
  "shadowStep d (FreshSend s t) = recordFreshSendLocked s t d"
| "shadowStep d (RecoverySend s) = recordRecoverySendLocked s d"
| "shadowStep d (Attempt s g) = recordAttemptLocked s g d"
| "shadowStep d (FastRepairSend s) = recordFastRepairSendLocked s d"
| "shadowStep d (DataArrived s t) = recordDataLocked s t d"
| "shadowStep d (RTOExpired s t) = recordRTOLocked s t d"
| "shadowStep d (ScanOnly t) = scanLocked t d"
| "shadowStep d (ScanIfDue t) = fst (scanIfDueLocked t d)"
| "shadowStep d (QueueOutcome c r) = recordFastRepairQueueOutcomeLocked c r d"


subsection \<open>Invariant of a threshold state\<close>

text \<open>
  A sequence carries a suspicion time exactly while it is active, every suspicion is either
  still active or was settled once, and the time in flight bounds the lead over the RTO.
\<close>

definition ts_inv :: "shadowLossThresholdState \<Rightarrow> bool" where
  "ts_inv st \<longleftrightarrow>
    gm_ok (ts_status st) \<and> gm_ok (ts_suspectedAt st)
    \<and> (\<forall>s. map_of (ts_suspectedAt st) s \<noteq> None \<longleftrightarrow> statusOf st s = shadowCandidateActive)
    \<and> (\<forall>s. map_of (ts_status st) s \<noteq> Some shadowCandidateNone)
    \<and> ts_shadowSuspects st = int (length (ts_status st))
    \<and> ts_shadowSuspects st =
        ts_resolvedBeforeRTO st + ts_reachedRTO st + int (length (ts_suspectedAt st))
    \<and> 0 \<le> ts_leadToRTOTotal st \<and> ts_leadToRTOTotal st \<le> ts_suspectInflightTime st"

lemma nonNegativeDuration_nonneg [simp]: "0 \<le> nonNegativeDuration e s"
  by (simp add: nonNegativeDuration_def Let_def)

lemma statusOf_put [simp]:
  "statusOf (st\<lparr>ts_status := gm_put s v (ts_status st)\<rparr>) s' = (if s' = s then v else statusOf st s')"
  by (simp add: statusOf_def)

lemma statusOf_None_iff:
  "ts_inv st \<Longrightarrow> statusOf st s = shadowCandidateNone \<longleftrightarrow> map_of (ts_status st) s = None"
  by (auto simp: ts_inv_def statusOf_def gm_get0_def split: option.splits)

lemma ts_inv_new [simp]: "ts_inv (newThresholdState c)"
  by (simp add: ts_inv_def newThresholdState_def statusOf_def)

lemma ts_configuration_finish [simp]:
  "ts_configuration (finishCandidateLocked s r t st) = ts_configuration st"
  by (auto simp: finishCandidateLocked_def Let_def split: option.splits shadowCandidateStatus.splits)

lemma statusOf_finish:
  "r \<noteq> shadowCandidateNone \<Longrightarrow>
   statusOf (finishCandidateLocked s r t st) s' = shadowCandidateNone
   \<longleftrightarrow> statusOf st s' = shadowCandidateNone"
  by (auto simp: finishCandidateLocked_def Let_def statusOf_def
      split: option.splits shadowCandidateStatus.splits)

lemma finish_active:
  assumes "ts_inv st" and "map_of (ts_suspectedAt st) s = Some u"
  shows "statusOf st s = shadowCandidateActive" and "0 < length (ts_suspectedAt st)"
    and "map_of (ts_status st) s = Some shadowCandidateActive"
proof -
  from assms show act: "statusOf st s = shadowCandidateActive"
    by (auto simp: ts_inv_def)
  from assms show "0 < length (ts_suspectedAt st)"
    by (auto simp: ts_inv_def)
  from act show "map_of (ts_status st) s = Some shadowCandidateActive"
    by (auto simp: statusOf_def gm_get0_def split: option.splits)
qed

lemma ts_inv_finish:
  assumes inv: "ts_inv st" and r: "r = shadowCandidateResolvedBeforeRTO \<or> r = shadowCandidateReachedRTO"
  shows "ts_inv (finishCandidateLocked s r t st)"
proof (cases "map_of (ts_suspectedAt st) s")
  case None
  then show ?thesis using inv by (simp add: finishCandidateLocked_def)
next
  case (Some u)
  note act = finish_active [OF inv Some]
  from inv have "gm_ok (ts_suspectedAt st)" and "gm_ok (ts_status st)"
    by (simp_all add: ts_inv_def)
  then have "int (length (gm_del s (ts_suspectedAt st))) = int (length (ts_suspectedAt st)) - 1"
    and "length (gm_put s r (ts_status st)) = length (ts_status st)"
    using Some act(3) by (simp_all add: gm.int_len_del gm.len_put)
  moreover have "0 \<le> nonNegativeDuration t u" by simp
  ultimately show ?thesis using inv Some act(1,3) r
    by (auto simp del: nonNegativeDuration_nonneg
        simp: finishCandidateLocked_def ts_inv_def Let_def statusOf_def split: if_splits)
qed

lemma ts_configuration_suspect [simp]:
  "ts_configuration (suspect now age s p st) = ts_configuration st"
  by (simp add: suspect_def)

lemma statusOf_suspect:
  "statusOf (suspect now age s p st) s' \<noteq> shadowCandidateNone \<longleftrightarrow>
   statusOf st s' \<noteq> shadowCandidateNone
   \<or> s' = s \<and> conf_AgeFloor (ts_configuration st) \<le> age
       \<and> conf_LaterACKThreshold (ts_configuration st) \<le> ps_laterACKs p"
  by (auto simp: suspect_def statusOf_def)

lemma ts_inv_suspect:
  assumes "ts_inv st" shows "ts_inv (suspect now age s p st)"
proof (cases "statusOf st s = shadowCandidateNone")
  case False
  then show ?thesis using assms by (simp add: suspect_def)
next
  case True
  with assms have "map_of (ts_status st) s = None"
    by (simp add: statusOf_None_iff)
  moreover from assms True have "map_of (ts_suspectedAt st) s = None"
    unfolding ts_inv_def by (metis shadowCandidateStatus.distinct(1))
  ultimately show ?thesis using assms True
    by (auto simp: suspect_def ts_inv_def gm.len_put statusOf_def)
qed

subsection \<open>Invariant of the detector\<close>

definition weaker :: "shadowLossConfiguration \<Rightarrow> shadowLossConfiguration \<Rightarrow> bool" where
  "weaker a b \<longleftrightarrow> conf_AgeFloor a \<le> conf_AgeFloor b
     \<and> conf_LaterACKThreshold a \<le> conf_LaterACKThreshold b"

definition nested :: "shadowLossThresholdState list \<Rightarrow> bool" where
  "nested sts \<longleftrightarrow> (\<forall>a \<in> set sts. \<forall>b \<in> set sts. weaker (ts_configuration a) (ts_configuration b) \<longrightarrow>
     (\<forall>s. statusOf b s \<noteq> shadowCandidateNone \<longrightarrow> statusOf a s \<noteq> shadowCandidateNone))"

definition repairsQueued :: "(int, shadowPendingSequence) gomap \<Rightarrow> int" where
  "repairsQueued m = int (length (filter (\<lambda>(s, p). ps_fastRepairQueuedGeneration p \<noteq> 0) m))"

definition states_inv :: "shadowLossThresholdState list \<Rightarrow> bool" where
  "states_inv sts \<longleftrightarrow> map ts_configuration sts = shadowLossConfigurations
     \<and> (\<forall>st \<in> set sts. ts_inv st) \<and> nested sts"

definition shadow_inv :: "shadowLossDetector \<Rightarrow> bool" where
  "shadow_inv d \<longleftrightarrow>
    gm_ok (d_pending d) \<and> states_inv (d_states d)
    \<and> 0 \<le> d_fastRepairResolvedAfterSend d
    \<and> d_fastRepairResolvedAfterSend d \<le> d_fastRepairResolved d
    \<and> d_fastRepairResolved d + repairsQueued (d_pending d) \<le> d_fastRepairQueued d"

lemma states_inv_finish:
  assumes "states_inv sts" and "r = shadowCandidateResolvedBeforeRTO \<or> r = shadowCandidateReachedRTO"
  shows "states_inv (map (finishCandidateLocked s r t) sts)"
proof -
  have "r \<noteq> shadowCandidateNone" using assms(2) by auto
  with assms show ?thesis
    by (auto simp: states_inv_def nested_def statusOf_finish ts_inv_finish o_def)
qed

lemma states_inv_suspect:
  assumes "states_inv sts"
  shows "states_inv (map (suspect now age s p) sts)"
proof -
  have "statusOf (suspect now age s p a) s' \<noteq> shadowCandidateNone"
    if "weaker (ts_configuration a) (ts_configuration b)"
      and "statusOf b s' \<noteq> shadowCandidateNone \<longrightarrow> statusOf a s' \<noteq> shadowCandidateNone"
      and "statusOf (suspect now age s p b) s' \<noteq> shadowCandidateNone" for a b s'
    using that by (auto simp: statusOf_suspect weaker_def)
  with assms show ?thesis
    by (auto simp: states_inv_def nested_def ts_inv_suspect o_def)
qed

lemma states_inv_reset [simp]: "states_inv (map newThresholdState shadowLossConfigurations)"
proof -
  have "map ts_configuration (map newThresholdState cs) = cs" for cs
    by (induction cs) (auto simp: newThresholdState_def)
  moreover have "statusOf (newThresholdState c) s = shadowCandidateNone" for c s
    by (simp add: newThresholdState_def statusOf_def)
  ultimately show ?thesis
    by (auto simp: states_inv_def nested_def)
qed

lemma shadow_inv_reset [simp]: "shadow_inv detectorReset"
  by (simp add: shadow_inv_def detectorReset_def repairsQueued_def)

lemma states_inv_length: "states_inv sts \<Longrightarrow> length sts = length shadowLossConfigurations"
  by (metis states_inv_def length_map)

lemma ensureInitialized_id [simp]: "shadow_inv d \<Longrightarrow> ensureInitialized d = d"
  by (simp add: ensureInitialized_def shadow_inv_def states_inv_length)

lemma shadow_inv_ensureInitialized: "shadow_inv d \<Longrightarrow> shadow_inv (ensureInitialized d)"
  by simp

lemma repairsQueued_nonneg [simp]: "0 \<le> repairsQueued m"
  by (simp add: repairsQueued_def)

lemma repairsQueued_put:
  "gm_ok m \<Longrightarrow> repairsQueued (gm_put s p m) =
     repairsQueued m
     - (case map_of m s of None \<Rightarrow> 0 | Some q \<Rightarrow> if ps_fastRepairQueuedGeneration q \<noteq> 0 then 1 else 0)
     + (if ps_fastRepairQueuedGeneration p \<noteq> 0 then 1 else 0)"
  by (induction m) (auto simp: repairsQueued_def gm_put_def gm_ok_def map_of_eq_None_iff split: option.splits)

lemma repairsQueued_del:
  "gm_ok m \<Longrightarrow> repairsQueued (gm_del s m) =
     repairsQueued m
     - (case map_of m s of None \<Rightarrow> 0 | Some q \<Rightarrow> if ps_fastRepairQueuedGeneration q \<noteq> 0 then 1 else 0)"
  by (induction m) (auto simp: repairsQueued_def gm_del_def gm_ok_def map_of_eq_None_iff split: option.splits)

lemma repairsQueued_gm_map:
  "(\<And>s p. ps_fastRepairQueuedGeneration (f s p) = ps_fastRepairQueuedGeneration p) \<Longrightarrow>
   repairsQueued (gm_map f m) = repairsQueued m"
  by (induction m) (auto simp: repairsQueued_def gm_map_def)

subsection \<open>Every operation keeps the invariant\<close>

lemma shadow_inv_put_same:
  assumes "shadow_inv d" and "map_of (d_pending d) s = Some p"
    and "ps_fastRepairQueuedGeneration p' = ps_fastRepairQueuedGeneration p"
  shows "shadow_inv (d\<lparr>d_pending := gm_put s p' (d_pending d)\<rparr>)"
  using assms by (auto simp: shadow_inv_def repairsQueued_put)

lemma shadow_inv_updatePending:
  assumes "shadow_inv d"
    and "\<And>p. ps_fastRepairQueuedGeneration (f p) = ps_fastRepairQueuedGeneration p"
  shows "shadow_inv (updatePending s f d)"
  using assms by (auto simp: updatePending_def shadow_inv_put_same split: option.splits)

lemma shadow_inv_FreshSend: "shadow_inv d \<Longrightarrow> shadow_inv (recordFreshSendLocked s t d)"
  by (auto simp: recordFreshSendLocked_def Let_def shadow_inv_def repairsQueued_put newPending_def
      states_inv_length ensureInitialized_def split: option.splits)

lemma shadow_inv_RecoverySend: "shadow_inv d \<Longrightarrow> shadow_inv (recordRecoverySendLocked s d)"
  by (simp add: recordRecoverySendLocked_def shadow_inv_updatePending)

lemma shadow_inv_Attempt: "shadow_inv d \<Longrightarrow> shadow_inv (recordAttemptLocked s g d)"
  by (simp add: recordAttemptLocked_def shadow_inv_updatePending)

lemma shadow_inv_FastRepairSend: "shadow_inv d \<Longrightarrow> shadow_inv (recordFastRepairSendLocked s d)"
proof -
  assume "shadow_inv d"
  moreover from this have "shadow_inv (d\<lparr>d_fastRepairSent := d_fastRepairSent d + 1\<rparr>)"
    by (simp add: shadow_inv_def)
  ultimately show ?thesis
    by (simp add: recordFastRepairSendLocked_def Let_def shadow_inv_updatePending)
qed

lemma shadow_inv_Data:
  assumes "shadow_inv d" shows "shadow_inv (recordDataLocked s t d)"
proof -
  have "repairsQueued (gm_map (countLaterACK s) m) = repairsQueued m" for m
    by (rule repairsQueued_gm_map) (simp add: countLaterACK_def)
  with assms show ?thesis
    by (cases "map_of (d_pending d) s")
       (auto simp: recordDataLocked_def Let_def shadow_inv_def ensureInitialized_def states_inv_length
          states_inv_finish repairsQueued_del)
qed

lemma shadow_inv_RTO:
  assumes "shadow_inv d" shows "shadow_inv (recordRTOLocked s t d)"
  using assms
  by (cases "map_of (d_pending d) s")
     (auto simp: recordRTOLocked_def Let_def shadow_inv_def ensureInitialized_def states_inv_length
        states_inv_finish repairsQueued_put)

lemma shadow_inv_QueueOutcome:
  assumes "shadow_inv d" shows "shadow_inv (recordFastRepairQueueOutcomeLocked c r d)"
  using assms
  by (cases r; cases "map_of (d_pending d) (cand_Sequence c)")
     (auto simp: recordFastRepairQueueOutcomeLocked_def Let_def shadow_inv_def ensureInitialized_def
        states_inv_length repairsQueued_put)

text \<open>
  A scan visits each entry of the pending map once; the entries it is given are those of the
  map when the loop starts, and an iteration rewrites only its own entry.
\<close>

lemma shadow_inv_scanEntry:
  assumes "shadow_inv (fst acc)" and "map_of (d_pending (fst acc)) (fst e) = Some (snd e)"
  shows "shadow_inv (fst (scanEntry now col acc e))"
proof -
  obtain d cs s p where [simp]: "acc = (d, cs)" "e = (s, p)"
    by (cases acc, cases e) auto
  let ?d1 = "d\<lparr>d_states := map (suspect now (nonNegativeDuration now (ps_firstSentAt p)) s p) (d_states d)\<rparr>"
  from assms(1) have d1: "shadow_inv ?d1"
    by (auto simp: shadow_inv_def states_inv_suspect)
  from d1 assms(2) have "shadow_inv (?d1\<lparr>d_pending := gm_put s
      (p\<lparr>ps_fastRepairTriggeredGeneration := ps_generation p\<rparr>) (d_pending ?d1)\<rparr>)"
    by (intro shadow_inv_put_same) auto
  then have "shadow_inv (?d1\<lparr>d_pending := gm_put s
      (p\<lparr>ps_fastRepairTriggeredGeneration := ps_generation p\<rparr>) (d_pending ?d1),
      d_fastRepairTriggers := n\<rparr>)" for n
    by (simp add: shadow_inv_def)
  with assms(1) d1 show ?thesis
    by (simp add: scanEntry_def Let_def)
qed

lemma map_of_scanEntry_other:
  "k \<noteq> fst e \<Longrightarrow> map_of (d_pending (fst (scanEntry now col acc e))) k = map_of (d_pending (fst acc)) k"
  by (cases acc; cases e) (simp add: scanEntry_def Let_def)

lemma shadow_inv_scanFold:
  "shadow_inv (fst acc) \<Longrightarrow> distinct (map fst es) \<Longrightarrow>
   (\<And>k p. (k, p) \<in> set es \<Longrightarrow> map_of (d_pending (fst acc)) k = Some p) \<Longrightarrow>
   shadow_inv (fst (foldl (scanEntry now col) acc es))"
proof (induction es arbitrary: acc)
  case Nil
  then show ?case by simp
next
  case (Cons e es)
  have step: "shadow_inv (fst (scanEntry now col acc e))"
    using Cons.prems by (intro shadow_inv_scanEntry) (auto simp: prod_eq_iff)
  have "map_of (d_pending (fst (scanEntry now col acc e))) k = Some p" if "(k, p) \<in> set es" for k p
    using that Cons.prems by (subst map_of_scanEntry_other) (force intro: rev_image_eqI)+
  with step Cons.prems(2) show ?case
    by (simp add: Cons.IH)
qed

lemma shadow_inv_scanPending:
  assumes "shadow_inv d" shows "shadow_inv (fst (scanPendingLocked now col d))"
proof -
  from assms have "gm_ok (d_pending d)" by (simp add: shadow_inv_def)
  then have "distinct (map fst (d_pending d))"
    and "\<And>k p. (k, p) \<in> set (d_pending d) \<Longrightarrow> map_of (d_pending d) k = Some p"
    by (auto simp: gm_ok_def)
  with assms have "shadow_inv (fst (foldl (scanEntry now col) (d, []) (d_pending d)))"
    by (intro shadow_inv_scanFold) auto
  with assms show ?thesis
    by (simp add: scanPendingLocked_def Let_def case_prod_beta)
qed

lemma shadow_inv_ScanIfDue: "shadow_inv d \<Longrightarrow> shadow_inv (fst (scanIfDueLocked now d))"
proof -
  assume d: "shadow_inv d"
  then have "shadow_inv (d\<lparr>d_lastScan := now\<rparr>)" by (simp add: shadow_inv_def)
  with d show ?thesis
    by (auto simp: scanIfDueLocked_def Let_def shadow_inv_scanPending)
qed

lemma shadow_inv_step: "shadow_inv d \<Longrightarrow> shadow_inv (shadowStep d e)"
  by (cases e) (simp_all add: shadow_inv_FreshSend shadow_inv_RecoverySend shadow_inv_Attempt
      shadow_inv_FastRepairSend shadow_inv_Data shadow_inv_RTO scanLocked_def shadow_inv_scanPending
      shadow_inv_ScanIfDue shadow_inv_QueueOutcome)

interpretation shadow: guarded_system "\<lambda>d. d = detectorReset" "\<lambda>_ _. True" shadowStep shadow_inv
  by unfold_locales (auto simp: shadow_inv_step)

lemma enabled_run_True [simp]: "enabled_run (\<lambda>_ _. True) st d es"
  by (induction es arbitrary: d) auto

subsection \<open>The candidates of a scan\<close>

definition fastRepairDue :: "gotime \<Rightarrow> shadowPendingSequence \<Rightarrow> bool" where
  "fastRepairDue now p \<longleftrightarrow>
    \<not> ps_inRecovery p \<and> \<not> isZero (ps_firstSentAt p) \<and> ps_generation p \<noteq> 0
    \<and> shadowFastRepairAgeFloor \<le> nonNegativeDuration now (ps_firstSentAt p)
    \<and> shadowFastRepairLaterACKThreshold \<le> ps_laterACKs p
    \<and> ps_fastRepairTriggeredGeneration p \<noteq> ps_generation p"

definition candidateOf :: "gotime \<Rightarrow> int \<times> shadowPendingSequence \<Rightarrow> shadowFastRepairCandidate" where
  "candidateOf now e =
    \<lparr>cand_Sequence = fst e, cand_Generation = ps_generation (snd e),
     cand_Age = nonNegativeDuration now (ps_firstSentAt (snd e)),
     cand_LaterACKs = ps_laterACKs (snd e)\<rparr>"

lemma snd_scanEntry:
  "snd (scanEntry now True acc e) =
     snd acc @ (if fastRepairDue now (snd e) then [candidateOf now e] else [])"
  by (cases acc; cases e) (auto simp: scanEntry_def fastRepairDue_def candidateOf_def Let_def)

lemma snd_scanFold:
  "snd (foldl (scanEntry now True) acc es) =
     snd acc @ map (candidateOf now) (filter (fastRepairDue now \<circ> snd) es)"
  by (induction es arbitrary: acc) (auto simp: snd_scanEntry)

lemma scan_candidates:
  assumes "shadow_inv d"
  shows "snd (scanPendingLocked now True d) =
    sort_key candKey (map (candidateOf now) (filter (fastRepairDue now \<circ> snd) (d_pending d)))"
proof -
  let ?cs = "map (candidateOf now) (filter (fastRepairDue now \<circ> snd) (d_pending d))"
  have short: "sort_key candKey xs = xs" if "\<not> 1 < length xs" for xs
    using that by (cases xs; cases "tl xs") auto
  have "snd (scanPendingLocked now True d) = (if 1 < length ?cs then sort_key candKey ?cs else ?cs)"
    using assms snd_scanFold [of now "(d, [])" "d_pending d"]
    by (simp add: scanPendingLocked_def Let_def case_prod_beta)
  with short [of ?cs] show ?thesis by simp
qed

lemma pending_scanEntry:
  "d_pending (fst (scanEntry now True acc e)) =
     (if fastRepairDue now (snd e)
      then gm_put (fst e) ((snd e)\<lparr>ps_fastRepairTriggeredGeneration := ps_generation (snd e)\<rparr>)
             (d_pending (fst acc))
      else d_pending (fst acc))"
  by (cases acc; cases e) (auto simp: scanEntry_def fastRepairDue_def Let_def)

lemma map_of_scanFold:
  "distinct (map fst es) \<Longrightarrow>
   map_of (d_pending (fst (foldl (scanEntry now True) acc es))) k =
     (case map_of es k of
        Some p \<Rightarrow> if fastRepairDue now p
                  then Some (p\<lparr>ps_fastRepairTriggeredGeneration := ps_generation p\<rparr>)
                  else map_of (d_pending (fst acc)) k
      | None \<Rightarrow> map_of (d_pending (fst acc)) k)"
proof (induction es arbitrary: acc)
  case Nil
  then show ?case by simp
next
  case (Cons e es)
  then have "map_of es (fst e) = None"
    by (auto simp: map_of_eq_None_iff)
  with Cons show ?case
    by (cases e) (auto simp: pending_scanEntry split: option.splits)
qed

lemma map_of_scanPending:
  assumes "shadow_inv d"
  shows "map_of (d_pending (fst (scanPendingLocked now True d))) k =
    map_option (\<lambda>p. if fastRepairDue now p
                    then p\<lparr>ps_fastRepairTriggeredGeneration := ps_generation p\<rparr> else p)
      (map_of (d_pending d) k)"
proof -
  from assms have "distinct (map fst (d_pending d))"
    by (simp add: shadow_inv_def gm_ok_def)
  from map_of_scanFold [OF this, of now "(d, [])" k] assms show ?thesis
    by (auto simp: scanPendingLocked_def Let_def case_prod_beta split: option.splits)
qed

lemma distinct_candidates:
  assumes "gm_ok m"
  shows "distinct (map candKey (map (candidateOf now) (filter P m)))"
proof -
  from assms have "distinct (map fst (filter P m))"
    by (simp add: gm_ok_def distinct_map_filter)
  moreover have "map cand_Sequence (map (candidateOf now) xs) = map fst xs" for xs
    by (simp add: candidateOf_def)
  moreover have "map snd (map candKey cs) = map cand_Sequence cs" for cs
    by (simp add: candKey_def)
  ultimately show ?thesis
    by (metis distinct_map)
qed

lemma summaryOf_balanced:
  assumes "ts_inv st"
  shows "sum_ShadowSuspects (summaryOf now n st) =
      sum_ResolvedBeforeRTO (summaryOf now n st) + sum_ReachedRTO (summaryOf now n st)
      + sum_ActiveAtEnd (summaryOf now n st)"
    and "0 \<le> sum_LeadToRTOTotal (summaryOf now n st)"
    and "sum_LeadToRTOTotal (summaryOf now n st) \<le> sum_SuspectInflightTotal (summaryOf now n st)"
proof -
  have "a \<le> foldl (\<lambda>acc (k, u). acc + nonNegativeDuration now u) a m" for a and m :: "(int, gotime) gomap"
  proof (induction m arbitrary: a)
    case (Cons e m)
    have "a \<le> a + nonNegativeDuration now (snd e)" by simp
    also note Cons.IH
    finally show ?case by (simp add: case_prod_beta)
  qed simp
  from this [of "ts_suspectInflightTime st" "ts_suspectedAt st"] assms
  show "sum_LeadToRTOTotal (summaryOf now n st) \<le> sum_SuspectInflightTotal (summaryOf now n st)"
    by (simp add: summaryOf_def ts_inv_def Let_def)
qed (use assms in \<open>auto simp: summaryOf_def ts_inv_def Let_def\<close>)


lemma enabled_shadow_run: "shadow_inv (run shadowStep detectorReset es)"
  by (rule shadow.run_inv) simp_all

lemma shadow_status_mono:
  assumes "shadow_inv d" and "a \<in> set (d_states d)" and "b \<in> set (d_states d)"
    and "weaker (ts_configuration a) (ts_configuration b)"
  shows "ts_shadowSuspects b \<le> ts_shadowSuspects a"
proof -
  from assms have inv: "ts_inv a" "ts_inv b"
    and nest: "\<And>s. statusOf b s \<noteq> shadowCandidateNone \<Longrightarrow> statusOf a s \<noteq> shadowCandidateNone"
    by (auto simp: shadow_inv_def states_inv_def nested_def)
  then have "dom (map_of (ts_status b)) \<subseteq> dom (map_of (ts_status a))"
    by (auto simp: statusOf_None_iff domIff)
  then have "card (dom (map_of (ts_status b))) \<le> card (dom (map_of (ts_status a)))"
    by (intro card_mono) (simp_all add: finite_dom_map_of)
  with inv show ?thesis
    by (auto simp: ts_inv_def gm.len_card)
qed

fun rearms :: "int \<Rightarrow> shadowEvent \<Rightarrow> bool" where
  "rearms s (Attempt s' g) = (s' = s)"
| "rearms s (DataArrived s' t) = (s' = s)"
| "rearms s e = False"

definition triggered :: "int \<Rightarrow> shadowLossDetector \<Rightarrow> bool" where
  "triggered s d \<longleftrightarrow> (case map_of (d_pending d) s of None \<Rightarrow> False
     | Some p \<Rightarrow> ps_fastRepairTriggeredGeneration p = ps_generation p)"

lemma triggered_map:
  assumes "map_of (d_pending d') s = map_option f (map_of (d_pending d) s)"
    and "\<And>p. ps_fastRepairTriggeredGeneration p = ps_generation p \<Longrightarrow>
           ps_fastRepairTriggeredGeneration (f p) = ps_generation (f p)"
  shows "triggered s d \<Longrightarrow> triggered s d'"
  using assms by (auto simp: triggered_def split: option.splits)

lemma triggered_updatePending:
  assumes "\<And>p. ps_fastRepairTriggeredGeneration (f p) = ps_fastRepairTriggeredGeneration p"
    and "s' = s \<Longrightarrow> (\<And>p. ps_generation (f p) = ps_generation p)"
  shows "triggered s d \<Longrightarrow> triggered s (updatePending s' f d)"
  using assms by (auto simp: triggered_def updatePending_def split: option.splits)

lemma triggered_sent_counter [simp]: "triggered s (d\<lparr>d_fastRepairSent := n\<rparr>) = triggered s d"
  by (simp add: triggered_def)

lemma map_of_scanLocked:
  assumes "shadow_inv d"
  shows "d_pending (scanLocked now d) = d_pending d"
proof -
  have "d_pending (fst (scanEntry now False acc e)) = d_pending (fst acc)" for acc e
    by (cases acc; cases e) (auto simp: scanEntry_def Let_def)
  then have "d_pending (fst (foldl (scanEntry now False) acc es)) = d_pending (fst acc)" for acc es
    by (induction es arbitrary: acc) auto
  with assms show ?thesis
    by (simp add: scanLocked_def scanPendingLocked_def Let_def case_prod_beta)
qed

lemma triggered_scanPending:
  "shadow_inv d \<Longrightarrow> triggered s d \<Longrightarrow> triggered s (fst (scanPendingLocked now True d))"
  by (rule triggered_map [OF map_of_scanPending]) auto

lemma triggered_step:
  assumes inv: "shadow_inv d" and trig: "triggered s d" and "\<not> rearms s e"
  shows "triggered s (shadowStep d e)"
proof (cases e)
  case (FreshSend s' t)
  then show ?thesis using inv trig
    by (auto simp: recordFreshSendLocked_def triggered_def Let_def split: option.splits)
next
  case (DataArrived s' t)
  with assms have "map_of (d_pending (recordDataLocked s' t d)) s =
      map_option (countLaterACK s' s) (map_of (d_pending d) s)"
    by (cases "map_of (d_pending d) s'") (auto simp: recordDataLocked_def Let_def)
  with DataArrived show ?thesis
    by (auto intro: triggered_map [OF _ _ trig] simp: countLaterACK_def)
next
  case (RTOExpired s' t)
  then show ?thesis using inv trig
    by (cases "map_of (d_pending d) s'") (auto simp: recordRTOLocked_def triggered_def Let_def split: option.splits)
next
  case (ScanOnly t)
  then show ?thesis using inv trig
    by (simp add: map_of_scanLocked triggered_def)
next
  case (ScanIfDue t)
  have "shadow_inv (d\<lparr>d_lastScan := t\<rparr>)" and "triggered s (d\<lparr>d_lastScan := t\<rparr>)"
    using inv trig by (simp_all add: shadow_inv_def triggered_def)
  with ScanIfDue show ?thesis using inv trig
    by (auto simp: scanIfDueLocked_def Let_def triggered_scanPending)
next
  case (QueueOutcome c r)
  then show ?thesis using inv trig
    by (cases r; cases "map_of (d_pending d) (cand_Sequence c)")
       (auto simp: recordFastRepairQueueOutcomeLocked_def triggered_def Let_def)
qed (use assms in \<open>auto simp: recordRecoverySendLocked_def recordAttemptLocked_def
      recordFastRepairSendLocked_def Let_def intro!: triggered_updatePending\<close>)

lemma triggered_run:
  "shadow_inv d \<Longrightarrow> triggered s d \<Longrightarrow> \<forall>e \<in> set es. \<not> rearms s e \<Longrightarrow>
   triggered s (run shadowStep d es)"
  by (induction es arbitrary: d) (auto simp: triggered_step shadow_inv_step)

lemma candidate_triggered:
  assumes "shadow_inv d" and "c \<in> set (snd (scanPendingLocked now True d))"
  shows "triggered (cand_Sequence c) (fst (scanPendingLocked now True d))"
proof -
  from assms obtain s p where "(s, p) \<in> set (d_pending d)" "fastRepairDue now p"
    and c: "cand_Sequence c = s"
    by (auto simp: scan_candidates candidateOf_def)
  with assms(1) have "map_of (d_pending d) s = Some p"
    by (simp add: shadow_inv_def gm_ok_map_of)
  with \<open>fastRepairDue now p\<close> c show ?thesis
    by (simp add: triggered_def map_of_scanPending [OF assms(1)])
qed

lemma not_candidate_if_triggered:
  assumes "shadow_inv d" and "triggered s d"
  shows "s \<notin> cand_Sequence ` set (snd (scanPendingLocked now True d))"
proof
  assume "s \<in> cand_Sequence ` set (snd (scanPendingLocked now True d))"
  then obtain p where "(s, p) \<in> set (d_pending d)" and "fastRepairDue now p"
    using assms(1) by (auto simp: scan_candidates candidateOf_def)
  with assms show False
    by (auto simp: triggered_def fastRepairDue_def shadow_inv_def gm_ok_map_of [symmetric])
qed

lemma scan_candidates_parts:
  assumes "shadow_inv d" and "shadow_inv d'" and "mset (d_pending d') = mset (d_pending d)"
  shows "set (snd (scanPendingLocked now True d)) =
      {candidateOf now (s, p) | s p. map_of (d_pending d) s = Some p \<and> fastRepairDue now p}"
    and "sorted (map candKey (snd (scanPendingLocked now True d)))"
    and "snd (scanPendingLocked now True d') = snd (scanPendingLocked now True d)"
proof -
  let ?due = "\<lambda>d. map (candidateOf now) (filter (fastRepairDue now \<circ> snd) (d_pending d))"
  from assms(1) show "set (snd (scanPendingLocked now True d)) =
      {candidateOf now (s, p) | s p. map_of (d_pending d) s = Some p \<and> fastRepairDue now p}"
    by (force simp: scan_candidates shadow_inv_def gm_ok_map_of)
  show "sorted (map candKey (snd (scanPendingLocked now True d)))"
    by (simp add: scan_candidates [OF assms(1)])
  have dist: "distinct (map candKey (?due d))" "distinct (map candKey (?due d'))"
    using assms(1,2) by (auto simp: shadow_inv_def simp del: map_map intro!: distinct_candidates)
  then have inj: "inj_on candKey (set (?due d))" "distinct (?due d)" "distinct (?due d')"
    by (simp_all only: distinct_map [of candKey])
  from assms(3) have "set (d_pending d') = set (d_pending d)" by (metis set_mset_mset)
  then have same: "set (?due d') = set (?due d)" by auto
  have "sort_key candKey (?due d') = sort_key candKey (?due d)"
  proof (rule map_sorted_distinct_set_unique [where f = candKey])
    show "inj_on candKey (set (sort_key candKey (?due d')) \<union> set (sort_key candKey (?due d)))"
      using inj(1) same by (simp only: set_sort Un_absorb)
  qed (use dist inj same in \<open>simp_all only: set_sort sorted_sort_key distinct_map [of candKey] distinct_sort Un_absorb\<close>)
  then show "snd (scanPendingLocked now True d') = snd (scanPendingLocked now True d)"
    by (simp add: scan_candidates assms)
qed

lemma scan_sequences_distinct:
  assumes "shadow_inv d"
  shows "distinct (map cand_Sequence (snd (scanPendingLocked now True d)))"
proof -
  have "mset (map cand_Sequence (snd (scanPendingLocked now True d))) = mset (map fst (filter (fastRepairDue now \<circ> snd) (d_pending d)))"
    by (simp add: scan_candidates [OF assms] multiset.map_comp o_def candidateOf_def case_prod_beta)
  moreover have "distinct (map fst (filter (fastRepairDue now \<circ> snd) (d_pending d)))"
    using assms by (simp add: shadow_inv_def gm_ok_def distinct_map_filter)
  ultimately show ?thesis by (metis mset_eq_imp_distinct_iff)
qed

subsection \<open>Properties\<close>

text \<open>
  (C23) Accounting.  After any sequence of calls on a freshly reset detector, each of the
  summaries it reports balances: every suspicion was settled by Data, settled by an RTO or is
  still active, the lead over the RTO is non-negative and at most the total time suspected
  sequences spent in flight.
\<close>

theorem shadow_summaries_balanced:
  "list_all (\<lambda>sm. sum_ShadowSuspects sm = sum_ResolvedBeforeRTO sm + sum_ReachedRTO sm + sum_ActiveAtEnd sm
       \<and> 0 \<le> sum_LeadToRTOTotal sm \<and> sum_LeadToRTOTotal sm \<le> sum_SuspectInflightTotal sm)
     (snd (summariesLocked now (run shadowStep detectorReset es)))"
proof -
  let ?d = "run shadowStep detectorReset es"
  have "shadow_inv ?d" by (rule enabled_shadow_run)
  then have "\<forall>st \<in> set (d_states ?d). ts_inv st" and "ensureInitialized ?d = ?d"
    by (auto simp: shadow_inv_def states_inv_def states_inv_length ensureInitialized_def)
  then show ?thesis
    by (simp add: summariesLocked_def Let_def list_all_iff summaryOf_balanced del: of_nat_add)
qed

text \<open>
  (C24) Threshold monotonicity.  A configuration that asks for at least as much age and at least
  as many later ACKs never suspects more sequences than the weaker one, in any state the
  detector can reach.
\<close>

theorem shadow_suspects_antitone:
  assumes "d = run shadowStep detectorReset es"
    and "i < length (d_states d)" and "j < length (d_states d)"
    and "weaker (shadowLossConfigurations ! i) (shadowLossConfigurations ! j)"
  shows "ts_shadowSuspects (d_states d ! j) \<le> ts_shadowSuspects (d_states d ! i)"
proof (rule shadow_status_mono)
  show inv: "shadow_inv d" using assms(1) enabled_shadow_run by simp
  then have "map ts_configuration (d_states d) = shadowLossConfigurations"
    by (simp add: shadow_inv_def states_inv_def)
  with assms(2-4) show "weaker (ts_configuration (d_states d ! i)) (ts_configuration (d_states d ! j))"
    by (metis nth_map)
qed (use assms in auto)

text \<open>
  (C25) Fast-repair scan.  A scan with collection returns exactly one candidate, no more and no less, for each
  outstanding sequence that is due (first attempt still in flight, at least 350 ms old, overtaken
  by at least 8 ACKs, generation not yet triggered), oldest first with ties by sequence number,
  and it returns the same list whatever order Go iterates the pending map in.
\<close>

theorem scan_candidates_exact:
  assumes "shadow_inv d" and "shadow_inv d'" and "mset (d_pending d') = mset (d_pending d)"
  shows "set (snd (scanPendingLocked now True d)) =
      {candidateOf now (s, p) | s p. map_of (d_pending d) s = Some p \<and> fastRepairDue now p}
    \<and> distinct (map cand_Sequence (snd (scanPendingLocked now True d)))
    \<and> sorted (map candKey (snd (scanPendingLocked now True d)))
    \<and> snd (scanPendingLocked now True d') = snd (scanPendingLocked now True d)"
  using scan_candidates_parts [OF assms] scan_sequences_distinct [OF assms(1)] by (intro conjI)

text \<open>
  (C26) At most one fast repair per attempt.  Once a scan has reported a sequence, no later scan
  reports it again until a new attempt is installed for it or its Data arrives, whatever other
  calls happen in between.
\<close>

theorem fast_repair_once_per_attempt:
  assumes "shadow_inv d" and "c \<in> set (snd (scanPendingLocked now True d))"
    and "\<forall>e \<in> set es. \<not> rearms (cand_Sequence c) e"
  shows "cand_Sequence c \<notin> cand_Sequence `
    set (snd (scanPendingLocked now' True (run shadowStep (fst (scanPendingLocked now True d)) es)))"
proof -
  let ?d1 = "fst (scanPendingLocked now True d)"
  have "shadow_inv ?d1" using assms(1) by (rule shadow_inv_scanPending)
  moreover have "triggered (cand_Sequence c) ?d1" using assms(1,2) by (rule candidate_triggered)
  ultimately show ?thesis
    using assms(3) by (intro not_candidate_if_triggered triggered_run shadow.run_keeps) auto
qed

text \<open>
  (C27) Fast-repair counters.  In every reachable state the repairs resolved after their send are
  among the repairs resolved, and these, together with the repairs still outstanding, never exceed
  the repairs queued.
\<close>

theorem fast_repair_counters_ordered:
  "let s = snd (fastRepairSummaryLocked (run shadowStep detectorReset es)) in
     0 \<le> frs_ResolvedAfterSend s \<and> frs_ResolvedAfterSend s \<le> frs_Resolved s
     \<and> frs_Resolved s + repairsQueued (d_pending (run shadowStep detectorReset es)) \<le> frs_Queued s"
  using enabled_shadow_run [of es]
  by (simp add: fastRepairSummaryLocked_def Let_def) (simp add: shadow_inv_def)


subsection \<open>A concrete run\<close>

text \<open>
  Nine sequences are sent, the last eight are acknowledged, and the first one is scanned 300 ms
  later: only the configurations with age floor 250 ms and 8 ACKs suspect it.
\<close>

definition demoRun :: "shadowEvent list" where
  "demoRun = map (\<lambda>s. FreshSend s 1) [1, 2, 3, 4, 5, 6, 7, 8, 9] @ [Attempt 1 7]
     @ map (\<lambda>s. DataArrived s 2) [2, 3, 4, 5, 6, 7, 8, 9] @ [ScanOnly 300000001]"

abbreviation demoDetector :: shadowLossDetector where
  "demoDetector \<equiv> run shadowStep detectorReset demoRun"

abbreviation demoCandidate :: shadowFastRepairCandidate where
  "demoCandidate \<equiv> \<lparr>cand_Sequence = 1, cand_Generation = 7, cand_Age = 400000000, cand_LaterACKs = 8\<rparr>"

lemma demo_scan: "snd (scanPendingLocked 400000001 True demoDetector) = [demoCandidate]"
  by code_simp

theorem shadow_suspects_antitone_witness:
  "ts_shadowSuspects (d_states demoDetector ! 8) \<le> ts_shadowSuspects (d_states demoDetector ! 0)
   \<and> ts_shadowSuspects (d_states demoDetector ! 0) = 1"
proof -
  have "0 < length (d_states demoDetector)" and "8 < length (d_states demoDetector)"
    and "weaker (shadowLossConfigurations ! 0) (shadowLossConfigurations ! 8)"
    by code_simp+
  from shadow_suspects_antitone [OF refl this]
  have "ts_shadowSuspects (d_states demoDetector ! 8) \<le> ts_shadowSuspects (d_states demoDetector ! 0)" .
  moreover have "ts_shadowSuspects (d_states demoDetector ! 0) = 1" by code_simp
  ultimately show ?thesis by (rule conjI)
qed

theorem scan_candidates_exact_witness:
  "set (snd (scanPendingLocked 400000001 True demoDetector)) =
     {candidateOf 400000001 (s, p) | s p. map_of (d_pending demoDetector) s = Some p
        \<and> fastRepairDue 400000001 p}
   \<and> snd (scanPendingLocked 400000001 True demoDetector) = [demoCandidate]"
  using scan_candidates_exact [OF enabled_shadow_run [of demoRun] enabled_shadow_run [of demoRun] refl]
    demo_scan by blast

theorem fast_repair_once_per_attempt_witness:
  "1 \<notin> cand_Sequence ` set (snd (scanPendingLocked 500000001 True
      (run shadowStep (fst (scanPendingLocked 400000001 True demoDetector)) [RecoverySend 2, DataArrived 10 5])))"
proof -
  have "demoCandidate \<in> set (snd (scanPendingLocked 400000001 True demoDetector))"
    by (simp only: demo_scan) simp
  from fast_repair_once_per_attempt [OF enabled_shadow_run [of demoRun] this,
      of "[RecoverySend 2, DataArrived 10 5]" 500000001]
  show ?thesis by simp
qed

end
