(* ===== verification/Flow_Context.thy ===== *)
theory Flow_Context
  imports Rate_Invariant Ndn_Name Shadow_Loss
begin

text \<open>
  One consumer flow, \<open>FlowContext\<close> of \<open>apps/consumer/consumer.go\<close>: its state and every method
  that changes it, from construction and the switch to data transmission to the send, data, nack
  and timeout handlers, the retransmission queue and the path-discovery state machine.  The
  fields of rate control are the embedded \<open>rateState\<close>.  Each method runs under the flow's mutex,
  so it is one function on the flow; \<open>f_doneCloses\<close> counts \<open>close(doneCh)\<close> and \<open>f_pdFinishCalls\<close>
  the spawned \<open>checkAllPdFinished\<close> goroutines.
\<close>

subsection \<open>State\<close>

record PendingSend =
  p_SendTime :: gotime
  p_Retransmitted :: bool

record flow =
  f_Prefix :: string
  f_baseName :: name
  f_Mode :: TransmissionMode
  f_pendingSends :: "(string, PendingSend) gomap"
  f_totalBytes :: int
  f_pktsReceivedTotal :: int
  f_receivedSeqs :: "(int, bool) gomap"
  f_startTime :: gotime
  f_endTime :: gotime
  f_p95Time :: gotime
  f_p99Time :: gotime
  f_p100Time :: gotime
  f_isFinished :: bool
  f_doneCloses :: nat
  f_CurrentTier :: int
  f_IsPaused :: bool
  f_StopPD :: bool
  f_OutstandingPD :: int
  f_RehearsalCount :: int
  f_HasRehearsed :: bool
  f_PdStartTime :: gotime
  f_PdFinished :: bool
  f_pdFinishCalls :: nat
  f_timeoutEpochStart :: gotime
  f_timeoutEpochEvents :: int
  f_timeoutEpochBackoff :: bool
  f_timeoutEvents :: int
  f_timeoutBackoffs :: int
  f_maxInflight :: int
  f_retxQueue :: "int list"
  f_retxHead :: nat
  f_retxQueued :: "(int, bool) gomap"
  f_firstDtDataLogged :: bool
  f_resetSignal :: bool
  f_rate :: rateState
  f_shadowLoss :: shadowLossDetector

record FlowProgressSnapshot =
  sn_Prefix :: string
  sn_Mode :: TransmissionMode
  sn_StartTime :: gotime
  sn_TotalBytes :: int
  sn_PktsRecv :: int
  sn_IsFinished :: bool

record FlowFinalStats =
  fs_ThroughputMbps :: float64
  fs_TotalBytes :: int
  fs_Duration :: float64
  fs_FCT95 :: float64
  fs_FCT99 :: float64
  fs_FCT100 :: float64
  fs_Complete :: bool
  fs_ReceivedPackets :: int
  fs_ExpectedPackets :: int
  fs_MissingPackets :: int
  fs_RTOExpirations :: int
  fs_RateBackoffs :: int
  fs_MaxInflight :: int
  fs_FinalCwnd :: float64

subsection \<open>Names\<close>

text \<open>The error of \<open>NameFromStr\<close> is dropped and leaves the nil name.\<close>

definition flowPrefixName :: "config \<Rightarrow> string \<Rightarrow> name" where
  "flowPrefixName cfg prefix =
    (let n = (case nameFromStr prefix of Inr n \<Rightarrow> n | Inl _ \<Rightarrow> [])
     in if cfg_consumerNodeName cfg \<noteq> []
        then nameAppend n [newStringComponent 0x08 (cfg_consumerNodeName cfg)] else n)"

definition updatePDBaseName :: "config \<Rightarrow> int \<Rightarrow> flow \<Rightarrow> flow" where
  "updatePDBaseName cfg tier f =
    f\<lparr>f_baseName := nameAppend (nameAppend (flowPrefixName cfg (f_Prefix f)) [newStringComponent 0x08 ''pd''])
        [newStringComponent 0x08 (itoa tier)]\<rparr>"

definition seqComponent :: "int \<Rightarrow> component" where
  "seqComponent seq = newStringComponent 0x08 (''seq-'' @ itoa seq)"

definition seqName :: "config \<Rightarrow> name \<Rightarrow> int \<Rightarrow> string" where
  "seqName cfg base seq = nameString (cfg_disableAltUri cfg) (nameAppend base [seqComponent seq])"

definition interestNameForSeq :: "config \<Rightarrow> flow \<Rightarrow> int \<Rightarrow> string" where
  "interestNameForSeq cfg f seq = seqName cfg (f_baseName f) seq"

subsection \<open>Construction\<close>

definition initDTState :: "config \<Rightarrow> gotime \<Rightarrow> flow \<Rightarrow> flow" where
  "initDTState cfg now f = f\<lparr>
     f_rate := initRateState cfg now (f_rate f),
     f_startTime := now, f_endTime := now, f_totalBytes := 0, f_pktsReceivedTotal := 0,
     f_p95Time := 0, f_p99Time := 0, f_p100Time := 0, f_isFinished := False,
     f_pendingSends := [], f_receivedSeqs := [], f_retxQueue := [], f_retxHead := 0,
     f_retxQueued := [], f_firstDtDataLogged := False, f_timeoutEpochStart := 0,
     f_timeoutEpochEvents := 0, f_timeoutEpochBackoff := False, f_timeoutEvents := 0,
     f_timeoutBackoffs := 0, f_maxInflight := 0, f_shadowLoss := detectorReset,
     f_baseName := nameAppend (flowPrefixName cfg (f_Prefix f)) [newStringComponent 0x08 ''dt'']\<rparr>"

definition zeroDetector :: shadowLossDetector where
  "zeroDetector = detectorReset\<lparr>d_states := []\<rparr>"

definition zeroFlow :: "gotime \<Rightarrow> string \<Rightarrow> flow" where
  "zeroFlow now prefix = \<lparr>f_Prefix = prefix, f_baseName = [], f_Mode = ModePD, f_pendingSends = [],
     f_totalBytes = 0, f_pktsReceivedTotal = 0, f_receivedSeqs = [], f_startTime = now,
     f_endTime = now, f_p95Time = 0, f_p99Time = 0, f_p100Time = 0, f_isFinished = False,
     f_doneCloses = 0, f_CurrentTier = 0, f_IsPaused = False, f_StopPD = False,
     f_OutstandingPD = 0, f_RehearsalCount = 0, f_HasRehearsed = False, f_PdStartTime = 0,
     f_PdFinished = False, f_pdFinishCalls = 0, f_timeoutEpochStart = 0,
     f_timeoutEpochEvents = 0, f_timeoutEpochBackoff = False, f_timeoutEvents = 0,
     f_timeoutBackoffs = 0, f_maxInflight = 0, f_retxQueue = [], f_retxHead = 0,
     f_retxQueued = [], f_firstDtDataLogged = False, f_resetSignal = False,
     f_rate = zeroRateState, f_shadowLoss = zeroDetector\<rparr>"

definition NewFlowContext :: "config \<Rightarrow> gotime \<Rightarrow> string \<Rightarrow> flow" where
  "NewFlowContext cfg now prefix =
    (case cfg_initialMode cfg of
       ModePD \<Rightarrow>
         updatePDBaseName cfg 0
           ((zeroFlow now prefix)\<lparr>f_Mode := ModePD,
              f_rate := zeroRateState\<lparr>r_currentRate := PD_INIT_RATE, r_rto := PD_INIT_RTO\<rparr>,
              f_CurrentTier := 0, f_IsPaused := False, f_StopPD := False, f_OutstandingPD := 0,
              f_RehearsalCount := 0, f_HasRehearsed := False, f_PdStartTime := now,
              f_PdFinished := False\<rparr>)
     | ModeDT \<Rightarrow> initDTState cfg now ((zeroFlow now prefix)\<lparr>f_Mode := ModeDT\<rparr>))"

text \<open>\<open>startDataTransmission\<close> after its sleep; the send on the buffered reset channel never blocks.\<close>

definition startDataTransmission :: "config \<Rightarrow> gotime \<Rightarrow> flow \<Rightarrow> flow" where
  "startDataTransmission cfg now f =
    (initDTState cfg now (f\<lparr>f_Mode := ModeDT\<rparr>))\<lparr>f_resetSignal := True\<rparr>"

subsection \<open>Queries\<close>

definition SnapshotProgress :: "flow \<Rightarrow> FlowProgressSnapshot" where
  "SnapshotProgress f =
    \<lparr>sn_Prefix = f_Prefix f, sn_Mode = f_Mode f, sn_StartTime = f_startTime f,
     sn_TotalBytes = f_totalBytes f, sn_PktsRecv = f_pktsReceivedTotal f, sn_IsFinished = f_isFinished f\<rparr>"

definition GetRate :: "flow \<Rightarrow> float64" where
  "GetRate f = r_currentRate (f_rate f)"

definition GetRTO :: "flow \<Rightarrow> float64" where
  "GetRTO f = r_rto (f_rate f)"

definition GetRTOIfPending :: "string \<Rightarrow> int \<Rightarrow> flow \<Rightarrow> float64 option" where
  "GetRTOIfPending nm seq f =
    (case map_of (f_pendingSends f) nm of
       None \<Rightarrow> None
     | Some _ \<Rightarrow>
         if f_Mode f = ModeDT \<and> (f_isFinished f \<or> gm_bool (f_receivedSeqs f) seq) then None
         else Some (r_rto (f_rate f)))"

definition CanSendNewDT :: "config \<Rightarrow> flow \<Rightarrow> bool" where
  "CanSendNewDT cfg f =
    (if f_Mode f \<noteq> ModeDT \<or> f_isFinished f then False
     else int (length (f_pendingSends f)) < dtInflightLimitLocked cfg (f_rate f))"

definition GetFinalStats :: "config \<Rightarrow> flow \<Rightarrow> FlowFinalStats" where
  "GetFinalStats cfg f =
    (let duration = consumerDurationSeconds (f_startTime f) (f_endTime f);
         throughputMbps = (if duration > 0 then (of_int (f_totalBytes f) * 8) / (duration * 1000000) else 0);
         complete = (f_isFinished f \<and> f_pktsReceivedTotal f \<ge> cfg_MAX_PACKETS cfg);
         missing = cfg_MAX_PACKETS cfg - f_pktsReceivedTotal f
     in \<lparr>fs_ThroughputMbps = throughputMbps, fs_TotalBytes = f_totalBytes f, fs_Duration = duration,
         fs_FCT95 = consumerDurationSeconds (f_startTime f) (f_p95Time f),
         fs_FCT99 = consumerDurationSeconds (f_startTime f) (f_p99Time f),
         fs_FCT100 = (if \<not> complete then 0 else consumerDurationSeconds (f_startTime f) (f_p100Time f)),
         fs_Complete = complete, fs_ReceivedPackets = f_pktsReceivedTotal f,
         fs_ExpectedPackets = cfg_MAX_PACKETS cfg,
         fs_MissingPackets = (if missing < 0 then 0 else missing),
         fs_RTOExpirations = f_timeoutEvents f, fs_RateBackoffs = f_timeoutBackoffs f,
         fs_MaxInflight = f_maxInflight f, fs_FinalCwnd = r_congestionWindow (f_rate f)\<rparr>)"

subsection \<open>Sending\<close>

definition OnDTRTO :: "flow \<Rightarrow> flow \<times> float64 \<times> float64 \<times> bool" where
  "OnDTRTO f = (f\<lparr>f_timeoutEvents := f_timeoutEvents f + 1\<rparr>, r_currentRate (f_rate f), r_rto (f_rate f), False)"

definition RecordInterestSend ::
  "string \<Rightarrow> int \<Rightarrow> gotime \<Rightarrow> bool \<Rightarrow> flow \<Rightarrow> flow \<times> TransmissionMode \<times> bool" where
  "RecordInterestSend nm seq t isRetransmission f =
    (let mode = f_Mode f in
     if f_Mode f = ModeDT \<and> (f_isFinished f \<or> gm_bool (f_receivedSeqs f) seq) then (f, mode, False)
     else
       let entry' = (case map_of (f_pendingSends f) nm of
                       None \<Rightarrow> \<lparr>p_SendTime = t, p_Retransmitted = isRetransmission\<rparr>
                     | Some entry \<Rightarrow>
                         if isRetransmission then entry\<lparr>p_Retransmitted := True\<rparr>
                         else \<lparr>p_SendTime = t, p_Retransmitted = False\<rparr>);
           f1 = f\<lparr>f_pendingSends := gm_put nm entry' (f_pendingSends f)\<rparr>;
           f2 = (if f_Mode f1 = ModeDT then
                   let sh = (if isRetransmission then recordRecoverySendLocked seq (f_shadowLoss f1)
                             else recordFreshSendLocked seq t (f_shadowLoss f1));
                       inflight = int (length (f_pendingSends f1))
                   in f1\<lparr>f_shadowLoss := sh,
                         f_maxInflight := (if inflight > f_maxInflight f1 then inflight else f_maxInflight f1),
                         f_rate := (f_rate f1)\<lparr>r_interestsSentInPeriod := r_interestsSentInPeriod (f_rate f1) + 1\<rparr>\<rparr>
                 else if \<not> isRetransmission then f1\<lparr>f_OutstandingPD := f_OutstandingPD f1 + 1\<rparr>
                 else f1)
       in (f2, mode, True))"

subsection \<open>Retransmission queue\<close>

definition queueRetransmissionLocked :: "config \<Rightarrow> int \<Rightarrow> flow \<Rightarrow> flow \<times> bool" where
  "queueRetransmissionLocked cfg seq f =
    (if f_Mode f \<noteq> ModeDT \<or> f_isFinished f \<or> gm_bool (f_receivedSeqs f) seq \<or> gm_bool (f_retxQueued f) seq
     then (f, False)
     else if map_of (f_pendingSends f) (interestNameForSeq cfg f seq) = None then (f, False)
     else (f\<lparr>f_retxQueued := gm_put seq True (f_retxQueued f), f_retxQueue := f_retxQueue f @ [seq]\<rparr>, True))"

definition QueueRetransmission :: "config \<Rightarrow> int \<Rightarrow> flow \<Rightarrow> flow \<times> bool" where
  "QueueRetransmission cfg seq f = (if seq \<le> 0 then (f, False) else queueRetransmissionLocked cfg seq f)"

definition recordShadowFastRepairOutcome ::
  "shadowFastRepairCandidate \<Rightarrow> shadowFastRepairQueueOutcome \<Rightarrow> flow \<Rightarrow> flow" where
  "recordShadowFastRepairOutcome candidate outcome f =
    f\<lparr>f_shadowLoss := recordFastRepairQueueOutcomeLocked candidate outcome (f_shadowLoss f)\<rparr>"

definition queueShadowFastRepair ::
  "config \<Rightarrow> shadowFastRepairCandidate \<Rightarrow> flow \<Rightarrow> flow \<times> shadowFastRepairQueueOutcome" where
  "queueShadowFastRepair cfg candidate f =
    (let seq = cand_Sequence candidate;
         matches = (case map_of (d_pending (f_shadowLoss f)) seq of
                      None \<Rightarrow> False | Some p \<Rightarrow> ps_generation p = cand_Generation candidate);
         (f1, outcome) =
           (if f_Mode f = ModeDT \<and> \<not> f_isFinished f \<and> \<not> gm_bool (f_receivedSeqs f) seq \<and> matches then
              (if gm_bool (f_retxQueued f) seq then (f, shadowFastRepairQueueAlreadyQueued)
               else let (f', ok) = queueRetransmissionLocked cfg seq f
                    in (f', if ok then shadowFastRepairQueueQueued else shadowFastRepairQueueStale))
            else (f, shadowFastRepairQueueStale))
     in (recordShadowFastRepairOutcome candidate outcome f1, outcome))"

text \<open>
  \<open>copy\<close>, zeroing the tail and re-slicing leave the live suffix; the zeroed slots are beyond the
  new length.
\<close>

definition compactRetransmissionQueueLocked :: "flow \<Rightarrow> flow" where
  "compactRetransmissionQueueLocked f =
    (if f_retxHead f = 0 then f
     else if f_retxHead f < length (f_retxQueue f) div 2 \<and> f_retxHead f < 1024 then f
     else f\<lparr>f_retxQueue := drop (f_retxHead f) (f_retxQueue f), f_retxHead := 0\<rparr>)"

function popLoop :: "config \<Rightarrow> flow \<Rightarrow> flow \<times> int option" where
  "popLoop cfg f =
    (if f_retxHead f < length (f_retxQueue f) then
       let seq = f_retxQueue f ! f_retxHead f;
           f1 = f\<lparr>f_retxQueue := (f_retxQueue f)[f_retxHead f := 0], f_retxHead := f_retxHead f + 1\<rparr>
       in if \<not> gm_bool (f_retxQueued f1) seq then popLoop cfg f1
          else
            let f2 = f1\<lparr>f_retxQueued := gm_del seq (f_retxQueued f1)\<rparr>
            in if f_Mode f2 \<noteq> ModeDT \<or> f_isFinished f2 then popLoop cfg f2
               else if map_of (f_pendingSends f2) (interestNameForSeq cfg f2 seq) = None then popLoop cfg f2
               else (compactRetransmissionQueueLocked f2, Some seq)
     else (f\<lparr>f_retxQueue := [], f_retxHead := 0\<rparr>, None))"
  by pat_completeness auto
termination
  by (relation "measure (\<lambda>(cfg, f). length (f_retxQueue f) - f_retxHead f)") auto

definition PopRetransmission :: "config \<Rightarrow> flow \<Rightarrow> flow \<times> int option" where
  "PopRetransmission cfg f = popLoop cfg f"

definition HasQueuedRetransmission :: "flow \<Rightarrow> bool" where
  "HasQueuedRetransmission f \<longleftrightarrow> 0 < length (f_retxQueued f)"

definition clearQueuedRetransmissionLocked :: "int \<Rightarrow> flow \<Rightarrow> flow" where
  "clearQueuedRetransmissionLocked seq f =
    (if seq \<le> 0 then f else f\<lparr>f_retxQueued := gm_del seq (f_retxQueued f)\<rparr>)"

definition ClearQueuedRetransmission :: "int \<Rightarrow> flow \<Rightarrow> flow" where
  "ClearQueuedRetransmission seq f = clearQueuedRetransmissionLocked seq f"

subsection \<open>Event handlers\<close>

definition decOutstandingPD :: "flow \<Rightarrow> flow" where
  "decOutstandingPD f =
    (if f_OutstandingPD f > 0 then f\<lparr>f_OutstandingPD := f_OutstandingPD f - 1\<rparr> else f)"

definition OnNack :: "string \<Rightarrow> flow \<Rightarrow> flow" where
  "OnNack nm f =
    (if f_Mode f = ModePD then decOutstandingPD (f\<lparr>f_pendingSends := gm_del nm (f_pendingSends f)\<rparr>) else f)"

definition checkPdState :: "config \<Rightarrow> flow \<Rightarrow> flow" where
  "checkPdState cfg f =
    (if f_StopPD f \<and> f_OutstandingPD f = 0 then
       (if \<not> f_PdFinished f
        then f\<lparr>f_PdFinished := True, f_pdFinishCalls := f_pdFinishCalls f + 1\<rparr> else f)
     else if f_IsPaused f \<and> f_OutstandingPD f = 0 then
       let f1 = f\<lparr>f_CurrentTier := f_CurrentTier f + 1, f_IsPaused := False\<rparr>
       in updatePDBaseName cfg (f_CurrentTier f1) f1
     else f)"

definition OnTimeout :: "config \<Rightarrow> string \<Rightarrow> flow \<Rightarrow> flow" where
  "OnTimeout cfg nm f =
    (let f1 = f\<lparr>f_pendingSends := gm_del nm (f_pendingSends f)\<rparr>
     in if f_Mode f1 = ModePD then checkPdState cfg (decOutstandingPD f1) else f1)"

definition onDataPD :: "config \<Rightarrow> string \<Rightarrow> string \<Rightarrow> flow \<Rightarrow> flow \<times> bool" where
  "onDataPD cfg payload dataName f =
    (let f1 = decOutstandingPD (f\<lparr>f_pendingSends := gm_del dataName (f_pendingSends f)\<rparr>)
     in case deserializeDiscovery payload of
          None \<Rightarrow> (f1, False)
        | Some pkt \<Rightarrow>
            let f2 = (if disc_NodeConverged pkt \<and> \<not> f_StopPD f1 then f1\<lparr>f_StopPD := True\<rparr>
                      else if disc_TierConverged pkt \<and> \<not> f_IsPaused f1 then f1\<lparr>f_IsPaused := True\<rparr>
                      else f1);
                f3 = (if f_IsPaused f2 \<and> \<not> disc_TierConverged pkt then
                        let f' = f2\<lparr>f_IsPaused := False\<rparr>
                        in if \<not> f_HasRehearsed f'
                           then f'\<lparr>f_HasRehearsed := True, f_RehearsalCount := PD_REHEARSAL_BUDGET\<rparr> else f'
                      else f2)
            in (checkPdState cfg f3, True))"

definition recordMilestones :: "config \<Rightarrow> gotime \<Rightarrow> flow \<Rightarrow> flow" where
  "recordMilestones cfg receiveTime f =
    (let n = f_pktsReceivedTotal f;
         f1 = (if isZero (f_p95Time f) \<and> n \<ge> consumerMilestoneTarget (cfg_MAX_PACKETS cfg) (95 / 100)
               then f\<lparr>f_p95Time := receiveTime\<rparr> else f);
         f2 = (if isZero (f_p99Time f1) \<and> n \<ge> consumerMilestoneTarget (cfg_MAX_PACKETS cfg) (99 / 100)
               then f1\<lparr>f_p99Time := receiveTime\<rparr> else f1)
     in if isZero (f_p100Time f2) \<and> n \<ge> cfg_MAX_PACKETS cfg then f2\<lparr>f_p100Time := receiveTime\<rparr> else f2)"

definition onDataDT :: "config \<Rightarrow> string \<Rightarrow> string \<Rightarrow> gotime \<Rightarrow> PendingSend \<Rightarrow> flow \<Rightarrow> flow \<times> bool" where
  "onDataDT cfg payload dataName receiveTime pending f =
    (let seqNum = extractSeqNum dataName in
     if seqNum \<le> 0 \<or> gm_bool (f_receivedSeqs f) seqNum then
       (if gm_bool (f_receivedSeqs f) seqNum
        then clearQueuedRetransmissionLocked seqNum (f\<lparr>f_pendingSends := gm_del dataName (f_pendingSends f)\<rparr>)
        else f, False)
     else case deserializeData payload of
       None \<Rightarrow> (f, False)
     | Some pkt \<Rightarrow>
         let f1 = f\<lparr>f_shadowLoss := recordDataLocked seqNum receiveTime (f_shadowLoss f),
                    f_pendingSends := gm_del dataName (f_pendingSends f),
                    f_firstDtDataLogged := True\<rparr>;
             rttVal = of_int (time_sub receiveTime (p_SendTime pending)) / 1000000;
             f2 = f1\<lparr>f_endTime := receiveTime,
                     f_receivedSeqs := gm_put seqNum True (f_receivedSeqs f1),
                     f_totalBytes := f_totalBytes f1 + int (length payload),
                     f_pktsReceivedTotal := f_pktsReceivedTotal f1 + 1\<rparr>;
             f3 = recordMilestones cfg receiveTime f2;
             f4 = (if f_pktsReceivedTotal f3 \<ge> cfg_MAX_PACKETS cfg
                   then f3\<lparr>f_isFinished := True, f_doneCloses := f_doneCloses f3 + 1\<rparr> else f3);
             f5 = clearQueuedRetransmissionLocked seqNum f4;
             rttValid = (\<not> p_Retransmitted pending);
             r1 = (if rttValid then updateRTT receiveTime rttVal (f_rate f5) else f_rate f5);
             r2 = updateRateControl cfg receiveTime (int (length payload)) rttVal rttValid
                    (float64_of_bits (dp_InterestQsf pkt)) (float64_of_bits (dp_DataQsf pkt)) r1
         in (f5\<lparr>f_rate := growCongestionWindowOnAckLocked cfg r2\<rparr>, True))"

definition OnData :: "config \<Rightarrow> string \<Rightarrow> string \<Rightarrow> gotime \<Rightarrow> flow \<Rightarrow> flow \<times> bool" where
  "OnData cfg payload dataName receiveTime f =
    (case map_of (f_pendingSends f) dataName of
       None \<Rightarrow> (f, False)
     | Some pending \<Rightarrow>
         if f_isFinished f then (f\<lparr>f_pendingSends := gm_del dataName (f_pendingSends f)\<rparr>, False)
         else (case f_Mode f of
                 ModePD \<Rightarrow> onDataPD cfg payload dataName f
               | ModeDT \<Rightarrow> onDataDT cfg payload dataName receiveTime pending f))"

subsection \<open>Shadow loss and rate control on the flow\<close>

definition RecordShadowRTO :: "int \<Rightarrow> gotime \<Rightarrow> flow \<Rightarrow> flow" where
  "RecordShadowRTO sequence expiredAt f =
    (if f_Mode f \<noteq> ModeDT then f
     else f\<lparr>f_shadowLoss := recordRTOLocked sequence expiredAt (f_shadowLoss f)\<rparr>)"

definition installShadowAttemptAndClearQueued :: "int \<Rightarrow> u64 \<Rightarrow> bool \<Rightarrow> flow \<Rightarrow> flow" where
  "installShadowAttemptAndClearQueued sequence generation isFastRepair f =
    (let f1 = (if f_Mode f = ModeDT then
                 let d1 = recordAttemptLocked sequence generation (f_shadowLoss f);
                     d2 = (if isFastRepair then recordFastRepairSendLocked sequence d1 else d1)
                 in f\<lparr>f_shadowLoss := d2\<rparr>
               else f)
     in clearQueuedRetransmissionLocked sequence f1)"

text \<open>The locked part of \<open>runShadowLossScan\<close>: the candidates it hands to the controller.\<close>

definition shadowLossScanLocked :: "gotime \<Rightarrow> flow \<Rightarrow> flow \<times> shadowFastRepairCandidate list" where
  "shadowLossScanLocked now f =
    (if f_Mode f \<noteq> ModeDT \<or> f_isFinished f then (f, [])
     else let (d, candidates) = scanIfDueLocked now (f_shadowLoss f)
          in (f\<lparr>f_shadowLoss := d\<rparr>, candidates))"

definition GetShadowLossSummaries :: "gotime \<Rightarrow> flow \<Rightarrow> flow \<times> ShadowLossSummary list" where
  "GetShadowLossSummaries now f =
    (let (d, s) = summariesLocked now (f_shadowLoss f) in (f\<lparr>f_shadowLoss := d\<rparr>, s))"

definition GetShadowFastRepairSummary :: "flow \<Rightarrow> flow \<times> ShadowFastRepairSummary" where
  "GetShadowFastRepairSummary f =
    (let (d, s) = fastRepairSummaryLocked (f_shadowLoss f) in (f\<lparr>f_shadowLoss := d\<rparr>, s))"

definition flowPeriodicRateControl :: "config \<Rightarrow> gotime \<Rightarrow> flow \<Rightarrow> flow" where
  "flowPeriodicRateControl cfg now f =
    f\<lparr>f_rate := runPeriodicRateControl cfg (f_Mode f) (f_isFinished f) now (f_rate f)\<rparr>"

definition flowCheckNoFreshSamples :: "config \<Rightarrow> gotime \<Rightarrow> flow \<Rightarrow> flow" where
  "flowCheckNoFreshSamples cfg now f =
    f\<lparr>f_rate := checkRateControlNoFreshSamples cfg (f_Mode f) (f_isFinished f) now (f_rate f)\<rparr>"

end
