(* ===== verification/Flow_Invariant.thy ===== *)
theory Flow_Invariant
  imports Flow_Context
begin

text \<open>
  Invariants of one flow.  Interest names carry their sequence number; in data transmission the
  pending names, the received sequences and the retransmission markers fit together, so every
  sequence is counted once and completion means that all of them arrived; path discovery keeps
  its counters in step.  The flow is a guarded system over the calls its environment makes.
\<close>

subsection \<open>Interest names\<close>

lemma textWriteTo_legal: "list_all isLegalCompText s \<Longrightarrow> textWriteTo s = s"
  by (induction s) (auto simp: textWriteTo_def textWriteByte_def)

lemma legal_digit: "isDigit c \<Longrightarrow> isLegalCompText c"
  by (auto simp: isDigit_def isLegalCompText_def)

lemma legal_seq: "list_all isLegalCompText (''seq-'' @ itoa i)"
proof -
  have "list_all isLegalCompText (formatUint n)" for n
    using formatUint_digits [of n] by (auto simp: list_all_iff legal_digit)
  moreover have "list_all isLegalCompText ''seq-''" by code_simp
  moreover have "isLegalCompText CHR ''-''" by code_simp
  ultimately show ?thesis by (simp add: itoa_def)
qed

lemma map_of_conv_generic: "map_of compConvByType TypeGenericNameComponent = None"
  by code_simp

lemma write_seqComponent:
  "componentWriteTo da (seqComponent seq) = (if da then ''8='' else []) @ ''seq-'' @ itoa seq"
proof -
  have "unat (0x08 :: u64) = 8" "formatUint 8 = ''8''" by code_simp+
  then show ?thesis
    using textWriteTo_legal [OF legal_seq [of seq]] map_of_conv_generic
    by (simp add: componentWriteTo_def seqComponent_def newStringComponent_def)
qed

lemma last_split_seqName:
  "last (split CHR ''/'' (seqName cfg base seq)) = componentWriteTo (cfg_disableAltUri cfg) (seqComponent seq)"
proof -
  let ?n = "base @ [seqComponent seq]" and ?da = "cfg_disableAltUri cfg"
  have ne: "componentWriteTo ?da (seqComponent seq) \<noteq> []" by (simp add: write_seqComponent)
  have "nameWrite ?da ?n \<noteq> []" using nameWrite_slash [of ?n ?da] by auto
  then show ?thesis
    using split_nameWrite [of ?n ?da] ne
    by (simp add: seqName_def nameString_def nameAppend_def Let_def)
qed

lemma seq_of_name:
  assumes "- (2 ^ 63) \<le> seq" and "seq < 2 ^ 63"
  shows "extractSeqNum (seqName cfg base seq) = (if cfg_disableAltUri cfg then -1 else seq)"
proof (cases "cfg_disableAltUri cfg")
  case True
  then show ?thesis
    by (simp add: extractSeqNum_def last_split_seqName write_seqComponent hasPrefix_def)
next
  case False
  then show ?thesis
    using assms atoi_itoa [of seq]
    by (simp add: extractSeqNum_def last_split_seqName write_seqComponent hasPrefix_def trimPrefix_def)
qed

text \<open>
  (C22) Reading the sequence number back from the Interest name of a sequence gives that sequence,
  for every flow and every 64-bit number, in the default URI format; with \<open>NDN_NAME_ALT_URI=0\<close>
  the last component prints as \<open>8=seq-N\<close>, which \<open>extractSeqNum\<close> never recognises.
\<close>

theorem extractSeqNum_interestNameForSeq:
  assumes "- (2 ^ 63) \<le> seq" and "seq < 2 ^ 63"
  shows "extractSeqNum (interestNameForSeq cfg f seq) = (if cfg_disableAltUri cfg then -1 else seq)"
  unfolding interestNameForSeq_def by (rule seq_of_name [OF assms])

theorem extractSeqNum_interestNameForSeq_witness:
  "extractSeqNum (interestNameForSeq demoConfig (NewFlowContext demoConfig 5 ''/pro0app'') 17) = 17"
proof -
  have "\<not> cfg_disableAltUri demoConfig" by (simp add: demoConfig_def)
  then show ?thesis
    using extractSeqNum_interestNameForSeq [of 17 demoConfig "NewFlowContext demoConfig 5 ''/pro0app''"] by simp
qed

subsection \<open>Data transmission\<close>

definition flow_cfg_ok :: "config \<Rightarrow> bool" where
  "flow_cfg_ok cfg \<longleftrightarrow> cfg_ok cfg \<and> \<not> cfg_disableAltUri cfg \<and> cfg_MAX_PACKETS cfg < 2 ^ 63"

definition seq_range :: "config \<Rightarrow> int set" where
  "seq_range cfg = {1..cfg_MAX_PACKETS cfg}"

definition pendingSeqs :: "config \<Rightarrow> name \<Rightarrow> (string, PendingSend) gomap \<Rightarrow> int set" where
  "pendingSeqs cfg base m = {seq \<in> seq_range cfg. map_of m (seqName cfg base seq) \<noteq> None}"

definition pendingSet :: "config \<Rightarrow> flow \<Rightarrow> int set" where
  "pendingSet cfg f = pendingSeqs cfg (f_baseName f) (f_pendingSends f)"

definition receivedSet :: "flow \<Rightarrow> int set" where
  "receivedSet f = dom (map_of (f_receivedSeqs f))"

lemma finite_seq_range [simp]: "finite (seq_range cfg)"
  by (simp add: seq_range_def)

lemma card_seq_range: "cfg_ok cfg \<Longrightarrow> int (card (seq_range cfg)) = cfg_MAX_PACKETS cfg"
  by (simp add: seq_range_def cfg_ok_def)

lemma finite_pendingSeqs [simp]: "finite (pendingSeqs cfg base m)"
  by (rule finite_subset [of _ "seq_range cfg"]) (auto simp: pendingSeqs_def)

lemma seq_of_range:
  assumes "flow_cfg_ok cfg" and "seq \<in> seq_range cfg"
  shows "extractSeqNum (seqName cfg base seq) = seq"
proof -
  have "\<not> cfg_disableAltUri cfg" "- (2 ^ 63) \<le> seq" "seq < 2 ^ 63"
    using assms unfolding flow_cfg_ok_def seq_range_def by auto
  then show ?thesis by (simp only: seq_of_name if_False)
qed

lemma seqName_inj: "flow_cfg_ok cfg \<Longrightarrow> inj_on (seqName cfg base) (seq_range cfg)"
  by (rule inj_on_inverseI [of _ extractSeqNum]) (rule seq_of_range)

lemma pendingSeqs_put:
  assumes "flow_cfg_ok cfg" "seq \<in> seq_range cfg"
  shows "pendingSeqs cfg base (gm_put (seqName cfg base seq) e m) = insert seq (pendingSeqs cfg base m)"
  using assms inj_onD [OF seqName_inj [OF assms(1), of base]] by (auto simp: pendingSeqs_def split: if_splits)

lemma pendingSeqs_del:
  assumes "flow_cfg_ok cfg" "seq \<in> seq_range cfg"
  shows "pendingSeqs cfg base (gm_del (seqName cfg base seq) m) = pendingSeqs cfg base m - {seq}"
  using assms inj_onD [OF seqName_inj [OF assms(1), of base]] by (auto simp: pendingSeqs_def split: if_splits)

text \<open>The books of a transfer: who is pending, who arrived, and whether it is complete.\<close>

definition ledger ::
  "config \<Rightarrow> name \<Rightarrow> (string, PendingSend) gomap \<Rightarrow> (int, bool) gomap \<Rightarrow> int \<Rightarrow> bool \<Rightarrow> nat \<Rightarrow> bool" where
  "ledger cfg base pend recv n finished closes \<longleftrightarrow>
     gm_ok pend \<and> gm_ok recv \<and> list_all snd recv
     \<and> dom (map_of pend) = seqName cfg base ` pendingSeqs cfg base pend
     \<and> pendingSeqs cfg base pend \<inter> dom (map_of recv) = {}
     \<and> dom (map_of recv) \<subseteq> seq_range cfg
     \<and> n = int (length recv)
     \<and> (finished \<longleftrightarrow> n \<ge> cfg_MAX_PACKETS cfg)
     \<and> closes = (if finished then 1 else 0)"

definition ledger_ok :: "config \<Rightarrow> flow \<Rightarrow> bool" where
  "ledger_ok cfg f \<longleftrightarrow> ledger cfg (f_baseName f) (f_pendingSends f) (f_receivedSeqs f)
     (f_pktsReceivedTotal f) (f_isFinished f) (f_doneCloses f)"

text \<open>The retransmission queue: every marked sequence is still in the live part of the queue.\<close>

definition retx :: "config \<Rightarrow> (int, bool) gomap \<Rightarrow> int list \<Rightarrow> nat \<Rightarrow> bool" where
  "retx cfg marks queue head \<longleftrightarrow> gm_ok marks \<and> list_all snd marks \<and> head \<le> length queue
     \<and> dom (map_of marks) \<subseteq> set (drop head queue) \<and> dom (map_of marks) \<subseteq> seq_range cfg"

definition retx_ok :: "config \<Rightarrow> flow \<Rightarrow> bool" where
  "retx_ok cfg f \<longleftrightarrow> retx cfg (f_retxQueued f) (f_retxQueue f) (f_retxHead f)"

definition retxMarked :: "flow \<Rightarrow> int set" where
  "retxMarked f = dom (map_of (f_retxQueued f))"

definition inflight_ok :: "flow \<Rightarrow> bool" where
  "inflight_ok f \<longleftrightarrow> int (length (f_pendingSends f)) \<le> f_maxInflight f \<and> f_maxInflight f \<le> DT_INFLIGHT_MAX_PACKETS"

definition dt_inv :: "config \<Rightarrow> flow \<Rightarrow> bool" where
  "dt_inv cfg f \<longleftrightarrow> f_Mode f = ModeDT \<and> ledger_ok cfg f \<and> retx_ok cfg f \<and> inflight_ok f
     \<and> rate_inv cfg (f_rate f) \<and> shadow_inv (f_shadowLoss f)"

lemma gm_bool_all_true: "list_all snd m \<Longrightarrow> gm_bool m k \<longleftrightarrow> k \<in> dom (map_of m)"
  by (induction m) (auto simp: gm_get0_def)

lemma list_all_snd_put: "list_all snd m \<Longrightarrow> list_all snd (gm_put k True m)"
  unfolding gm_put_def by (induction m) auto

lemma list_all_snd_del: "list_all snd m \<Longrightarrow> list_all snd (gm_del k m)"
  by (auto simp: list_all_iff set_gm_del)

lemma ledger_received_total: "ledger cfg base pend recv n fin c \<Longrightarrow> n = int (card (dom (map_of recv)))"
  using gm.len_card [of recv] by (simp add: ledger_def)

lemma ledger_finished:
  assumes "cfg_ok cfg" "ledger cfg base pend recv n True c"
  shows "dom (map_of recv) = seq_range cfg" "pendingSeqs cfg base pend = {}" "pend = []" "n = cfg_MAX_PACKETS cfg"
proof -
  have n: "n = int (card (dom (map_of recv)))" and sub: "dom (map_of recv) \<subseteq> seq_range cfg"
    and "cfg_MAX_PACKETS cfg \<le> n" and disj: "pendingSeqs cfg base pend \<inter> dom (map_of recv) = {}"
    and dom: "dom (map_of pend) = seqName cfg base ` pendingSeqs cfg base pend"
    using assms(2) ledger_received_total [OF assms(2)] by (auto simp: ledger_def)
  then have "card (seq_range cfg) \<le> card (dom (map_of recv))"
    using card_seq_range [OF assms(1)] by linarith
  then show eq: "dom (map_of recv) = seq_range cfg"
    using sub by (intro card_seteq) simp_all
  then show "n = cfg_MAX_PACKETS cfg" using n card_seq_range [OF assms(1)] by simp
  show empty: "pendingSeqs cfg base pend = {}"
    using disj eq by (auto simp: pendingSeqs_def)
  then show "pend = []" using dom by simp
qed

lemma ledger_put:
  assumes "flow_cfg_ok cfg" "seq \<in> seq_range cfg" "seq \<notin> dom (map_of recv)" "ledger cfg base pend recv n fin c"
  shows "ledger cfg base (gm_put (seqName cfg base seq) e pend) recv n fin c"
  using assms pendingSeqs_put [OF assms(1,2), of base e pend] gm.dom_put [of "seqName cfg base seq" e pend]
  by (simp add: ledger_def)

lemma ledger_del:
  assumes "flow_cfg_ok cfg" "seq \<in> seq_range cfg" "ledger cfg base pend recv n fin c"
  shows "ledger cfg base (gm_del (seqName cfg base seq) pend) recv n fin c"
proof -
  have "dom (map_of (gm_del (seqName cfg base seq) pend))
      = seqName cfg base ` pendingSeqs cfg base pend - seqName cfg base ` {seq}"
    using assms(3) gm.dom_del [of "seqName cfg base seq" pend] by (simp add: ledger_def)
  also have "\<dots> = seqName cfg base ` (pendingSeqs cfg base pend - {seq})"
    by (rule inj_on_image_set_diff [OF seqName_inj [OF assms(1)], symmetric])
      (use assms(2) in \<open>auto simp: pendingSeqs_def\<close>)
  finally show ?thesis
    using assms(3) unfolding ledger_def pendingSeqs_del [OF assms(1,2)] by blast
qed

lemma ledger_key:
  assumes "flow_cfg_ok cfg" "ledger cfg base pend recv n fin c" "map_of pend nm = Some p"
  obtains seq where "seq \<in> seq_range cfg" "nm = seqName cfg base seq" "extractSeqNum nm = seq"
    "seq \<in> pendingSeqs cfg base pend" "seq \<notin> dom (map_of recv)"
proof -
  have "nm \<in> seqName cfg base ` pendingSeqs cfg base pend"
    using assms(2,3) by (auto simp: ledger_def)
  then obtain seq where seq: "seq \<in> pendingSeqs cfg base pend" "nm = seqName cfg base seq" by auto
  then have "seq \<in> seq_range cfg" by (simp add: pendingSeqs_def)
  moreover have "seq \<notin> dom (map_of recv)" using assms(2) seq(1) by (auto simp: ledger_def)
  ultimately show thesis using that seq seq_of_range [OF assms(1)] by blast
qed

subsection \<open>Every operation keeps the invariant\<close>

lemmas dt_parts = dt_inv_def ledger_ok_def retx_ok_def inflight_ok_def

lemma dt_inv_initDTState:
  assumes "flow_cfg_ok cfg" "f_doneCloses f = 0"
  shows "dt_inv cfg (initDTState cfg now (f\<lparr>f_Mode := ModeDT\<rparr>))"
  using assms rate_inv_init [of cfg now]
  by (auto simp: dt_parts initDTState_def flow_cfg_ok_def ledger_def retx_def pendingSeqs_def cfg_ok_def
      DT_INFLIGHT_MAX_PACKETS_def)

lemma length_pending:
  assumes "flow_cfg_ok cfg" "ledger cfg base pend recv n fin c"
  shows "length pend = card (pendingSeqs cfg base pend)"
proof -
  have "length pend = card (dom (map_of pend))" using assms(2) gm.len_card [of pend] by (simp add: ledger_def)
  also have "\<dots> = card (seqName cfg base ` pendingSeqs cfg base pend)" using assms(2) by (simp add: ledger_def)
  also have "\<dots> = card (pendingSeqs cfg base pend)"
    using seqName_inj [OF assms(1)] by (intro card_image) (auto simp: inj_on_def pendingSeqs_def)
  finally show ?thesis .
qed

text \<open>A send the loop makes: a new sequence under the window, or one that is already pending.\<close>

definition send_allowed :: "config \<Rightarrow> int \<Rightarrow> flow \<Rightarrow> bool" where
  "send_allowed cfg seq f \<longleftrightarrow> seq \<in> seq_range cfg
     \<and> (seq \<in> pendingSet cfg f \<or> CanSendNewDT cfg f \<or> f_isFinished f \<or> seq \<in> receivedSet f)"

lemma dt_inv_RecordInterestSend:
  assumes cfg: "flow_cfg_ok cfg" and inv: "dt_inv cfg f" and ok: "send_allowed cfg seq f"
  shows "dt_inv cfg (fst (RecordInterestSend (interestNameForSeq cfg f seq) seq t rt f))"
proof (cases "f_isFinished f \<or> gm_bool (f_receivedSeqs f) seq")
  case True
  then show ?thesis using inv by (simp add: RecordInterestSend_def dt_inv_def Let_def)
next
  case False
  let ?nm = "seqName cfg (f_baseName f) seq"
  define e where "e = (case map_of (f_pendingSends f) ?nm of
      None \<Rightarrow> \<lparr>p_SendTime = t, p_Retransmitted = rt\<rparr>
    | Some entry \<Rightarrow> if rt then entry\<lparr>p_Retransmitted := True\<rparr> else \<lparr>p_SendTime = t, p_Retransmitted = False\<rparr>)"
  have led: "ledger cfg (f_baseName f) (f_pendingSends f) (f_receivedSeqs f) (f_pktsReceivedTotal f)
      (f_isFinished f) (f_doneCloses f)"
    and infl: "int (length (f_pendingSends f)) \<le> f_maxInflight f" "f_maxInflight f \<le> DT_INFLIGHT_MAX_PACKETS"
    and rate: "rate_inv cfg (f_rate f)" and sh: "shadow_inv (f_shadowLoss f)" and mode: "f_Mode f = ModeDT"
    using inv by (auto simp: dt_parts)
  have notrecv: "seq \<notin> dom (map_of (f_receivedSeqs f))"
    using False led gm_bool_all_true [of "f_receivedSeqs f" seq] by (simp add: ledger_def)
  have led': "ledger cfg (f_baseName f) (gm_put ?nm e (f_pendingSends f)) (f_receivedSeqs f) (f_pktsReceivedTotal f)
      (f_isFinished f) (f_doneCloses f)"
    using cfg ok notrecv led by (intro ledger_put) (auto simp: send_allowed_def)
  have len: "int (length (gm_put ?nm e (f_pendingSends f))) \<le> DT_INFLIGHT_MAX_PACKETS"
  proof (cases "map_of (f_pendingSends f) ?nm = None")
    case True
    then have "CanSendNewDT cfg f"
      using ok False notrecv by (auto simp: send_allowed_def pendingSet_def pendingSeqs_def receivedSet_def)
    then have "int (length (f_pendingSends f)) < dtInflightLimitLocked cfg (f_rate f)"
      by (auto simp: CanSendNewDT_def split: if_splits)
    then show ?thesis
      using led True gm.len_put [of "f_pendingSends f" ?nm e] dtInflightLimitLocked_bounds(2) [of cfg "f_rate f"]
      by (simp add: ledger_def)
  next
    case False
    then show ?thesis using led infl gm.len_put [of "f_pendingSends f" ?nm e] by (auto simp: ledger_def)
  qed
  have rate': "rate_inv cfg ((f_rate f)\<lparr>r_interestsSentInPeriod := r_interestsSentInPeriod (f_rate f) + 1\<rparr>)"
    using rate by (simp add: rate_inv_def cwnd_ok_def)
  show ?thesis
    using False mode led' len infl rate' sh inv shadow_inv_FreshSend [OF sh] shadow_inv_RecoverySend [OF sh]
    by (simp add: RecordInterestSend_def Let_def e_def [symmetric] interestNameForSeq_def dt_parts)
qed

lemma itoa_eqD: "itoa i = itoa j \<Longrightarrow> i = j"
proof -
  assume eq: "itoa i = itoa j"
  have inj: "formatUint m = formatUint n \<Longrightarrow> m = n" for m n
    using decValue_formatUint by metis
  have "hd (formatUint n) \<noteq> CHR ''-''" for n
    using formatUint_hd [of n] by (auto simp: isDigit_def)
  then have minus: "formatUint n \<noteq> CHR ''-'' # cs" for n cs
    by (metis list.sel(1))
  show "i = j"
    using eq minus [of "nat i"] minus [of "nat j", THEN not_sym] inj [of "nat i" "nat j"] inj [of "nat (- i)" "nat (- j)"]
    by (auto simp: itoa_def split: if_splits)
qed

lemma seqName_eqD: "seqName cfg base i = seqName cfg base j \<Longrightarrow> i = j"
  using last_split_seqName [of cfg base i] last_split_seqName [of cfg base j]
  by (auto simp: write_seqComponent dest: itoa_eqD split: if_splits)

lemma retx_put:
  "retx cfg m q h \<Longrightarrow> s \<in> seq_range cfg \<Longrightarrow> retx cfg (gm_put s True m) (q @ [s]) h"
  using gm.dom_put [of s True m] list_all_snd_put by (auto simp: retx_def)

lemma retx_del: "retx cfg m q h \<Longrightarrow> retx cfg (gm_del s m) q h"
  using gm.dom_del [of s m] list_all_snd_del by (auto simp: retx_def)

lemma dt_inv_queue:
  assumes "flow_cfg_ok cfg" "dt_inv cfg f"
  shows "dt_inv cfg (fst (queueRetransmissionLocked cfg seq f))"
proof (cases "map_of (f_pendingSends f) (seqName cfg (f_baseName f) seq)")
  case None
  then show ?thesis using assms by (simp add: queueRetransmissionLocked_def interestNameForSeq_def)
next
  case (Some p)
  show ?thesis
  proof (cases "snd (queueRetransmissionLocked cfg seq f)")
    case True
    have led: "ledger cfg (f_baseName f) (f_pendingSends f) (f_receivedSeqs f) (f_pktsReceivedTotal f)
        (f_isFinished f) (f_doneCloses f)"
      using assms(2) by (simp add: dt_parts)
    have "seq \<in> seq_range cfg"
      using Some by (rule ledger_key [OF assms(1) led]) (auto dest: seqName_eqD)
    then show ?thesis
      using assms True retx_put [of cfg "f_retxQueued f" "f_retxQueue f" "f_retxHead f" seq]
      by (auto simp: queueRetransmissionLocked_def dt_parts split: if_splits)
  next
    case False
    then show ?thesis using assms by (auto simp: queueRetransmissionLocked_def split: if_splits)
  qed
qed

subsection \<open>The retransmission queue\<close>

definition retxLive :: "flow \<Rightarrow> int list" where
  "retxLive f = drop (f_retxHead f) (f_retxQueue f)"

definition sendable :: "config \<Rightarrow> flow \<Rightarrow> int \<Rightarrow> bool" where
  "sendable cfg f seq \<longleftrightarrow> gm_bool (f_retxQueued f) seq \<and> f_Mode f = ModeDT \<and> \<not> f_isFinished f
     \<and> map_of (f_pendingSends f) (interestNameForSeq cfg f seq) \<noteq> None"

declare popLoop.simps [simp del]

lemma compact_live [simp]: "retxLive (compactRetransmissionQueueLocked f) = retxLive f"
  by (simp add: compactRetransmissionQueueLocked_def retxLive_def)

lemma compact_frame:
  obtains q h where "compactRetransmissionQueueLocked f = f\<lparr>f_retxQueue := q, f_retxHead := h\<rparr>"
proof (cases "f_retxHead f = 0 \<or> f_retxHead f < length (f_retxQueue f) div 2 \<and> f_retxHead f < 1024")
  case True
  then have "compactRetransmissionQueueLocked f = f"
    unfolding compactRetransmissionQueueLocked_def by (elim disjE conjE) simp_all
  also have "\<dots> = f\<lparr>f_retxQueue := f_retxQueue f, f_retxHead := f_retxHead f\<rparr>" by simp
  finally show thesis by (rule that)
next
  case False
  then have "compactRetransmissionQueueLocked f = f\<lparr>f_retxQueue := drop (f_retxHead f) (f_retxQueue f), f_retxHead := 0\<rparr>"
    unfolding compactRetransmissionQueueLocked_def by (simp only: de_Morgan_disj if_False)
  then show thesis by (rule that)
qed

text \<open>The two ways one iteration of the loop consumes the head slot.\<close>

definition popSkip :: "flow \<Rightarrow> flow" where
  "popSkip f = f\<lparr>f_retxQueue := (f_retxQueue f)[f_retxHead f := 0], f_retxHead := f_retxHead f + 1\<rparr>"

definition popTake :: "flow \<Rightarrow> flow" where
  "popTake f = (popSkip f)\<lparr>f_retxQueued := gm_del (f_retxQueue f ! f_retxHead f) (f_retxQueued f)\<rparr>"

lemma popLoop_end: "\<not> f_retxHead f < length (f_retxQueue f) \<Longrightarrow> popLoop cfg f = (f\<lparr>f_retxQueue := [], f_retxHead := 0\<rparr>, None)"
  by (subst popLoop.simps) simp

lemma popLoop_step:
  assumes "f_retxHead f < length (f_retxQueue f)"
  shows "popLoop cfg f =
    (if \<not> gm_bool (f_retxQueued f) (f_retxQueue f ! f_retxHead f) then popLoop cfg (popSkip f)
     else if sendable cfg f (f_retxQueue f ! f_retxHead f)
     then (compactRetransmissionQueueLocked (popTake f), Some (f_retxQueue f ! f_retxHead f))
     else popLoop cfg (popTake f))"
  unfolding popSkip_def popTake_def sendable_def interestNameForSeq_def
  by (subst popLoop.simps) (use assms in \<open>simp add: Let_def interestNameForSeq_def\<close>)

lemma popLoop_induct [case_names empty skip send drop]:
  assumes "\<And>f. \<not> f_retxHead f < length (f_retxQueue f) \<Longrightarrow> P f"
    and "\<And>f. f_retxHead f < length (f_retxQueue f) \<Longrightarrow> \<not> gm_bool (f_retxQueued f) (f_retxQueue f ! f_retxHead f)
          \<Longrightarrow> P (popSkip f) \<Longrightarrow> P f"
    and "\<And>f. f_retxHead f < length (f_retxQueue f) \<Longrightarrow> sendable cfg f (f_retxQueue f ! f_retxHead f) \<Longrightarrow> P f"
    and "\<And>f. f_retxHead f < length (f_retxQueue f) \<Longrightarrow> gm_bool (f_retxQueued f) (f_retxQueue f ! f_retxHead f)
          \<Longrightarrow> \<not> sendable cfg f (f_retxQueue f ! f_retxHead f) \<Longrightarrow> P (popTake f) \<Longrightarrow> P f"
  shows "P f"
proof (induction "length (f_retxQueue f) - f_retxHead f" arbitrary: f rule: less_induct)
  case less
  show ?case
  proof (cases "f_retxHead f < length (f_retxQueue f)")
    case True
    then have "P (popSkip f)" "P (popTake f)"
      by (auto intro!: less simp: popSkip_def popTake_def)
    then show ?thesis using True assms by blast
  qed (rule assms(1))
qed

lemma retxLive_step:
  assumes "f_retxHead f < length (f_retxQueue f)"
  shows "retxLive f = f_retxQueue f ! f_retxHead f # retxLive (popSkip f)" "retxLive (popTake f) = retxLive (popSkip f)"
  using assms by (simp_all add: retxLive_def popSkip_def popTake_def Cons_nth_drop_Suc)

lemma popLoop_find: "snd (popLoop cfg f) = find (sendable cfg f) (retxLive f)"
proof (induction f rule: popLoop_induct [where cfg = cfg])
  case (empty f)
  then show ?case by (simp add: popLoop_end retxLive_def)
next
  case (skip f)
  have "sendable cfg (popSkip f) = sendable cfg f"
    by (simp add: sendable_def interestNameForSeq_def fun_eq_iff popSkip_def)
  then show ?case using skip by (simp add: popLoop_step retxLive_step sendable_def [of cfg f "f_retxQueue f ! f_retxHead f"])
next
  case (send f)
  then show ?case by (simp add: popLoop_step retxLive_step sendable_def [of cfg f "f_retxQueue f ! f_retxHead f"])
next
  case (drop f)
  then have "sendable cfg (popTake f) = sendable cfg f"
    by (auto simp: sendable_def interestNameForSeq_def fun_eq_iff popTake_def popSkip_def)
  then show ?case using drop by (simp add: popLoop_step retxLive_step)
qed

lemma popLoop_frame:
  obtains q h m where "fst (popLoop cfg f) = f\<lparr>f_retxQueue := q, f_retxHead := h, f_retxQueued := m\<rparr>"
proof -
  have "\<exists>q h m. fst (popLoop cfg f) = f\<lparr>f_retxQueue := q, f_retxHead := h, f_retxQueued := m\<rparr>"
  proof (induction f rule: popLoop_induct [where cfg = cfg])
    case (empty f)
    then show ?case by (intro exI [of _ "[]"] exI [of _ 0] exI [of _ "f_retxQueued f"]) (simp add: popLoop_end)
  next
    case (skip f)
    then show ?case by (auto simp: popLoop_step popSkip_def)
  next
    case (send f)
    moreover obtain q h where "compactRetransmissionQueueLocked (popTake f) = (popTake f)\<lparr>f_retxQueue := q, f_retxHead := h\<rparr>"
      by (rule compact_frame)
    ultimately show ?case
      by (intro exI [of _ q] exI [of _ h] exI [of _ "f_retxQueued (popTake f)"])
        (simp add: popLoop_step popTake_def popSkip_def sendable_def)
  next
    case (drop f)
    then show ?case by (auto simp: popLoop_step popTake_def popSkip_def)
  qed
  then show thesis using that by blast
qed

lemma retx_skip:
  assumes "retx_ok cfg f" "f_retxHead f < length (f_retxQueue f)"
  shows "\<not> gm_bool (f_retxQueued f) (f_retxQueue f ! f_retxHead f) \<Longrightarrow> retx_ok cfg (popSkip f)"
    and "retx_ok cfg (popTake f)"
  using assms gm.dom_del [of "f_retxQueue f ! f_retxHead f" "f_retxQueued f"]
    gm_bool_all_true [of "f_retxQueued f" "f_retxQueue f ! f_retxHead f"] list_all_snd_del [of "f_retxQueued f"]
  by (auto simp: retx_ok_def retx_def popSkip_def popTake_def Cons_nth_drop_Suc [symmetric, of "f_retxHead f" "f_retxQueue f"])

lemma retx_compact: "retx_ok cfg f \<Longrightarrow> retx_ok cfg (compactRetransmissionQueueLocked f)"
  by (auto simp: compactRetransmissionQueueLocked_def retx_ok_def retx_def)

lemma retxMarked_steps [simp]:
  "retxMarked (compactRetransmissionQueueLocked f) = retxMarked f" "retxMarked (popSkip f) = retxMarked f"
  "retxMarked (popTake f) = retxMarked f - {f_retxQueue f ! f_retxHead f}"
  using gm.dom_del [of "f_retxQueue f ! f_retxHead f" "f_retxQueued f"]
  by (simp_all add: compactRetransmissionQueueLocked_def retxMarked_def popSkip_def popTake_def)

lemma popLoop_retx:
  "retx_ok cfg f \<Longrightarrow> retx_ok cfg (fst (popLoop cfg f))
    \<and> retxMarked (fst (popLoop cfg f)) \<subseteq> retxMarked f - set_option (snd (popLoop cfg f))
    \<and> (snd (popLoop cfg f) = None \<longrightarrow> f_retxQueued (fst (popLoop cfg f)) = [])"
proof (induction f rule: popLoop_induct [where cfg = cfg])
  case (empty f)
  then have "f_retxQueued f = []" by (simp add: retx_ok_def retx_def)
  then show ?case using empty by (simp add: popLoop_end retx_ok_def retx_def retxMarked_def)
next
  case (skip f)
  then show ?case using retx_skip(1) [of cfg f] by (simp add: popLoop_step)
next
  case (send f)
  then show ?case using retx_skip(2) [of cfg f] retx_compact [of cfg "popTake f"]
    by (simp add: popLoop_step sendable_def)
next
  case (drop f)
  then show ?case using retx_skip(2) [of cfg f] by (auto simp: popLoop_step)
qed

text \<open>
  (C21) \<open>PopRetransmission\<close> returns the first sequence of the queue that is still marked and still
  pending, skipping every stale entry, and clears its marker; when it returns nothing, no marker is
  left, so the send loop that asked \<open>HasQueuedRetransmission\<close> cannot spin.
\<close>

theorem PopRetransmission_spec:
  assumes "retx_ok cfg f"
  shows "snd (PopRetransmission cfg f) = find (sendable cfg f) (retxLive f)
    \<and> retx_ok cfg (fst (PopRetransmission cfg f))
    \<and> retxMarked (fst (PopRetransmission cfg f)) \<subseteq> retxMarked f - set_option (snd (PopRetransmission cfg f))
    \<and> (snd (PopRetransmission cfg f) = None \<longrightarrow> \<not> HasQueuedRetransmission (fst (PopRetransmission cfg f)))"
  using popLoop_retx [OF assms] popLoop_find [of cfg f]
  by (simp add: PopRetransmission_def HasQueuedRetransmission_def)

theorem PopRetransmission_spec_witness:
  "snd (PopRetransmission demoConfig ((NewFlowContext demoConfig 5 ''/pro0app'')
      \<lparr>f_retxQueue := [1, 2], f_retxQueued := [(2, True)],
       f_pendingSends := [(interestNameForSeq demoConfig (NewFlowContext demoConfig 5 ''/pro0app'') 2,
                           \<lparr>p_SendTime = 10, p_Retransmitted = False\<rparr>)]\<rparr>)) = Some 2"
  (is "snd (PopRetransmission _ ?f) = _")
proof -
  have "retx_ok demoConfig ?f"
    by (simp add: retx_ok_def retx_def gm_ok_def retxLive_def retxMarked_def seq_range_def NewFlowContext_def initDTState_def demoConfig_def)
  then have "snd (PopRetransmission demoConfig ?f) = find (sendable demoConfig ?f) (retxLive ?f)"
    using PopRetransmission_spec [of demoConfig ?f] by blast
  then show ?thesis
    by (simp add: sendable_def retxLive_def gm_get0_def interestNameForSeq_def NewFlowContext_def initDTState_def demoConfig_def)
qed

lemma dt_inv_pop: "dt_inv cfg f \<Longrightarrow> dt_inv cfg (fst (PopRetransmission cfg f))"
proof -
  assume inv: "dt_inv cfg f"
  obtain q h m where eq: "fst (popLoop cfg f) = f\<lparr>f_retxQueue := q, f_retxHead := h, f_retxQueued := m\<rparr>"
    by (rule popLoop_frame)
  have "retx_ok cfg (fst (popLoop cfg f))" using popLoop_retx inv by (simp add: dt_inv_def)
  then show ?thesis
    using inv unfolding PopRetransmission_def eq by (simp add: dt_parts)
qed

lemma dt_inv_clear: "dt_inv cfg f \<Longrightarrow> dt_inv cfg (clearQueuedRetransmissionLocked seq f)"
  using retx_del by (simp add: clearQueuedRetransmissionLocked_def dt_parts)

lemma dt_inv_shadow: "dt_inv cfg f \<Longrightarrow> shadow_inv d \<Longrightarrow> dt_inv cfg (f\<lparr>f_shadowLoss := d\<rparr>)"
  by (simp add: dt_parts)

lemma dt_inv_rate: "dt_inv cfg f \<Longrightarrow> rate_inv cfg r \<Longrightarrow> dt_inv cfg (f\<lparr>f_rate := r\<rparr>)"
  by (simp add: dt_parts)

lemma dt_invD: "dt_inv cfg f \<Longrightarrow> rate_inv cfg (f_rate f)" "dt_inv cfg f \<Longrightarrow> shadow_inv (f_shadowLoss f)"
  by (simp_all add: dt_inv_def)

lemma dt_inv_QueueRetransmission:
  "flow_cfg_ok cfg \<Longrightarrow> dt_inv cfg f \<Longrightarrow> dt_inv cfg (fst (QueueRetransmission cfg seq f))"
  by (simp add: QueueRetransmission_def dt_inv_queue)

lemma dt_inv_queueShadowFastRepair:
  assumes "flow_cfg_ok cfg" "dt_inv cfg f"
  shows "dt_inv cfg (fst (queueShadowFastRepair cfg c f))"
proof -
  have recorded: "dt_inv cfg (recordShadowFastRepairOutcome c outcome g)" if "dt_inv cfg g" for outcome g
    unfolding recordShadowFastRepairOutcome_def
    using that by (intro dt_inv_shadow shadow_inv_QueueOutcome) (auto dest: dt_invD)
  show ?thesis
    using assms dt_inv_queue [OF assms, of "cand_Sequence c"]
    by (auto simp: queueShadowFastRepair_def Let_def intro!: recorded split: prod.splits)
qed

lemma dt_inv_install:
  assumes "dt_inv cfg f"
  shows "dt_inv cfg (installShadowAttemptAndClearQueued seq gen fast f)"
proof -
  have "shadow_inv (recordAttemptLocked seq gen (f_shadowLoss f))"
    using assms by (intro shadow_inv_Attempt) (rule dt_invD)
  then show ?thesis
    using assms unfolding installShadowAttemptAndClearQueued_def Let_def
    by (auto intro!: dt_inv_clear dt_inv_shadow shadow_inv_FastRepairSend)
qed

lemma dt_inv_RecordShadowRTO: "dt_inv cfg f \<Longrightarrow> dt_inv cfg (RecordShadowRTO seq t f)"
  unfolding RecordShadowRTO_def by (auto intro!: dt_inv_shadow shadow_inv_RTO dest: dt_invD)

lemma dt_inv_scan: "dt_inv cfg f \<Longrightarrow> dt_inv cfg (fst (shadowLossScanLocked now f))"
  using shadow_inv_ScanIfDue [of "f_shadowLoss f" now]
  by (auto simp: shadowLossScanLocked_def intro!: dt_inv_shadow dest: dt_invD split: prod.splits)

lemma dt_inv_OnDTRTO: "dt_inv cfg f \<Longrightarrow> dt_inv cfg (fst (OnDTRTO f))"
  by (simp add: OnDTRTO_def dt_parts)

lemma dt_inv_periodic: "dt_inv cfg f \<Longrightarrow> dt_inv cfg (flowPeriodicRateControl cfg now f)"
  unfolding flowPeriodicRateControl_def by (auto intro!: dt_inv_rate rate_inv_runPeriodic dest: dt_invD)

lemma dt_inv_noFresh: "dt_inv cfg f \<Longrightarrow> dt_inv cfg (flowCheckNoFreshSamples cfg now f)"
  unfolding flowCheckNoFreshSamples_def by (auto intro!: dt_inv_rate rate_inv_noFresh dest: dt_invD)

subsection \<open>Data arrival\<close>

lemma ledger_receive:
  assumes cfg: "flow_cfg_ok cfg" and led: "ledger cfg base pend recv n False c"
    and seq: "seq \<in> seq_range cfg" "seq \<notin> dom (map_of recv)"
  shows "ledger cfg base (gm_del (seqName cfg base seq) pend) (gm_put seq True recv) (n + 1)
    (n + 1 \<ge> cfg_MAX_PACKETS cfg) (if n + 1 \<ge> cfg_MAX_PACKETS cfg then c + 1 else c)"
proof -
  have del: "ledger cfg base (gm_del (seqName cfg base seq) pend) recv n False c"
    by (rule ledger_del [OF cfg seq(1) led])
  have "length (gm_put seq True recv) = Suc (length recv)"
    using led seq(2) gm.len_put [of recv seq True] by (auto simp: ledger_def)
  then show ?thesis
    using del seq gm.dom_put [of seq True recv] list_all_snd_put [of recv seq]
    unfolding ledger_def pendingSeqs_del [OF cfg seq(1)] by auto
qed

lemma milestones_frame:
  obtains a b c where "recordMilestones cfg t f = f\<lparr>f_p95Time := a, f_p99Time := b, f_p100Time := c\<rparr>"
proof -
  have "recordMilestones cfg t f = f\<lparr>f_p95Time := f_p95Time (recordMilestones cfg t f),
      f_p99Time := f_p99Time (recordMilestones cfg t f), f_p100Time := f_p100Time (recordMilestones cfg t f)\<rparr>"
    unfolding recordMilestones_def Let_def by simp
  then show thesis by (rule that)
qed

lemma length_gm_del_le: "length (gm_del k m) \<le> length m"
  by (simp add: gm_del_def AList.delete_eq length_filter_le)

text \<open>What accepted Data does to the books, whatever it does to rate control.\<close>

lemma onDataDT_accept:
  assumes "extractSeqNum nm = seq" "0 < seq" "\<not> gm_bool (f_receivedSeqs f) seq" "deserializeData payload = Some pkt"
  obtains q95 q99 q100 where "onDataDT cfg payload nm t p f =
    (f\<lparr>f_shadowLoss := recordDataLocked seq t (f_shadowLoss f),
       f_pendingSends := gm_del nm (f_pendingSends f), f_firstDtDataLogged := True, f_endTime := t,
       f_receivedSeqs := gm_put seq True (f_receivedSeqs f),
       f_totalBytes := f_totalBytes f + int (length payload),
       f_pktsReceivedTotal := f_pktsReceivedTotal f + 1,
       f_p95Time := q95, f_p99Time := q99, f_p100Time := q100,
       f_isFinished := (if f_pktsReceivedTotal f + 1 \<ge> cfg_MAX_PACKETS cfg then True else f_isFinished f),
       f_doneCloses := (if f_pktsReceivedTotal f + 1 \<ge> cfg_MAX_PACKETS cfg then f_doneCloses f + 1 else f_doneCloses f),
       f_retxQueued := gm_del seq (f_retxQueued f),
       f_rate := growCongestionWindowOnAckLocked cfg
         (updateRateControl cfg t (int (length payload)) (of_int (time_sub t (p_SendTime p)) / 1000000)
            (\<not> p_Retransmitted p) (float64_of_bits (dp_InterestQsf pkt)) (float64_of_bits (dp_DataQsf pkt))
            (if p_Retransmitted p then f_rate f
             else updateRTT t (of_int (time_sub t (p_SendTime p)) / 1000000) (f_rate f)))\<rparr>, True)"
proof -
  let ?f2 = "f\<lparr>f_shadowLoss := recordDataLocked seq t (f_shadowLoss f),
      f_pendingSends := gm_del nm (f_pendingSends f), f_firstDtDataLogged := True, f_endTime := t,
      f_receivedSeqs := gm_put seq True (f_receivedSeqs f), f_totalBytes := f_totalBytes f + int (length payload),
      f_pktsReceivedTotal := f_pktsReceivedTotal f + 1\<rparr>"
  obtain a b c where ms: "recordMilestones cfg t ?f2 = ?f2\<lparr>f_p95Time := a, f_p99Time := b, f_p100Time := c\<rparr>"
    by (rule milestones_frame)
  show thesis
    by (rule that [of c b a])
      (use assms ms in \<open>simp add: onDataDT_def Let_def clearQueuedRetransmissionLocked_def\<close>)
qed

lemma dt_inv_OnData:
  assumes cfg: "flow_cfg_ok cfg" and inv: "dt_inv cfg f"
  shows "dt_inv cfg (fst (OnData cfg payload nm t f))"
proof (cases "map_of (f_pendingSends f) nm")
  case None
  then show ?thesis using inv by (simp add: OnData_def)
next
  case (Some p)
  have led: "ledger cfg (f_baseName f) (f_pendingSends f) (f_receivedSeqs f) (f_pktsReceivedTotal f)
      (f_isFinished f) (f_doneCloses f)" and mode: "f_Mode f = ModeDT"
    using inv by (simp_all add: dt_parts)
  obtain seq where seq: "seq \<in> seq_range cfg" "nm = seqName cfg (f_baseName f) seq" "extractSeqNum nm = seq"
    "seq \<notin> dom (map_of (f_receivedSeqs f))"
    using ledger_key [OF cfg led Some] by metis
  have unfin: "\<not> f_isFinished f"
  proof
    assume "f_isFinished f"
    with led have fin: "ledger cfg (f_baseName f) (f_pendingSends f) (f_receivedSeqs f) (f_pktsReceivedTotal f)
        True (f_doneCloses f)" by simp
    have "f_pendingSends f = []"
      by (rule ledger_finished(3) [OF _ fin]) (use cfg in \<open>simp add: flow_cfg_ok_def\<close>)
    then show False using Some by simp
  qed
  have pos: "0 < seq" and new: "\<not> gm_bool (f_receivedSeqs f) seq"
    using seq led gm_bool_all_true [of "f_receivedSeqs f" seq] by (auto simp: seq_range_def ledger_def)
  show ?thesis
  proof (cases "deserializeData payload")
    case None
    then show ?thesis using Some unfin mode pos new seq inv by (simp add: OnData_def onDataDT_def)
  next
    case (Some pkt)
    have led': "ledger cfg (f_baseName f) (gm_del nm (f_pendingSends f)) (gm_put seq True (f_receivedSeqs f))
        (f_pktsReceivedTotal f + 1) (f_pktsReceivedTotal f + 1 \<ge> cfg_MAX_PACKETS cfg)
        (if f_pktsReceivedTotal f + 1 \<ge> cfg_MAX_PACKETS cfg then f_doneCloses f + 1 else f_doneCloses f)"
      unfolding seq(2) by (rule ledger_receive) (use cfg led unfin seq in auto)
    have len: "int (length (gm_del nm (f_pendingSends f))) \<le> f_maxInflight f"
      using inv length_gm_del_le [of nm "f_pendingSends f"] by (simp add: dt_parts)
    have rate: "rate_inv cfg (f_rate f)" and sh: "shadow_inv (recordDataLocked seq t (f_shadowLoss f))"
      using inv by (auto simp: dt_inv_def intro: shadow_inv_Data)
    have eq: "fst (OnData cfg payload nm t f) = fst (onDataDT cfg payload nm t p f)"
      using \<open>map_of (f_pendingSends f) nm = Some p\<close> unfin mode by (simp add: OnData_def)
    show ?thesis
      unfolding eq
      by (rule onDataDT_accept [OF seq(3) pos new Some, of cfg t p],
          cases "f_pktsReceivedTotal f + 1 \<ge> cfg_MAX_PACKETS cfg")
        (use inv led' len rate sh unfin retx_del [of cfg "f_retxQueued f" "f_retxQueue f" "f_retxHead f" seq] in
          \<open>simp_all add: dt_parts rate_inv_grow rate_inv_updateRateControl rate_inv_updateRTT\<close>)
  qed
qed

end
