(* ===== verification/Flow_System.thy ===== *)
theory Flow_System
  imports Flow_Invariant
begin

text \<open>
  One flow as a guarded system: the calls the send loop, the retransmission controller, the
  engine's callbacks and the rate-control loop make on it are the events, in any order, and the
  flow invariant holds in every state they reach.  The properties of a whole transfer follow:
  every sequence is counted once, completion means all of them arrived, the in-flight bound, Karn's
  rule, and the way a final Nack stalls path discovery.
\<close>

subsection \<open>Path discovery\<close>

definition pd_inv :: "flow \<Rightarrow> bool" where
  "pd_inv f \<longleftrightarrow> f_Mode f = ModePD \<and> gm_ok (f_pendingSends f) \<and> 0 \<le> f_OutstandingPD f
     \<and> 0 \<le> f_RehearsalCount f \<and> f_RehearsalCount f \<le> PD_REHEARSAL_BUDGET
     \<and> (\<not> f_HasRehearsed f \<longrightarrow> f_RehearsalCount f = 0)
     \<and> (f_PdFinished f \<longrightarrow> f_StopPD f) \<and> \<not> f_isFinished f \<and> f_doneCloses f = 0"

definition flow_inv :: "config \<Rightarrow> flow \<Rightarrow> bool" where
  "flow_inv cfg f \<longleftrightarrow> f_pdFinishCalls f = (if f_PdFinished f then 1 else 0)
     \<and> (case f_Mode f of ModePD \<Rightarrow> pd_inv f | ModeDT \<Rightarrow> dt_inv cfg f)"

subsection \<open>Events\<close>

datatype flowEvent =
    SendInterest int gotime bool
  | QueueRetx int
  | PopRetx
  | InstallAttempt int u64 bool
  | DataArrives string string gotime
  | NackArrives string
  | RtoTimeout string
  | DtRto
  | ShadowRto int gotime
  | ShadowScan gotime
  | FastRepair shadowFastRepairCandidate
  | FastRepairOutcome shadowFastRepairCandidate shadowFastRepairQueueOutcome
  | PeriodicControl gotime
  | NoFreshCheck gotime
  | UseRehearsal
  | StartDT gotime

text \<open>\<open>UseRehearsal\<close> is the send loop taking one packet of the rehearsal budget.\<close>

fun flowStep :: "config \<Rightarrow> flow \<Rightarrow> flowEvent \<Rightarrow> flow" where
  "flowStep cfg f (SendInterest seq t rt) = fst (RecordInterestSend (interestNameForSeq cfg f seq) seq t rt f)"
| "flowStep cfg f (QueueRetx seq) = fst (QueueRetransmission cfg seq f)"
| "flowStep cfg f PopRetx = fst (PopRetransmission cfg f)"
| "flowStep cfg f (InstallAttempt seq gen fast) = installShadowAttemptAndClearQueued seq gen fast f"
| "flowStep cfg f (DataArrives payload nm t) = fst (OnData cfg payload nm t f)"
| "flowStep cfg f (NackArrives nm) = OnNack nm f"
| "flowStep cfg f (RtoTimeout nm) = OnTimeout cfg nm f"
| "flowStep cfg f DtRto = fst (OnDTRTO f)"
| "flowStep cfg f (ShadowRto seq t) = RecordShadowRTO seq t f"
| "flowStep cfg f (ShadowScan t) = fst (shadowLossScanLocked t f)"
| "flowStep cfg f (FastRepair c) = fst (queueShadowFastRepair cfg c f)"
| "flowStep cfg f (FastRepairOutcome c outcome) = recordShadowFastRepairOutcome c outcome f"
| "flowStep cfg f (PeriodicControl t) = flowPeriodicRateControl cfg t f"
| "flowStep cfg f (NoFreshCheck t) = flowCheckNoFreshSamples cfg t f"
| "flowStep cfg f UseRehearsal = f\<lparr>f_RehearsalCount := f_RehearsalCount f - 1\<rparr>"
| "flowStep cfg f (StartDT t) = startDataTransmission cfg t f"

fun flowEnabled :: "config \<Rightarrow> flow \<Rightarrow> flowEvent \<Rightarrow> bool" where
  "flowEnabled cfg f (SendInterest seq t rt) = (f_Mode f = ModeDT \<longrightarrow> send_allowed cfg seq f)"
| "flowEnabled cfg f UseRehearsal = (f_Mode f = ModePD \<and> 0 < f_RehearsalCount f)"
| "flowEnabled cfg f (StartDT t) = (f_Mode f = ModePD)"
| "flowEnabled cfg f _ = True"

subsection \<open>The invariant is kept\<close>

lemma ledger_del_any:
  assumes "flow_cfg_ok cfg" "ledger cfg base pend recv n fin c"
  shows "ledger cfg base (gm_del nm pend) recv n fin c"
proof (cases "map_of pend nm")
  case None
  then have "gm_del nm pend = pend"
    unfolding gm_del_def by (induction pend) (auto split: if_splits)
  then show ?thesis using assms(2) by simp
next
  case (Some p)
  obtain seq where "seq \<in> seq_range cfg" "nm = seqName cfg base seq"
    using ledger_key [OF assms Some] by metis
  then show ?thesis using ledger_del [OF assms(1) _ assms(2)] by blast
qed

lemma dt_inv_OnTimeout: "flow_cfg_ok cfg \<Longrightarrow> dt_inv cfg f \<Longrightarrow> dt_inv cfg (OnTimeout cfg nm f)"
  using length_gm_del_le [of nm "f_pendingSends f"] ledger_del_any [of cfg]
  by (auto simp: OnTimeout_def dt_parts Let_def)

lemma pd_inv_dec: "pd_inv f \<Longrightarrow> pd_inv (decOutstandingPD f)"
  by (simp add: pd_inv_def decOutstandingPD_def)

lemma pd_inv_pending: "pd_inv f \<Longrightarrow> gm_ok m \<Longrightarrow> pd_inv (f\<lparr>f_pendingSends := m\<rparr>)"
  by (simp add: pd_inv_def)

lemma pd_inv_pendingD: "pd_inv f \<Longrightarrow> gm_ok (f_pendingSends f)"
  by (simp add: pd_inv_def)

lemma pd_inv_check: "pd_inv f \<Longrightarrow> pd_inv (checkPdState cfg f)"
  by (simp add: pd_inv_def checkPdState_def updatePDBaseName_def Let_def)

lemma pd_inv_onDataPD: "pd_inv f \<Longrightarrow> pd_inv (fst (onDataPD cfg payload nm f))"
proof -
  assume inv: "pd_inv f"
  define f1 where "f1 = decOutstandingPD (f\<lparr>f_pendingSends := gm_del nm (f_pendingSends f)\<rparr>)"
  have f1: "pd_inv f1"
    unfolding f1_def using inv by (intro pd_inv_dec pd_inv_pending) (auto dest: pd_inv_pendingD)
  have stop: "pd_inv g \<Longrightarrow> pd_inv (g\<lparr>f_StopPD := True\<rparr>)"
    and pause: "pd_inv g \<Longrightarrow> pd_inv (g\<lparr>f_IsPaused := b\<rparr>)"
    and rehearse: "pd_inv g \<Longrightarrow> pd_inv (g\<lparr>f_HasRehearsed := True, f_RehearsalCount := PD_REHEARSAL_BUDGET\<rparr>)" for g b
    by (simp_all add: pd_inv_def PD_REHEARSAL_BUDGET_def)
  show ?thesis
    unfolding onDataPD_def f1_def [symmetric] Let_def
    using f1 by (auto intro!: pd_inv_check stop pause rehearse split: option.split)
qed

lemma pdFinishCalls_check:
  "f_pdFinishCalls f = (if f_PdFinished f then 1 else 0)
   \<Longrightarrow> f_pdFinishCalls (checkPdState cfg f) = (if f_PdFinished (checkPdState cfg f) then 1 else 0)"
  by (simp add: checkPdState_def updatePDBaseName_def Let_def)

text \<open>Only \<open>checkPdState\<close> writes the two discovery-completion fields.\<close>

definition pd_done :: "flow \<Rightarrow> bool \<times> nat" where
  "pd_done f = (f_PdFinished f, f_pdFinishCalls f)"

lemma pd_done_frames [simp]:
  "pd_done (fst (RecordInterestSend nm seq t rt f)) = pd_done f"
  "pd_done (fst (queueRetransmissionLocked cfg seq f)) = pd_done f"
  "pd_done (fst (QueueRetransmission cfg seq f)) = pd_done f"
  "pd_done (clearQueuedRetransmissionLocked seq f) = pd_done f"
  "pd_done (OnNack nm f) = pd_done f"
  "pd_done (fst (OnDTRTO f)) = pd_done f"
  "pd_done (RecordShadowRTO seq t f) = pd_done f"
  "pd_done (recordShadowFastRepairOutcome c oc f) = pd_done f"
  "pd_done (flowPeriodicRateControl cfg t f) = pd_done f"
  "pd_done (flowCheckNoFreshSamples cfg t f) = pd_done f"
  "pd_done (startDataTransmission cfg t f) = pd_done f"
  "pd_done (decOutstandingPD f) = pd_done f"
  by (simp_all add: pd_done_def RecordInterestSend_def Let_def queueRetransmissionLocked_def QueueRetransmission_def
      clearQueuedRetransmissionLocked_def OnNack_def decOutstandingPD_def OnDTRTO_def RecordShadowRTO_def
      recordShadowFastRepairOutcome_def flowPeriodicRateControl_def flowCheckNoFreshSamples_def
      startDataTransmission_def initDTState_def)

lemma pd_done_install [simp]: "pd_done (installShadowAttemptAndClearQueued seq gen fast f) = pd_done f"
  by (simp add: installShadowAttemptAndClearQueued_def Let_def) (simp add: pd_done_def)

lemma pd_done_scan [simp]: "pd_done (fst (shadowLossScanLocked now f)) = pd_done f"
  by (simp add: shadowLossScanLocked_def pd_done_def split: prod.split)

lemma pd_done_fastRepair [simp]: "pd_done (fst (queueShadowFastRepair cfg c f)) = pd_done f"
  by (simp add: queueShadowFastRepair_def Let_def case_prod_beta)

lemma pd_done_pop [simp]: "pd_done (fst (PopRetransmission cfg f)) = pd_done f"
  unfolding PopRetransmission_def by (rule popLoop_frame [of cfg f]) (simp add: pd_done_def)

lemma pd_done_pending [simp]: "pd_done (f\<lparr>f_pendingSends := m\<rparr>) = pd_done f"
  by (simp add: pd_done_def)

lemma pd_done_onDataDT [simp]: "pd_done (fst (onDataDT cfg payload nm t p f)) = pd_done f"
proof (cases "extractSeqNum nm \<le> 0 \<or> gm_bool (f_receivedSeqs f) (extractSeqNum nm)")
  case True
  then show ?thesis by (simp add: onDataDT_def Let_def)
next
  case new: False
  show ?thesis
  proof (cases "deserializeData payload")
    case None
    then show ?thesis using new by (simp add: onDataDT_def Let_def)
  next
    case (Some pkt)
    have pos: "0 < extractSeqNum nm" and fresh: "\<not> gm_bool (f_receivedSeqs f) (extractSeqNum nm)" using new by simp_all
    show ?thesis by (rule onDataDT_accept [OF refl pos fresh Some, of cfg t p]) (simp add: pd_done_def)
  qed
qed

lemma flow_inv_iff:
  "flow_inv cfg f \<longleftrightarrow> pd_done f \<in> {(True, 1), (False, 0)}
     \<and> (case f_Mode f of ModePD \<Rightarrow> pd_inv f | ModeDT \<Rightarrow> dt_inv cfg f)"
  by (auto simp: flow_inv_def pd_done_def)

lemma flow_inv_DT_step:
  assumes "flow_cfg_ok cfg" "flow_inv cfg f" "f_Mode f = ModeDT" "flowEnabled cfg f e"
  shows "flow_inv cfg (flowStep cfg f e)"
proof -
  have inv: "dt_inv cfg f" and fin: "pd_done f \<in> {(True, 1), (False, 0)}"
    using assms(2,3) by (auto simp: flow_inv_iff)
  have dt: "dt_inv cfg (flowStep cfg f e)"
    using assms inv
    by (cases e) (auto simp: dt_inv_RecordInterestSend dt_inv_QueueRetransmission dt_inv_pop dt_inv_install
        dt_inv_OnData OnNack_def dt_inv_OnTimeout dt_inv_OnDTRTO dt_inv_RecordShadowRTO dt_inv_scan
        dt_inv_queueShadowFastRepair dt_inv_periodic dt_inv_noFresh recordShadowFastRepairOutcome_def
        intro!: dt_inv_shadow shadow_inv_QueueOutcome dest: dt_invD)
  have "pd_done (flowStep cfg f e) = pd_done f"
  proof (cases e)
    case (DataArrives payload nm t)
    then show ?thesis
      using assms(3) by (auto simp: OnData_def split: option.split)
  next
    case (RtoTimeout nm)
    then show ?thesis using assms(3) by (simp add: OnTimeout_def pd_done_def)
  next
    case UseRehearsal
    then show ?thesis by (simp add: pd_done_def)
  qed simp_all
  then show ?thesis using dt fin by (auto simp: flow_inv_iff dt_inv_def)
qed

lemma dt_inv_startDT:
  "flow_cfg_ok cfg \<Longrightarrow> f_doneCloses f = 0 \<Longrightarrow> dt_inv cfg (startDataTransmission cfg t f)"
  using dt_inv_initDTState [of cfg f t] by (simp add: startDataTransmission_def dt_parts)

lemma pd_inv_fields:
  "pd_inv f \<Longrightarrow> pd_inv (f\<lparr>f_rate := r\<rparr>)" "pd_inv f \<Longrightarrow> pd_inv (f\<lparr>f_shadowLoss := d\<rparr>)"
  "pd_inv f \<Longrightarrow> pd_inv (f\<lparr>f_timeoutEvents := k\<rparr>)" "pd_inv f \<Longrightarrow> pd_inv (f\<lparr>f_retxQueued := m\<rparr>)"
  "pd_inv f \<Longrightarrow> pd_inv (f\<lparr>f_retxQueue := q, f_retxHead := h, f_retxQueued := m\<rparr>)"
  by (simp_all add: pd_inv_def)

lemma pd_mode: "pd_inv f \<Longrightarrow> f_Mode f = ModePD"
  by (simp add: pd_inv_def)

lemma pd_inv_send: "pd_inv f \<Longrightarrow> pd_inv (fst (RecordInterestSend nm seq t rt f))"
  by (auto simp: RecordInterestSend_def pd_inv_def Let_def)

lemma pd_inv_OnData: "pd_inv f \<Longrightarrow> pd_inv (fst (OnData cfg payload nm t f))"
  using pd_inv_onDataPD [of f cfg payload nm] pd_inv_pending [of f "gm_del nm (f_pendingSends f)"]
  by (auto simp: OnData_def pd_mode pd_inv_pendingD split: option.split)

lemma pd_inv_pop: "pd_inv f \<Longrightarrow> pd_inv (fst (PopRetransmission cfg f))"
  unfolding PopRetransmission_def by (rule popLoop_frame [of cfg f]) (simp add: pd_inv_fields)

lemma pd_inv_OnNack: "pd_inv f \<Longrightarrow> pd_inv (OnNack nm f)"
  by (auto simp: OnNack_def intro!: pd_inv_dec pd_inv_pending dest: pd_inv_pendingD)

lemma pd_inv_OnTimeout: "pd_inv f \<Longrightarrow> pd_inv (OnTimeout cfg nm f)"
  by (auto simp: OnTimeout_def pd_mode Let_def intro!: pd_inv_check pd_inv_dec pd_inv_pending dest: pd_inv_pendingD)

lemma pd_step:
  assumes "pd_inv f" "flowEnabled cfg f e" "\<nexists>t. e = StartDT t"
  shows "pd_inv (flowStep cfg f e)"
proof (cases e)
  case UseRehearsal
  then show ?thesis using assms by (auto simp: pd_inv_def)
qed (use assms pd_mode [OF assms(1)] in \<open>auto simp: pd_inv_send pd_inv_OnData pd_inv_pop pd_inv_OnNack pd_inv_OnTimeout
      QueueRetransmission_def queueRetransmissionLocked_def installShadowAttemptAndClearQueued_def
      clearQueuedRetransmissionLocked_def OnDTRTO_def RecordShadowRTO_def shadowLossScanLocked_def
      queueShadowFastRepair_def recordShadowFastRepairOutcome_def flowPeriodicRateControl_def
      flowCheckNoFreshSamples_def pd_inv_fields Let_def\<close>)

definition pd_count :: "flow \<Rightarrow> bool" where
  "pd_count f \<longleftrightarrow> pd_done f \<in> {(True, 1), (False, 0)}"

lemma pd_count_check: "pd_count f \<Longrightarrow> pd_count (checkPdState cfg f)"
  unfolding pd_count_def pd_done_def checkPdState_def updatePDBaseName_def Let_def by auto

lemma pd_count_fields:
  "pd_count f \<Longrightarrow> pd_count (f\<lparr>f_StopPD := b\<rparr>)" "pd_count f \<Longrightarrow> pd_count (f\<lparr>f_IsPaused := b\<rparr>)"
  "pd_count f \<Longrightarrow> pd_count (f\<lparr>f_HasRehearsed := b\<rparr>)"
  "pd_count f \<Longrightarrow> pd_count (f\<lparr>f_RehearsalCount := k\<rparr>)"
  by (simp_all add: pd_count_def pd_done_def)

lemma pd_count_onDataPD:
  assumes "pd_count f"
  shows "pd_count (fst (onDataPD cfg payload nm f))"
proof -
  define f1 where "f1 = decOutstandingPD (f\<lparr>f_pendingSends := gm_del nm (f_pendingSends f)\<rparr>)"
  have "pd_count f1" using assms by (simp add: f1_def pd_count_def)
  then show ?thesis
    unfolding onDataPD_def f1_def [symmetric] Let_def
    by (auto intro!: pd_count_check pd_count_fields split: option.split)
qed

lemma pd_count_step:
  assumes "pd_count f" "f_Mode f = ModePD"
  shows "pd_count (flowStep cfg f e)"
proof (cases e)
  case (DataArrives payload nm t)
  then show ?thesis
    using assms pd_count_onDataPD [OF assms(1)] by (simp add: OnData_def pd_count_def split: option.split)
next
  case (RtoTimeout nm)
  have "pd_count (decOutstandingPD (f\<lparr>f_pendingSends := gm_del nm (f_pendingSends f)\<rparr>))"
    using assms(1) by (simp add: pd_count_def)
  then show ?thesis using assms(2) RtoTimeout by (simp add: OnTimeout_def pd_count_check)
next
  case UseRehearsal
  then show ?thesis using assms(1) by (simp add: pd_count_fields)
qed (use assms(1) in \<open>simp_all add: pd_count_def\<close>)

lemma flow_inv_step:
  assumes "flow_cfg_ok cfg" "flow_inv cfg f" "flowEnabled cfg f e"
  shows "flow_inv cfg (flowStep cfg f e)"
proof (cases "f_Mode f")
  case ModeDT
  then show ?thesis using flow_inv_DT_step assms by blast
next
  case ModePD
  have inv: "pd_inv f" and fin: "pd_count f" using assms(2) ModePD by (auto simp: flow_inv_iff pd_count_def)
  have fin': "pd_count (flowStep cfg f e)" by (rule pd_count_step [OF fin ModePD])
  show ?thesis
  proof (cases "\<exists>t. e = StartDT t")
    case True
    then have "dt_inv cfg (flowStep cfg f e)" using dt_inv_startDT [OF assms(1)] inv by (auto simp: pd_inv_def)
    then show ?thesis using fin' by (auto simp: flow_inv_iff pd_count_def dt_inv_def)
  next
    case False
    then have "pd_inv (flowStep cfg f e)" using pd_step inv assms(3) by blast
    then show ?thesis using fin' by (auto simp: flow_inv_iff pd_count_def pd_mode)
  qed
qed

lemma flow_inv_new: "flow_cfg_ok cfg \<Longrightarrow> flow_inv cfg (NewFlowContext cfg now prefix)"
proof (cases "cfg_initialMode cfg")
  case ModePD
  then show ?thesis
    by (simp add: NewFlowContext_def zeroFlow_def flow_inv_def pd_inv_def updatePDBaseName_def PD_REHEARSAL_BUDGET_def)
next
  case ModeDT
  assume cfg: "flow_cfg_ok cfg"
  have "dt_inv cfg (NewFlowContext cfg now prefix)"
    using ModeDT dt_inv_initDTState [OF cfg, of "zeroFlow now prefix" now]
    by (simp add: NewFlowContext_def zeroFlow_def)
  moreover have "pd_done (NewFlowContext cfg now prefix) = (False, 0)"
    using ModeDT by (simp add: NewFlowContext_def pd_done_def initDTState_def zeroFlow_def)
  ultimately show ?thesis by (simp add: flow_inv_iff dt_inv_def)
qed

interpretation flow: guarded_system
  "\<lambda>f. flow_cfg_ok cfg \<and> (\<exists>now prefix. f = NewFlowContext cfg now prefix)"
  "\<lambda>f e. flow_cfg_ok cfg \<and> flowEnabled cfg f e" "flowStep cfg" "flow_inv cfg" for cfg
  by unfold_locales (auto intro: flow_inv_new flow_inv_step)

lemma enabled_run_conj:
  "c \<Longrightarrow> enabled_run (\<lambda>s e. c \<and> en s e) st s es = enabled_run en st s es"
  by (induction es arbitrary: s) auto

lemma flow_reachable:
  assumes "flow_cfg_ok cfg" "enabled_run (flowEnabled cfg) (flowStep cfg) (NewFlowContext cfg now prefix) es"
  shows "flow_inv cfg (run (flowStep cfg) (NewFlowContext cfg now prefix) es)"
  by (rule flow.run_inv) (use assms in \<open>auto simp: enabled_run_conj\<close>)

subsection \<open>Properties of a transfer\<close>

lemma dt_reachable:
  assumes "flow_cfg_ok cfg" "enabled_run (flowEnabled cfg) (flowStep cfg) (NewFlowContext cfg now prefix) es"
    and "f = run (flowStep cfg) (NewFlowContext cfg now prefix) es" "f_Mode f = ModeDT"
  shows "dt_inv cfg f"
  using flow_reachable [OF assms(1,2)] assms(3,4) by (simp add: flow_inv_def)

text \<open>
  (C1) In every state a flow reaches in data transmission, the received counter is the number of
  distinct sequences received, all of them requested ones; no sequence is both pending and
  received; at most 512 Interests are in flight; and the flow is finished, with its done channel
  closed exactly once, precisely when each of the sequences 1 to \<open>MAX_PACKETS\<close> has arrived, at
  which point nothing is pending.
\<close>

theorem transfer_counts_each_sequence_once:
  assumes "flow_cfg_ok cfg" "enabled_run (flowEnabled cfg) (flowStep cfg) (NewFlowContext cfg now prefix) es"
    and "f = run (flowStep cfg) (NewFlowContext cfg now prefix) es" "f_Mode f = ModeDT"
  shows "f_pktsReceivedTotal f = int (card (receivedSet f))
    \<and> receivedSet f \<subseteq> {1..cfg_MAX_PACKETS cfg} \<and> pendingSet cfg f \<inter> receivedSet f = {}
    \<and> length (f_pendingSends f) = card (pendingSet cfg f) \<and> length (f_pendingSends f) \<le> 512
    \<and> (f_isFinished f \<longleftrightarrow> receivedSet f = {1..cfg_MAX_PACKETS cfg})
    \<and> f_doneCloses f = (if f_isFinished f then 1 else 0)
    \<and> (f_isFinished f \<longrightarrow> f_pendingSends f = [])"
proof -
  have inv: "dt_inv cfg f" by (rule dt_reachable [OF assms])
  then have led: "ledger cfg (f_baseName f) (f_pendingSends f) (f_receivedSeqs f) (f_pktsReceivedTotal f)
      (f_isFinished f) (f_doneCloses f)" and "int (length (f_pendingSends f)) \<le> 512"
    by (simp_all add: dt_parts DT_INFLIGHT_MAX_PACKETS_def)
  have cfg: "cfg_ok cfg" using assms(1) by (simp add: flow_cfg_ok_def)
  have count: "f_pktsReceivedTotal f = int (card (receivedSet f))"
    using ledger_received_total [OF led] by (simp add: receivedSet_def)
  have all: "receivedSet f = {1..cfg_MAX_PACKETS cfg}" "f_pendingSends f = []" if "f_isFinished f"
    using that led ledger_finished [OF cfg, of "f_baseName f" "f_pendingSends f" "f_receivedSeqs f"
        "f_pktsReceivedTotal f" "f_doneCloses f"]
    by (simp_all add: receivedSet_def seq_range_def)
  have "f_isFinished f" if "receivedSet f = {1..cfg_MAX_PACKETS cfg}"
    using that count led cfg by (simp add: ledger_def cfg_ok_def)
  then show ?thesis
    using led count all \<open>int (length (f_pendingSends f)) \<le> 512\<close> length_pending [OF assms(1) led]
    by (auto simp: ledger_def receivedSet_def pendingSet_def seq_range_def)
qed

text \<open>
  (C13) In every state a flow reaches in data transmission, the RTO is between 240 and 3500 ms, the
  congestion window between 16 and 512, the sending rate at least the smaller of the initial and
  the minimum rate, the bandwidth estimate is positive, and the bandwidth cap is only active after
  a full bootstrap and five RTT calibration samples.
\<close>

theorem control_state_bounds:
  assumes "flow_cfg_ok cfg" "enabled_run (flowEnabled cfg) (flowStep cfg) (NewFlowContext cfg now prefix) es"
    and "f = run (flowStep cfg) (NewFlowContext cfg now prefix) es" "f_Mode f = ModeDT"
  shows "240 \<le> GetRTO f \<and> GetRTO f \<le> 3500
    \<and> 16 \<le> r_congestionWindow (f_rate f) \<and> r_congestionWindow (f_rate f) \<le> 512
    \<and> min (cfg_DT_INIT_RATE cfg) (cfg_RC_MIN_RATE cfg) \<le> GetRate f \<and> 0 < r_estimatedBandwidth (f_rate f)
    \<and> (r_bwCapActive (f_rate f) \<longrightarrow> length (r_bwObservations (f_rate f)) = 3
        \<and> r_pktsCalibrated (f_rate f) = 5 \<and> 0 < r_adjustmentPeriod (f_rate f))"
  using dt_reachable [OF assms]
  by (auto simp: dt_inv_def rate_inv_def cwnd_ok_def GetRTO_def GetRate_def rto_defs DT_INFLIGHT_MIN_PACKETS_def
      DT_INFLIGHT_MAX_PACKETS_def consumerBwObsLimit_def)

lemma demo_cfg_ok: "flow_cfg_ok demoConfig"
  by (simp add: flow_cfg_ok_def cfg_ok_def demoConfig_def)

abbreviation demoFlow :: flow where
  "demoFlow \<equiv> NewFlowContext demoConfig 5 ''/pro0app''"

lemma demo_enabled: "enabled_run (flowEnabled demoConfig) (flowStep demoConfig) demoFlow [SendInterest 2 10 False, DtRto]"
  by (simp add: send_allowed_def seq_range_def CanSendNewDT_def NewFlowContext_def initDTState_def demoConfig_def
      initRateState_def dtInflightLimitLocked_def DT_INFLIGHT_MIN_PACKETS_def DT_INFLIGHT_MAX_PACKETS_def Let_def)

lemma demo_mode: "f_Mode (run (flowStep demoConfig) demoFlow [SendInterest 2 10 False, DtRto]) = ModeDT"
  by (simp add: RecordInterestSend_def NewFlowContext_def initDTState_def demoConfig_def Let_def OnDTRTO_def)

theorem transfer_counts_each_sequence_once_witness:
  "f_pktsReceivedTotal (run (flowStep demoConfig) demoFlow [SendInterest 2 10 False, DtRto])
     = int (card (receivedSet (run (flowStep demoConfig) demoFlow [SendInterest 2 10 False, DtRto])))"
  using transfer_counts_each_sequence_once [OF demo_cfg_ok demo_enabled refl demo_mode] by blast

theorem control_state_bounds_witness:
  "240 \<le> GetRTO (run (flowStep demoConfig) demoFlow [SendInterest 2 10 False, DtRto])"
  using control_state_bounds [OF demo_cfg_ok demo_enabled refl demo_mode] by blast

subsection \<open>Karn's rule\<close>

lemma seqName_eq_iff [simp]: "seqName cfg base i = seqName cfg base j \<longleftrightarrow> i = j"
  using seqName_eqD by blast

definition rttState :: "rateState \<Rightarrow> RTTSample list \<times> float64 \<times> float64 \<times> float64" where
  "rttState r = (r_rttHistory r, r_srtt r, r_rttVar r, r_rto r)"

lemma rttState_updateBandwidthEstimate [simp]:
  "rttState (fst (updateBandwidthEstimate cfg now p mr fr r)) = rttState r"
  by (auto simp: rttState_def updateBandwidthEstimate_def recordBwObservation_def Let_def split: prod.splits)

lemma rttState_updateRateControl:
  "rttState (updateRateControl cfg t sz v False iq dq r) = rttState r"
proof -
  have field [simp]: "rttState (x\<lparr>r_lastRateSampleTime := a, r_window := w\<rparr>) = rttState x"
    "rttState (x\<lparr>r_qsfWindowWarmed := b\<rparr>) = rttState x"
    "rttState (trimRateControlWindow cfg t x) = rttState x"
    "rttState (observeInterestQsfBias iq x) = rttState x" for x a w b
    by (simp_all add: rttState_def trimRateControlWindow_eq observeInterestQsfBias_def DT_USE_QSF_BIAS_REMOVAL_def)
  show ?thesis
    unfolding updateRateControl_def Let_def updateQsfBandwidthEstimate_def updateDelayBandwidthEstimate_def
    by (simp split: ConsumerRateControlMode.split)
qed

lemma rttState_grow [simp]: "rttState (growCongestionWindowOnAckLocked cfg r) = rttState r"
  by (subst grow_frame) (simp add: rttState_def)

text \<open>The events after which a pending Interest is no longer waiting for its answer, or was sent afresh.\<close>

fun settles :: "string \<Rightarrow> int \<Rightarrow> flowEvent \<Rightarrow> bool" where
  "settles nm seq (SendInterest s t rt) \<longleftrightarrow> s = seq \<and> \<not> rt"
| "settles nm seq (DataArrives payload n t) \<longleftrightarrow> n = nm"
| "settles nm seq (RtoTimeout n) \<longleftrightarrow> n = nm"
| "settles nm seq _ \<longleftrightarrow> False"

definition entryOf :: "string \<Rightarrow> flow \<Rightarrow> TransmissionMode \<times> name \<times> PendingSend option" where
  "entryOf nm f = (f_Mode f, f_baseName f, map_of (f_pendingSends f) nm)"

lemma entryOf_OnData:
  assumes "n \<noteq> nm" "f_Mode f = ModeDT"
  shows "entryOf nm (fst (OnData cfg payload n t f)) = entryOf nm f"
proof -
  have "entryOf nm (fst (onDataDT cfg payload n t p f)) = entryOf nm f" for p
  proof (cases "deserializeData payload = None \<or> extractSeqNum n \<le> 0 \<or> gm_bool (f_receivedSeqs f) (extractSeqNum n)")
    case True
    then show ?thesis using assms(1) by (auto simp: onDataDT_def Let_def clearQueuedRetransmissionLocked_def entryOf_def)
  next
    case False
    then obtain pkt where "deserializeData payload = Some pkt" "0 < extractSeqNum n" "\<not> gm_bool (f_receivedSeqs f) (extractSeqNum n)"
      by auto
    then show ?thesis
      by (rule_tac onDataDT_accept [OF refl, of n f payload pkt cfg t p]) (use assms(1) in \<open>simp_all add: entryOf_def\<close>)
  qed
  then show ?thesis using assms by (simp add: OnData_def split: option.split) (simp add: entryOf_def)
qed

lemma entryOf_pop: "entryOf nm (fst (PopRetransmission cfg f)) = entryOf nm f"
  unfolding PopRetransmission_def by (rule popLoop_frame [of cfg f]) (simp add: entryOf_def)

lemma entryOf_step:
  assumes "f_Mode f = ModeDT" "flowEnabled cfg f e" "\<not> settles nm seq e" "nm = interestNameForSeq cfg f seq"
    "map_of (f_pendingSends f) nm = Some p" "p_Retransmitted p"
  shows "entryOf nm (flowStep cfg f e) = entryOf nm f"
proof (cases e)
  case (SendInterest s t rt)
  have "p\<lparr>p_Retransmitted := True\<rparr> = p" using assms(6) by simp
  then show ?thesis
    using assms(1-5) SendInterest by (auto simp: entryOf_def RecordInterestSend_def Let_def interestNameForSeq_def)
next
  case (FastRepair c)
  then show ?thesis
    by (simp add: queueShadowFastRepair_def recordShadowFastRepairOutcome_def queueRetransmissionLocked_def Let_def entryOf_def
        split: prod.split)
qed (use assms entryOf_OnData in \<open>simp_all add: entryOf_pop OnNack_def OnTimeout_def OnDTRTO_def RecordShadowRTO_def
      QueueRetransmission_def queueRetransmissionLocked_def installShadowAttemptAndClearQueued_def clearQueuedRetransmissionLocked_def
      shadowLossScanLocked_def recordShadowFastRepairOutcome_def flowPeriodicRateControl_def flowCheckNoFreshSamples_def
      Let_def, simp_all add: entryOf_def split: prod.split\<close>)


lemma entryOf_run:
  assumes "enabled_run (flowEnabled cfg) (flowStep cfg) f es" "\<forall>e \<in> set es. \<not> settles nm seq e"
    and "f_Mode f = ModeDT" "nm = interestNameForSeq cfg f seq" "map_of (f_pendingSends f) nm = Some p" "p_Retransmitted p"
  shows "entryOf nm (run (flowStep cfg) f es) = entryOf nm f"
  using assms
proof (induction es arbitrary: f)
  case (Cons e es)
  have step: "entryOf nm (flowStep cfg f e) = entryOf nm f"
    using Cons.prems by (intro entryOf_step [where seq = seq and p = p]) simp_all
  moreover have "entryOf nm (run (flowStep cfg) (flowStep cfg f e) es) = entryOf nm (flowStep cfg f e)"
    using Cons.prems step by (intro Cons.IH) (simp_all add: entryOf_def interestNameForSeq_def)
  ultimately show ?case by simp
qed simp

lemma marked_Data:
  assumes "f_Mode h = ModeDT" "map_of (f_pendingSends h) nm = Some p" "p_Retransmitted p"
  shows "rttState (f_rate (fst (OnData cfg payload nm t h))) = rttState (f_rate h)"
proof (cases "f_isFinished h \<or> deserializeData payload = None \<or> extractSeqNum nm \<le> 0 \<or> gm_bool (f_receivedSeqs h) (extractSeqNum nm)")
  case True
  then show ?thesis
    using assms by (auto simp: OnData_def onDataDT_def Let_def clearQueuedRetransmissionLocked_def)
next
  case False
  then obtain pkt where new: "deserializeData payload = Some pkt" "0 < extractSeqNum nm" "\<not> gm_bool (f_receivedSeqs h) (extractSeqNum nm)"
    by auto
  have "OnData cfg payload nm t h = onDataDT cfg payload nm t p h" using assms(1,2) False by (simp add: OnData_def)
  then show ?thesis
    by (rule_tac onDataDT_accept [OF refl new(2,3,1), of cfg t p]) (simp add: assms(3) rttState_updateRateControl)
qed

text \<open>A pending sequence is awaited: it has not arrived and the flow is not finished.\<close>

lemma pending_awaited:
  assumes cfg: "flow_cfg_ok cfg" and inv: "dt_inv cfg f" and pend: "map_of (f_pendingSends f) (interestNameForSeq cfg f seq) = Some p"
  shows "extractSeqNum (interestNameForSeq cfg f seq) = seq" "0 < seq" "\<not> gm_bool (f_receivedSeqs f) seq"
    "seq \<notin> receivedSet f" "\<not> f_isFinished f"
proof -
  have led: "ledger cfg (f_baseName f) (f_pendingSends f) (f_receivedSeqs f) (f_pktsReceivedTotal f) (f_isFinished f) (f_doneCloses f)"
    using inv by (simp add: dt_parts)
  from ledger_key [OF cfg led pend] obtain s where s: "s \<in> seq_range cfg" "interestNameForSeq cfg f seq = seqName cfg (f_baseName f) s"
    "extractSeqNum (interestNameForSeq cfg f seq) = s" "s \<notin> dom (map_of (f_receivedSeqs f))" by metis
  then have seq: "s = seq" using seqName_eqD unfolding interestNameForSeq_def by metis
  then show "extractSeqNum (interestNameForSeq cfg f seq) = seq" "0 < seq" "\<not> gm_bool (f_receivedSeqs f) seq" "seq \<notin> receivedSet f"
    using s led gm_bool_all_true [of "f_receivedSeqs f" seq] by (auto simp: seq_range_def ledger_def receivedSet_def)
  have "cfg_ok cfg" using cfg by (simp add: flow_cfg_ok_def)
  then show "\<not> f_isFinished f" using ledger_finished(3) [of cfg] led pend by fastforce
qed

lemma pending_Data_counted:
  assumes "flow_cfg_ok cfg" "dt_inv cfg f" "map_of (f_pendingSends f) (interestNameForSeq cfg f seq) = Some p"
    and "deserializeData payload = Some pkt" "OnData cfg payload (interestNameForSeq cfg f seq) t f = (f', accepted)"
  shows "accepted \<and> f_pktsReceivedTotal f' = f_pktsReceivedTotal f + 1 \<and> receivedSet f' = insert seq (receivedSet f)"
proof -
  note aw = pending_awaited [OF assms(1-3)]
  have "OnData cfg payload (interestNameForSeq cfg f seq) t f = onDataDT cfg payload (interestNameForSeq cfg f seq) t p f"
    using aw(5) assms(2,3) by (simp add: OnData_def dt_inv_def)
  with assms(5) have "onDataDT cfg payload (interestNameForSeq cfg f seq) t p f = (f', accepted)" by simp
  then show ?thesis
    by (rule_tac onDataDT_accept [OF aw(1-3) assms(4), of cfg t p]) (auto simp: receivedSet_def gm.dom_put)
qed

text \<open>
  (C16) Karn's rule.  When a flow in data transmission retransmits a pending Interest, the entry keeps its
  original send time and is marked, and it stays so over any further events of the flow, until the Interest is
  answered, timed out or sent afresh.  Data that answers it in that state leaves the RTT history, the
  smoothed RTT, its variance and the RTO as they were; and if its payload decodes it is accepted and
  counted: the received counter grows by one and the sequence, which was missing, is received.
\<close>

theorem karn_rule:
  assumes "flow_cfg_ok cfg" "f_Mode f = ModeDT"
    and "enabled_run (flowEnabled cfg) (flowStep cfg) (NewFlowContext cfg now prefix) (before @ SendInterest seq t True # after)"
    and "f = run (flowStep cfg) (NewFlowContext cfg now prefix) before"
    and "nm = interestNameForSeq cfg f seq" "map_of (f_pendingSends f) nm = Some p" "\<forall>e \<in> set after. \<not> settles nm seq e"
    and "h = run (flowStep cfg) f (SendInterest seq t True # after)" "(h', accepted) = OnData cfg payload nm t' h"
  shows "map_of (f_pendingSends h) nm = Some (p\<lparr>p_Retransmitted := True\<rparr>)
    \<and> rttState (f_rate h') = rttState (f_rate h)
    \<and> (deserializeData payload \<noteq> None \<longrightarrow> accepted \<and> f_pktsReceivedTotal h' = f_pktsReceivedTotal h + 1
         \<and> seq \<notin> receivedSet h \<and> receivedSet h' = insert seq (receivedSet h))"
proof -
  let ?g = "flowStep cfg f (SendInterest seq t True)" and ?p = "p\<lparr>p_Retransmitted := True\<rparr>"
  have en: "enabled_run (flowEnabled cfg) (flowStep cfg) (NewFlowContext cfg now prefix) before"
    "enabled_run (flowEnabled cfg) (flowStep cfg) ?g after"
    using assms(3,4) by (simp_all add: enabled_run_append)
  have inv: "dt_inv cfg f" by (rule dt_reachable [OF assms(1) en(1) assms(4,2)])
  note aw = pending_awaited [OF assms(1) inv assms(6) [unfolded assms(5)]]
  have g: "entryOf nm ?g = (ModeDT, f_baseName f, Some ?p)"
    using aw(3,5) assms(2,5,6) by (simp add: entryOf_def RecordInterestSend_def Let_def)
  then have h: "entryOf nm h = (ModeDT, f_baseName f, Some ?p)"
    using entryOf_run [OF en(2) assms(7), of ?p] assms(5,8) by (simp add: entryOf_def interestNameForSeq_def)
  have "dt_inv cfg h"
    using h assms(4,8) by (intro dt_reachable [OF assms(1,3)]) (simp_all add: entryOf_def run_append)
  moreover have "nm = interestNameForSeq cfg h seq" using h assms(5) by (simp add: entryOf_def interestNameForSeq_def)
  ultimately show ?thesis
    using pending_Data_counted [OF assms(1), of h seq ?p payload _ t' h' accepted] pending_awaited(4) [OF assms(1), of h seq ?p]
      marked_Data [of h nm ?p cfg payload t'] h assms(9) [symmetric] by (auto simp: entryOf_def)
qed

text \<open>Interest 2 is sent, retransmitted, runs into its RTO and is then answered by an empty data packet.\<close>

abbreviation demoSent :: flow where
  "demoSent \<equiv> run (flowStep demoConfig) demoFlow [SendInterest 2 10 False]"

abbreviation demoResent :: flow where
  "demoResent \<equiv> run (flowStep demoConfig) demoSent [SendInterest 2 20 True, DtRto]"

lemma demo_sent:
  "f_Mode demoSent = ModeDT"
  "map_of (f_pendingSends demoSent) (interestNameForSeq demoConfig demoSent 2) = Some \<lparr>p_SendTime = 10, p_Retransmitted = False\<rparr>"
  "enabled_run (flowEnabled demoConfig) (flowStep demoConfig) demoFlow ([SendInterest 2 10 False] @ SendInterest 2 20 True # [DtRto])"
proof -
  show pend: "f_Mode demoSent = ModeDT"
    "map_of (f_pendingSends demoSent) (interestNameForSeq demoConfig demoSent 2) = Some \<lparr>p_SendTime = 10, p_Retransmitted = False\<rparr>"
    by (simp_all add: RecordInterestSend_def NewFlowContext_def initDTState_def demoConfig_def Let_def interestNameForSeq_def)
  have "send_allowed demoConfig 2 demoSent"
    using pend(2) by (simp add: send_allowed_def pendingSet_def pendingSeqs_def seq_range_def interestNameForSeq_def)
      (simp add: demoConfig_def)
  then show "enabled_run (flowEnabled demoConfig) (flowStep demoConfig) demoFlow ([SendInterest 2 10 False] @ SendInterest 2 20 True # [DtRto])"
    using demo_enabled by simp
qed

theorem karn_rule_witness:
  "f_pktsReceivedTotal (fst (OnData demoConfig (serializeData newDataPacket) (interestNameForSeq demoConfig demoSent 2) 30 demoResent))
     = f_pktsReceivedTotal demoResent + 1
   \<and> rttState (f_rate (fst (OnData demoConfig (serializeData newDataPacket) (interestNameForSeq demoConfig demoSent 2) 30 demoResent)))
     = rttState (f_rate demoResent)"
proof -
  have "deserializeData (serializeData newDataPacket) \<noteq> None"
    by (simp add: deserializeData_def serializeData_def newDataPacket_def DataPacketValueCount_def del: map_replicate)
  then show ?thesis
    using karn_rule [OF demo_cfg_ok demo_sent(1,3) refl refl demo_sent(2) _ refl prod.collapse,
        of "serializeData newDataPacket" 30] by simp
qed

subsection \<open>Path discovery stalled by a Nack\<close>

definition pd_stalled :: "flow \<Rightarrow> bool" where
  "pd_stalled f \<longleftrightarrow> f_Mode f = ModePD \<and> f_StopPD f \<and> \<not> f_PdFinished f \<and> f_pendingSends f = []"

text \<open>Events that need neither a new Interest nor a running timer of this flow.\<close>

fun pdQuiet :: "flowEvent \<Rightarrow> bool" where
  "pdQuiet (SendInterest seq t rt) = False"
| "pdQuiet (RtoTimeout nm) = False"
| "pdQuiet (StartDT t) = False"
| "pdQuiet _ = True"

lemma pd_stalled_step: "pd_stalled f \<Longrightarrow> pdQuiet e \<Longrightarrow> pd_stalled (flowStep cfg f e)"
proof (cases e)
  case PopRetx
  assume stalled: "pd_stalled f"
  show ?thesis unfolding PopRetx flowStep.simps PopRetransmission_def
    by (rule popLoop_frame [of cfg f]) (use stalled in \<open>simp add: pd_stalled_def\<close>)
qed (auto simp: pd_stalled_def QueueRetransmission_def queueRetransmissionLocked_def gm_del_def
    installShadowAttemptAndClearQueued_def clearQueuedRetransmissionLocked_def OnData_def OnNack_def decOutstandingPD_def
    OnDTRTO_def RecordShadowRTO_def shadowLossScanLocked_def queueShadowFastRepair_def
    recordShadowFastRepairOutcome_def flowPeriodicRateControl_def flowCheckNoFreshSamples_def Let_def)

lemma pd_stalled_run: "pd_stalled f \<Longrightarrow> list_all pdQuiet es \<Longrightarrow> pd_stalled (run (flowStep cfg) f es)"
  by (induction es arbitrary: f) (auto intro: pd_stalled_step)

definition convergedPayload :: string where
  "convergedPayload = serializeDiscovery \<lparr>disc_TierConverged = True, disc_NodeConverged = True\<rparr>"

lemma deserialize_converged:
  "deserializeDiscovery convergedPayload = Some \<lparr>disc_TierConverged = True, disc_NodeConverged = True\<rparr>"
  by code_simp

text \<open>
  (C30) A final Nack stalls path discovery: after two probes, Data announcing convergence and a
  Nack for the other probe, nothing is outstanding, yet the flow is not finished with discovery,
  and without a new Interest or an expiring timer it never will be.  \<open>OnNack\<close> does not call
  \<open>checkPdState\<close>, as the other two handlers do.
\<close>

theorem pd_final_nack_stalls:
  fixes cfg now prefix
  defines "f0 \<equiv> NewFlowContext cfg now prefix"
  assumes "cfg_initialMode cfg = ModePD" "list_all pdQuiet es"
  shows "let f1 = run (flowStep cfg) f0 [SendInterest 1 t1 False, SendInterest 2 t2 False,
              DataArrives convergedPayload (interestNameForSeq cfg f0 1) t3,
              NackArrives (interestNameForSeq cfg f0 2)]
         in f_OutstandingPD f1 = 0 \<and> f_StopPD f1 \<and> f_pendingSends f1 = []
            \<and> \<not> f_PdFinished (run (flowStep cfg) f1 es)"
proof -
  define f1 where "f1 = run (flowStep cfg) f0 [SendInterest 1 t1 False, SendInterest 2 t2 False,
              DataArrives convergedPayload (interestNameForSeq cfg f0 1) t3,
              NackArrives (interestNameForSeq cfg f0 2)]"
  have f1: "f_OutstandingPD f1 = 0 \<and> f_Mode f1 = ModePD \<and> f_StopPD f1 \<and> f_pendingSends f1 = [] \<and> \<not> f_PdFinished f1"
    using assms(2)
    by (simp add: f1_def f0_def NewFlowContext_def zeroFlow_def updatePDBaseName_def RecordInterestSend_def Let_def
        interestNameForSeq_def OnData_def onDataPD_def deserialize_converged decOutstandingPD_def checkPdState_def
        OnNack_def gm_put_def gm_del_def)
  then have "pd_stalled (run (flowStep cfg) f1 es)"
    by (intro pd_stalled_run assms(3)) (simp add: pd_stalled_def)
  then show ?thesis using f1 unfolding f1_def [symmetric] Let_def pd_stalled_def by blast
qed

definition demoPdConfig :: config where
  "demoPdConfig = demoConfig\<lparr>cfg_initialMode := ModePD\<rparr>"

theorem pd_final_nack_stalls_witness:
  "\<not> f_PdFinished (run (flowStep demoPdConfig)
      (run (flowStep demoPdConfig) (NewFlowContext demoPdConfig 5 ''/pro0app'')
        [SendInterest 1 6 False, SendInterest 2 7 False,
         DataArrives convergedPayload (interestNameForSeq demoPdConfig (NewFlowContext demoPdConfig 5 ''/pro0app'') 1) 8,
         NackArrives (interestNameForSeq demoPdConfig (NewFlowContext demoPdConfig 5 ''/pro0app'') 2)])
      [PeriodicControl 9, NackArrives ''x''])"
proof -
  have "cfg_initialMode demoPdConfig = ModePD" by (simp add: demoPdConfig_def)
  moreover have "list_all pdQuiet [PeriodicControl 9, NackArrives ''x'']" by simp
  ultimately show ?thesis
    using pd_final_nack_stalls [of demoPdConfig "[PeriodicControl 9, NackArrives ''x'']" 5 "''/pro0app''" 6 7 8]
    unfolding Let_def by blast
qed

subsection \<open>Alternative URI format disabled\<close>

text \<open>With \<open>NDN_NAME_ALT_URI=0\<close> no Data of the transfer is ever accepted.\<close>

lemma alt_uri_disabled_drops_data:
  assumes "cfg_disableAltUri cfg" "f_Mode f = ModeDT" "\<not> f_isFinished f" "\<not> gm_bool (f_receivedSeqs f) (-1)"
    and "- (2 ^ 63) \<le> seq" "seq < 2 ^ 63"
  shows "OnData cfg payload (interestNameForSeq cfg f seq) t f = (f, False)"
  using assms seq_of_name [OF assms(5,6), of cfg "f_baseName f"]
  by (simp add: OnData_def onDataDT_def interestNameForSeq_def split: option.split)

text \<open>An expired RTO changes neither the rate nor the window nor the RTO.\<close>

lemma dt_rto_never_backs_off:
  "fst (OnDTRTO f) = f\<lparr>f_timeoutEvents := f_timeoutEvents f + 1\<rparr> \<and> \<not> snd (snd (snd (OnDTRTO f)))"
  by (simp add: OnDTRTO_def)

end
