(* ===== verification/Go_Heap.thy ===== *)
theory Go_Heap
  imports Mars_Prelude
begin

text \<open>
  The binary heap of Go's standard library (\<open>container/heap\<close>) over a slice whose elements store
  their own position, as both heaps of the repository do: \<open>PacketHeap\<close> of the consumer and
  \<open>priority_queue.Queue\<close>.  \<open>mark i x\<close> writes the position \<open>i\<close> into \<open>x\<close> and \<open>key x\<close> is what
  \<open>Less\<close> compares.  The algorithms are those of the library (\<open>up\<close>, \<open>down\<close>, \<open>Push\<close>, \<open>Pop\<close>,
  \<open>Fix\<close>); the locale \<open>indexed_heap\<close> states what they guarantee for every such slice.
\<close>

subsection \<open>The algorithms\<close>

definition heap_swap :: "(int \<Rightarrow> 'a \<Rightarrow> 'a) \<Rightarrow> nat \<Rightarrow> nat \<Rightarrow> 'a list \<Rightarrow> 'a list" where
  "heap_swap mark i j h = h[i := mark (int i) (h ! j), j := mark (int j) (h ! i)]"

definition par :: "nat \<Rightarrow> nat" where
  "par j = (j - 1) div 2"

lemma par_less: "0 < c \<Longrightarrow> par c < c"
  by (auto simp: par_def)

lemma par_0 [simp]: "par 0 = 0"
  by (simp add: par_def)

lemma children: "0 < c \<Longrightarrow> par c = i \<longleftrightarrow> c = 2 * i + 1 \<or> c = 2 * i + 2"
  by (auto simp: par_def)

function heap_up :: "(int \<Rightarrow> 'a \<Rightarrow> 'a) \<Rightarrow> ('a \<Rightarrow> 'k :: linorder) \<Rightarrow> nat \<Rightarrow> 'a list \<Rightarrow> 'a list" where
  "heap_up mark key j h =
    (let i = par j
     in if i = j \<or> \<not> key (h ! j) < key (h ! i) then h else heap_up mark key i (heap_swap mark i j h))"
  by pat_completeness auto
termination by (relation "measure (\<lambda>(_, _, j, _). j)") (auto intro: par_less intro!: Nat.gr0I)

function heap_down ::
  "(int \<Rightarrow> 'a \<Rightarrow> 'a) \<Rightarrow> ('a \<Rightarrow> 'k :: linorder) \<Rightarrow> nat \<Rightarrow> nat \<Rightarrow> 'a list \<Rightarrow> nat \<times> 'a list" where
  "heap_down mark key i n h =
    (let j1 = 2 * i + 1
     in if j1 \<ge> n then (i, h)
        else
          let j = (if j1 + 1 < n \<and> key (h ! (j1 + 1)) < key (h ! j1) then j1 + 1 else j1)
          in if \<not> key (h ! j) < key (h ! i) then (i, h)
             else heap_down mark key j n (heap_swap mark i j h))"
  by pat_completeness auto
termination by (relation "measure (\<lambda>(_, _, i, n, _). n - i)") (auto split: if_splits)

definition heap_push :: "(int \<Rightarrow> 'a \<Rightarrow> 'a) \<Rightarrow> ('a \<Rightarrow> 'k :: linorder) \<Rightarrow> 'a \<Rightarrow> 'a list \<Rightarrow> 'a list" where
  "heap_push mark key x h = heap_up mark key (length h) (h @ [mark (int (length h)) x])"

text \<open>
  \<open>Pop\<close> swaps the root with the last element, sifts the new root down in the shorter slice and
  takes the last element off, whose position becomes \<open>-1\<close>.  On an empty slice it panics.
\<close>

definition heap_pop :: "(int \<Rightarrow> 'a \<Rightarrow> 'a) \<Rightarrow> ('a \<Rightarrow> 'k :: linorder) \<Rightarrow> 'a list \<Rightarrow> ('a \<times> 'a list) option" where
  "heap_pop mark key h =
    (if h = [] then None
     else
       let n = length h - 1;
           h1 = snd (heap_down mark key 0 n (heap_swap mark 0 n h))
       in Some (mark (-1) (h1 ! n), take n h1))"

definition heap_fix :: "(int \<Rightarrow> 'a \<Rightarrow> 'a) \<Rightarrow> ('a \<Rightarrow> 'k :: linorder) \<Rightarrow> nat \<Rightarrow> 'a list \<Rightarrow> 'a list" where
  "heap_fix mark key i h =
    (let (i', h') = heap_down mark key i (length h) h
     in if i' > i then h' else heap_up mark key i h')"

declare heap_up.simps [simp del] heap_down.simps [simp del]

subsection \<open>Heap order of key functions\<close>

text \<open>
  \<open>heapK n K\<close> is the heap order of the first \<open>n\<close> positions under the keys \<open>K\<close>; \<open>upK\<close> and
  \<open>downK\<close> allow one position to be too small for its parent or too large for its children, and
  \<open>fixK\<close> allows both.
\<close>

definition heapK :: "nat \<Rightarrow> (nat \<Rightarrow> 'k :: linorder) \<Rightarrow> bool" where
  "heapK n K \<longleftrightarrow> (\<forall>c. 0 < c \<and> c < n \<longrightarrow> K (par c) \<le> K c)"

definition upK :: "nat \<Rightarrow> nat \<Rightarrow> (nat \<Rightarrow> 'k :: linorder) \<Rightarrow> bool" where
  "upK n j K \<longleftrightarrow> (\<forall>c. 0 < c \<and> c < n \<and> c \<noteq> j \<longrightarrow> K (par c) \<le> K c)
     \<and> (\<forall>c. 0 < c \<and> c < n \<and> par c = j \<and> 0 < j \<longrightarrow> K (par j) \<le> K c)"

definition downK :: "nat \<Rightarrow> nat \<Rightarrow> (nat \<Rightarrow> 'k :: linorder) \<Rightarrow> bool" where
  "downK n i K \<longleftrightarrow> (\<forall>c. 0 < c \<and> c < n \<and> par c \<noteq> i \<longrightarrow> K (par c) \<le> K c)
     \<and> (\<forall>c. 0 < c \<and> c < n \<and> par c = i \<and> 0 < i \<longrightarrow> K (par i) \<le> K c)"

definition fixK :: "nat \<Rightarrow> nat \<Rightarrow> (nat \<Rightarrow> 'k :: linorder) \<Rightarrow> bool" where
  "fixK n i K \<longleftrightarrow> (\<forall>c. 0 < c \<and> c < n \<and> c \<noteq> i \<and> par c \<noteq> i \<longrightarrow> K (par c) \<le> K c)
     \<and> (\<forall>c. 0 < c \<and> c < n \<and> par c = i \<and> 0 < i \<longrightarrow> K (par i) \<le> K c)"

lemma heapK_root: "heapK n K \<Longrightarrow> c < n \<Longrightarrow> K 0 \<le> K c"
proof (induction c rule: less_induct)
  case (less c)
  show ?case
  proof (cases "c = 0")
    case False
    then have "K 0 \<le> K (par c)" using less par_less [of c] by simp
    also have "\<dots> \<le> K c" using less.prems False by (simp add: heapK_def)
    finally show ?thesis .
  qed simp
qed

lemma upK_heap: "upK n j K \<Longrightarrow> j = 0 \<or> K (par j) \<le> K j \<Longrightarrow> heapK n K"
  unfolding upK_def heapK_def by blast

lemma upK_swap:
  assumes up: "upK n j K" and j: "0 < j" "j < n" and lt: "K j < K (par j)"
  shows "upK n (par j) (K(par j := K j, j := K (par j)))"
proof -
  define p where "p = par j"
  have p: "p < j" using j by (simp add: p_def par_less)
  have A: "K (par c) \<le> K c" if "0 < c" "c < n" "c \<noteq> j" for c
    using up that by (simp add: upK_def)
  have B: "K p \<le> K c" if "0 < c" "c < n" "par c = j" for c
    using up that j by (auto simp: upK_def p_def)
  have lt': "K j < K p" using lt by (simp add: p_def)
  let ?K = "K(p := K j, j := K p)"
  have "?K (par c) \<le> ?K c" if c: "0 < c" "c < n" "c \<noteq> p" for c
  proof (cases "c = j")
    case True
    then show ?thesis using lt' p by (simp add: p_def [symmetric])
  next
    case False
    then have ok: "K (par c) \<le> K c" by (rule A [OF c(1,2)])
    show ?thesis
    proof (cases "par c = j")
      case True
      then show ?thesis using B [OF c(1,2)] False c(3) by simp
    next
      case nj: False
      show ?thesis using ok lt' False nj c(3) by (cases "par c = p") auto
    qed
  qed
  moreover have "?K (par p) \<le> ?K c" if c: "0 < c" "c < n" "par c = p" "0 < p" for c
  proof -
    have "par p \<noteq> p" "par p \<noteq> j" using c(4) p par_less [of p] by auto
    then have eq: "?K (par p) = K (par p)" by simp
    have "K (par p) \<le> K p" using A [of p] c(4) p j by simp
    moreover have "K p \<le> K c" if "c \<noteq> j" using A [of c] c that by simp
    moreover have "c \<noteq> p" using c par_less [of c] by auto
    ultimately show ?thesis unfolding eq by (cases "c = j") auto
  qed
  ultimately show ?thesis unfolding upK_def p_def [symmetric] by blast
qed

lemma fixK_swap:
  assumes hfix: "fixK n i K" and j: "0 < j" "j < n" "par j = i" and lt: "K j < K i"
    and least: "\<And>c. 0 < c \<Longrightarrow> c < n \<Longrightarrow> par c = i \<Longrightarrow> K j \<le> K c"
  shows "downK n j (K(i := K j, j := K i))"
proof -
  have ij: "i < j" using par_less [OF j(1)] j(3) by simp
  have A: "K (par c) \<le> K c" if "0 < c" "c < n" "c \<noteq> i" "par c \<noteq> i" for c
    using hfix that by (simp add: fixK_def)
  have B: "K (par i) \<le> K j" if "0 < i"
    using hfix that j by (auto simp: fixK_def)
  let ?K = "K(i := K j, j := K i)"
  have "?K (par c) \<le> ?K c" if c: "0 < c" "c < n" "par c \<noteq> j" for c
  proof -
    consider "c = i" | "c = j" | "c \<noteq> i" "c \<noteq> j" "par c = i" | "c \<noteq> i" "c \<noteq> j" "par c \<noteq> i" by blast
    then show ?thesis
    proof cases
      case 1
      then show ?thesis using B c ij par_less [of i] by auto
    next
      case 2
      then show ?thesis using j lt ij by simp
    next
      case 3
      then show ?thesis using least [of c] c by simp
    next
      case 4
      then show ?thesis using A [of c] c by simp
    qed
  qed
  moreover have "?K (par j) \<le> ?K c" if c: "0 < c" "c < n" "par c = j" for c
  proof -
    have "c \<noteq> i" "c \<noteq> j" using c ij par_less [of c] by auto
    then show ?thesis using A [of c] c ij j by simp
  qed
  ultimately show ?thesis unfolding downK_def by blast
qed

lemma downK_fixK: "downK n i K \<Longrightarrow> fixK n i K"
  unfolding downK_def fixK_def by blast

lemma fixK_stop:
  "fixK n i K \<Longrightarrow> (\<And>c. 0 < c \<Longrightarrow> c < n \<Longrightarrow> par c = i \<Longrightarrow> K i \<le> K c) \<Longrightarrow> upK n i K"
  unfolding fixK_def upK_def by blast

lemma downK_stop:
  "downK n i K \<Longrightarrow> (\<And>c. 0 < c \<Longrightarrow> c < n \<Longrightarrow> par c = i \<Longrightarrow> K i \<le> K c) \<Longrightarrow> heapK n K"
  unfolding downK_def heapK_def by blast

lemma heapK_fixK_upd:
  assumes heap: "heapK n K" and i: "i < n"
  shows "fixK n i (K(i := v))"
proof -
  have A: "K (par c) \<le> K c" if "0 < c" "c < n" for c using heap that by (simp add: heapK_def)
  have "K (par i) \<le> K c \<and> par i \<noteq> i \<and> c \<noteq> i" if c: "0 < c" "c < n" "par c = i" "0 < i" for c
    using A [of c] A [of i] c i par_less [of c] par_less [of i] by auto
  with A show ?thesis unfolding fixK_def by (auto simp del: One_nat_def)
qed

subsection \<open>What the algorithms guarantee\<close>

text \<open>
  The interface of an element type that keeps its own position: the position does not influence
  the key, and only the last position written counts.  \<open>mark (-1)\<close> therefore is the element
  without its position, and the multiset of these is the abstract content of a heap.
\<close>

locale indexed_heap =
  fixes mark :: "int \<Rightarrow> 'a \<Rightarrow> 'a" and key :: "'a \<Rightarrow> 'k :: linorder" and idx :: "'a \<Rightarrow> int"
  assumes key_mark [simp]: "key (mark i x) = key x"
    and idx_mark [simp]: "idx (mark i x) = i"
    and mark_mark [simp]: "mark i (mark j x) = mark i x"
    and mark_idx: "mark (idx x) x = x"
begin

definition K :: "'a list \<Rightarrow> nat \<Rightarrow> 'k" where
  "K h c = key (h ! c)"

definition indexed :: "'a list \<Rightarrow> bool" where
  "indexed h \<longleftrightarrow> (\<forall>c < length h. idx (h ! c) = int c)"

definition contents :: "'a list \<Rightarrow> 'a multiset" where
  "contents h = image_mset (mark (-1)) (mset h)"

definition ordered :: "'a list \<Rightarrow> bool" where
  "ordered h \<longleftrightarrow> heapK (length h) (K h)"

lemma length_swap [simp]: "length (heap_swap mark i j h) = length h"
  by (simp add: heap_swap_def)

lemma K_swap: "i < length h \<Longrightarrow> j < length h \<Longrightarrow> K (heap_swap mark i j h) = (K h)(i := K h j, j := K h i)"
  by (auto simp: K_def heap_swap_def fun_eq_iff nth_list_update)

lemma indexed_swap: "indexed h \<Longrightarrow> i < length h \<Longrightarrow> j < length h \<Longrightarrow> indexed (heap_swap mark i j h)"
  by (auto simp: indexed_def heap_swap_def nth_list_update)

lemma contents_swap:
  assumes "i < length h" "j < length h"
  shows "contents (heap_swap mark i j h) = contents h"
proof -
  have "map (mark (-1)) (heap_swap mark i j h)
      = (map (mark (-1)) h)[i := map (mark (-1)) h ! j, j := map (mark (-1)) h ! i]"
    using assms by (simp add: heap_swap_def map_update)
  then show ?thesis
    using assms mset_swap [of j "map (mark (-1)) h" i] by (simp add: contents_def flip: mset_map)
qed

text \<open>
  \<open>same_heap h h'\<close>: the elements of \<open>h'\<close> are those of \<open>h\<close> in another order, with positions
  kept up to date.
\<close>

definition same_heap :: "'a list \<Rightarrow> 'a list \<Rightarrow> bool" where
  "same_heap h h' \<longleftrightarrow> length h' = length h \<and> contents h' = contents h \<and> (indexed h \<longrightarrow> indexed h')"

lemma same_heap_refl: "same_heap h h"
  by (simp add: same_heap_def)

lemma same_heap_trans: "same_heap h h' \<Longrightarrow> same_heap h' h'' \<Longrightarrow> same_heap h h''"
  by (simp add: same_heap_def)

lemma same_heap_swap: "i < length h \<Longrightarrow> j < length h \<Longrightarrow> same_heap h (heap_swap mark i j h)"
  by (simp add: same_heap_def contents_swap indexed_swap)

lemma heap_up_inv:
  "j < length h \<Longrightarrow> upK (length h) j (K h) \<Longrightarrow>
    heapK (length h) (K (heap_up mark key j h)) \<and> same_heap h (heap_up mark key j h)"
proof (induction j arbitrary: h rule: less_induct)
  case (less j)
  show ?case
  proof (cases "par j = j \<or> \<not> key (h ! j) < key (h ! par j)")
    case True
    then have "j = 0 \<or> K h (par j) \<le> K h j" using par_less [of j] by (auto simp: K_def)
    then have "heapK (length h) (K h)" using upK_heap less.prems by blast
    then show ?thesis
      using True by (simp add: heap_up.simps [of mark key j h] Let_def same_heap_refl)
  next
    case False
    then have j: "0 < j" by (cases j) auto
    let ?h = "heap_swap mark (par j) j h"
    have lt: "par j < j" using par_less [OF j] .
    have "K h j < K h (par j)" using False by (simp add: K_def)
    then have "upK (length h) (par j) (K ?h)"
      using upK_swap [OF less.prems(2) j less.prems(1)] less.prems(1) lt by (simp add: K_swap)
    then have "heapK (length h) (K (heap_up mark key (par j) ?h)) \<and> same_heap ?h (heap_up mark key (par j) ?h)"
      using less.IH [OF lt, of ?h] less.prems(1) lt by simp
    moreover have "same_heap h ?h" using less.prems(1) lt by (simp add: same_heap_swap)
    ultimately have "heapK (length h) (K (heap_up mark key (par j) ?h)) \<and> same_heap h (heap_up mark key (par j) ?h)"
      using same_heap_trans by blast
    then show ?thesis using False by (simp add: heap_up.simps [of mark key j h] Let_def)
  qed
qed

lemma least_child:
  assumes "2 * i + 1 < n"
    and "j = (if 2 * i + 2 < n \<and> key (h ! (2 * i + 2)) < key (h ! (2 * i + 1)) then 2 * i + 2 else 2 * i + 1)"
  shows "0 < j" "j < n" "par j = i" "\<And>c. 0 < c \<Longrightarrow> c < n \<Longrightarrow> par c = i \<Longrightarrow> K h j \<le> K h c"
  using assms by (auto simp: children K_def)

definition down_ok :: "nat \<Rightarrow> nat \<Rightarrow> 'a list \<Rightarrow> nat \<times> 'a list \<Rightarrow> bool" where
  "down_ok n i h r \<longleftrightarrow> same_heap h (snd r) \<and> (\<forall>c \<ge> n. snd r ! c = h ! c)
     \<and> (i < fst r \<and> heapK n (K (snd r))
        \<or> r = (i, h) \<and> upK n i (K h) \<and> (downK n i (K h) \<longrightarrow> heapK n (K h)))"

lemma down_ok_stop:
  "fixK n i (K h) \<Longrightarrow> (\<And>c. 0 < c \<Longrightarrow> c < n \<Longrightarrow> par c = i \<Longrightarrow> K h i \<le> K h c) \<Longrightarrow> down_ok n i h (i, h)"
  using fixK_stop [of n i "K h"] downK_stop [of n i "K h"] by (simp add: down_ok_def same_heap_refl)

lemma down_ok_step:
  assumes "down_ok n j (heap_swap mark i j h) r" "downK n j (K (heap_swap mark i j h))" "i < j" "j < n" "n \<le> length h"
  shows "down_ok n i h r"
proof -
  have "same_heap h (heap_swap mark i j h)" using assms by (simp add: same_heap_swap)
  moreover have "heap_swap mark i j h ! c = h ! c" if "n \<le> c" for c
    using assms that by (simp add: heap_swap_def)
  moreover have "same_heap (heap_swap mark i j h) (snd r)" "\<forall>c \<ge> n. snd r ! c = heap_swap mark i j h ! c"
    and "i < fst r \<and> heapK n (K (snd r))"
    using assms(1-3) unfolding down_ok_def by auto
  ultimately show ?thesis
    using same_heap_trans unfolding down_ok_def by metis
qed

lemma heap_down_inv: "n \<le> length h \<Longrightarrow> fixK n i (K h) \<Longrightarrow> down_ok n i h (heap_down mark key i n h)"
proof (induction "n - i" arbitrary: i h rule: less_induct)
  case less
  show ?case
  proof (cases "2 * i + 1 < n")
    case False
    then have "down_ok n i h (i, h)" using less.prems(2) by (intro down_ok_stop) (auto simp: children)
    then show ?thesis using False by (simp add: heap_down.simps [of mark key i n h])
  next
    case True
    define j where "j = (if 2 * i + 2 < n \<and> key (h ! (2 * i + 2)) < key (h ! (2 * i + 1)) then 2 * i + 2 else 2 * i + 1)"
    note j = least_child [OF True j_def]
    have ij: "i < j" by (simp add: j_def)
    have eq: "heap_down mark key i n h
        = (if key (h ! j) < key (h ! i) then heap_down mark key j n (heap_swap mark i j h) else (i, h))"
      using True unfolding heap_down.simps [of mark key i n h] Let_def j_def by simp
    show ?thesis
    proof (cases "key (h ! j) < key (h ! i)")
      case False
      then have "K h i \<le> K h j" by (simp add: K_def)
      then have "K h i \<le> K h c" if "0 < c" "c < n" "par c = i" for c
        using j(4) [OF that] by (rule order_trans)
      then have "down_ok n i h (i, h)" by (rule down_ok_stop [OF less.prems(2)])
      then show ?thesis using False by (simp add: eq)
    next
      case lt: True
      let ?h = "heap_swap mark i j h"
      have "K h j < K h i" using lt by (simp add: K_def)
      then have "downK n j ((K h)(i := K h j, j := K h i))"
        by (rule fixK_swap [OF less.prems(2) j(1-3) _ j(4)])
      then have d: "downK n j (K ?h)" using j(2) ij less.prems(1) by (simp add: K_swap)
      have "down_ok n j ?h (heap_down mark key j n ?h)"
        using less.hyps [of j ?h] ij j(2) less.prems(1) downK_fixK [OF d] by simp
      then have "down_ok n i h (heap_down mark key j n ?h)"
        by (rule down_ok_step) (use d ij j(2) less.prems(1) in auto)
      then show ?thesis using lt by (simp add: eq)
    qed
  qed
qed

text \<open>The abstract heap: a list in heap order whose elements know their positions.\<close>

definition heap_ok :: "'a list \<Rightarrow> bool" where
  "heap_ok h \<longleftrightarrow> ordered h \<and> indexed h"

lemma heap_ok_Nil [simp]: "heap_ok []"
  by (simp add: heap_ok_def ordered_def heapK_def indexed_def)

lemma heap_root_least: "heap_ok h \<Longrightarrow> x \<in> set h \<Longrightarrow> key (h ! 0) \<le> key x"
  using heapK_root [of "length h" "K h"] by (auto simp: heap_ok_def ordered_def K_def in_set_conv_nth)

theorem push_correct:
  assumes "heap_ok h"
  shows "heap_ok (heap_push mark key x h)"
    and "contents (heap_push mark key x h) = add_mset (mark (-1) x) (contents h)"
    and "length (heap_push mark key x h) = Suc (length h)"
proof -
  let ?h = "h @ [mark (int (length h)) x]"
  have "K ?h c = K h c" if "c < length h" for c using that by (simp add: K_def nth_append)
  moreover have "par c < length h" if "0 < c" "c \<le> length h" for c using par_less [OF that(1)] that(2) by simp
  moreover have "heapK (length h) (K h)" using assms by (simp add: heap_ok_def ordered_def)
  moreover have "par c \<noteq> length h" if "0 < c" "c < Suc (length h)" for c
    using par_less [OF that(1)] that(2) by simp
  ultimately have "upK (length ?h) (length h) (K ?h)"
    unfolding upK_def heapK_def by (auto simp: less_Suc_eq_le)
  then have r: "heapK (length ?h) (K (heap_push mark key x h)) \<and> same_heap ?h (heap_push mark key x h)"
    unfolding heap_push_def by (intro heap_up_inv) simp_all
  moreover have "indexed ?h" using assms by (auto simp: heap_ok_def indexed_def nth_append less_Suc_eq)
  ultimately show "heap_ok (heap_push mark key x h)"
    by (simp add: heap_ok_def ordered_def same_heap_def)
  show "contents (heap_push mark key x h) = add_mset (mark (-1) x) (contents h)"
    "length (heap_push mark key x h) = Suc (length h)"
    using r by (simp_all add: same_heap_def contents_def)
qed

theorem pop_correct:
  assumes "heap_ok h" "h \<noteq> []"
  obtains x h' where "heap_pop mark key h = Some (x, h')" "heap_ok h'"
    "x = mark (-1) (h ! 0)" "contents h = add_mset x (contents h')"
proof -
  define n where "n = length h - 1"
  define h0 where "h0 = heap_swap mark 0 n h"
  define r where "r = heap_down mark key 0 n h0"
  have n: "n < length h" "length h0 = Suc n" using assms(2) by (auto simp: n_def h0_def)
  have heap: "heapK (length h) (K h)" using assms(1) by (simp add: heap_ok_def ordered_def)
  have K0: "K h0 = (K h)(0 := K h n, n := K h 0)" using n assms(2) by (simp add: h0_def K_swap)
  have "downK n 0 (K h0)"
  proof -
    have "K h0 (par c) \<le> K h0 c" if "0 < c" "c < n" "par c \<noteq> 0" for c
      using heap n(1) par_less [OF that(1)] that by (simp add: K0 heapK_def)
    then show ?thesis by (simp add: downK_def)
  qed
  then have ok: "down_ok n 0 h0 r" and heap': "heapK n (K (snd r))"
    using heap_down_inv [of n h0 0] n downK_fixK [of n 0 "K h0"] unfolding r_def [symmetric]
    by (auto simp: down_ok_def)
  have same: "same_heap h (snd r)"
    using ok same_heap_trans same_heap_swap [of 0 h n] n(1) assms(2) unfolding down_ok_def h0_def by blast
  have last: "snd r ! n = mark (int n) (h ! 0)"
    using ok n(1) by (auto simp: down_ok_def h0_def heap_swap_def)
  have len: "length (snd r) = Suc n" using same n by (simp add: same_heap_def n_def)
  have split: "snd r = take n (snd r) @ [snd r ! n]"
    using len by (metis lessI take_Suc_conv_app_nth take_all order_refl)
  have "heap_pop mark key h = Some (mark (-1) (h ! 0), take n (snd r))"
    unfolding heap_pop_def Let_def n_def [symmetric] h0_def [symmetric] r_def [symmetric]
    using assms(2) last by simp
  moreover have "heap_ok (take n (snd r))"
  proof -
    have "K (take n (snd r)) c = K (snd r) c" if "c < n" for c using that by (simp add: K_def)
    moreover have "par c < n" if "0 < c" "c < n" for c using par_less [OF that(1)] that(2) by simp
    ultimately have "heapK n (K (take n (snd r)))" using heap' by (simp add: heapK_def)
    then show ?thesis
      using same assms(1) len by (auto simp: heap_ok_def ordered_def same_heap_def indexed_def)
  qed
  moreover have "contents h = add_mset (mark (-1) (h ! 0)) (contents (take n (snd r)))"
  proof -
    have "contents h = contents (take n (snd r) @ [mark (int n) (h ! 0)])"
      using same split unfolding last same_heap_def by metis
    then show ?thesis by (simp add: contents_def)
  qed
  ultimately show thesis using that by blast
qed

theorem fix_correct:
  assumes heap: "heap_ok h" and i: "i < length h" and x: "idx x = int i"
  shows "heap_ok (heap_fix mark key i (h[i := x]))"
    and "contents (heap_fix mark key i (h[i := x])) = add_mset (mark (-1) x) (contents h - {#mark (-1) (h ! i)#})"
proof -
  let ?h = "h[i := x]"
  obtain i' h' where r: "heap_down mark key i (length h) ?h = (i', h')" by fastforce
  have "K ?h = (K h)(i := key x)" using i by (auto simp: K_def fun_eq_iff nth_list_update)
  then have "fixK (length h) i (K ?h)"
    using heapK_fixK_upd [of "length h" "K h" i "key x"] heap i by (simp add: heap_ok_def ordered_def)
  then have ok: "down_ok (length h) i ?h (i', h')"
    using heap_down_inv [of "length h" ?h i] by (simp add: r)
  have fix_eq: "heap_fix mark key i ?h = (if i < i' then h' else heap_up mark key i h')"
    by (simp add: heap_fix_def r)
  have res: "heapK (length h) (K (heap_fix mark key i ?h)) \<and> same_heap ?h (heap_fix mark key i ?h)"
  proof (cases "i < i'")
    case True
    then show ?thesis using ok by (simp add: fix_eq down_ok_def)
  next
    case False
    then have "h' = ?h" "upK (length h) i (K ?h)" using ok by (auto simp: down_ok_def)
    then show ?thesis using False heap_up_inv [of i ?h] i by (simp add: fix_eq)
  qed
  have "indexed ?h" using heap x i by (auto simp: heap_ok_def indexed_def nth_list_update)
  then show "heap_ok (heap_fix mark key i ?h)"
    using res by (simp add: heap_ok_def ordered_def same_heap_def)
  have "contents (heap_fix mark key i ?h) = contents ?h" using res by (simp add: same_heap_def)
  also have "\<dots> = add_mset (mark (-1) x) (contents h - {#mark (-1) (h ! i)#})"
    using i by (simp add: contents_def mset_update image_mset_Diff)
  finally show "contents (heap_fix mark key i ?h) = add_mset (mark (-1) x) (contents h - {#mark (-1) (h ! i)#})" .
qed

end

end
