(* ===== verification/Retx_Controller.thy ===== *)
theory Retx_Controller
  imports Flow_System Go_Heap
begin

text \<open>
  The retransmission controller of the consumer (\<open>apps/consumer/consumer.go\<close>): a heap of timers
  ordered by expiration, the table of the current attempt of each Interest name, and the
  generation counter that tells a current timer or callback from a stale one.

  A \<open>*FlowContext\<close> is an index into the store \<open>flows\<close>; the controller's methods take and return
  the store because they call methods of the flow while they hold the controller's lock.  The
  engine, the statistics pointer and the channels other than the wake-up signal are not state of
  the controller that its methods read.
\<close>

unbundle bit_operations_syntax

subsection \<open>State\<close>

type_synonym flowId = nat
type_synonym flows = "flowId \<Rightarrow> flow"

record PendingPacket =
  pp_Name :: string
  pp_Prefix :: string
  pp_Expiration :: gotime
  pp_SequenceNum :: int
  pp_Generation :: u64
  pp_Attempt :: int
  pp_RTOBackoffLevel :: int
  pp_Timeout :: duration
  pp_FlowCtx :: flowId
  pp_Index :: int

record ActiveAttempt =
  aa_SequenceNum :: int
  aa_Generation :: u64
  aa_Attempt :: int
  aa_RTOBackoffLevel :: int
  aa_Timeout :: duration
  aa_Mode :: TransmissionMode
  aa_FlowCtx :: "flowId option"
  aa_FastRepairTriggered :: bool
  aa_FastRepairQueued :: bool

definition packetMark :: "int \<Rightarrow> PendingPacket \<Rightarrow> PendingPacket" where
  "packetMark i p = p\<lparr>pp_Index := i\<rparr>"

interpretation ph: indexed_heap packetMark pp_Expiration pp_Index
  by unfold_locales (simp_all add: packetMark_def)

definition heapPush :: "PendingPacket \<Rightarrow> PendingPacket list \<Rightarrow> PendingPacket list" where
  "heapPush p pq = heap_push packetMark pp_Expiration p pq"

definition heapPop :: "PendingPacket list \<Rightarrow> (PendingPacket \<times> PendingPacket list) option" where
  "heapPop pq = heap_pop packetMark pp_Expiration pq"

record RetransmissionController =
  rc_pq :: "PendingPacket list"
  rc_active :: "(string, ActiveAttempt) gomap"
  rc_nextGeneration :: u64
  rc_wakeup :: bool

definition NewRetransmissionController :: RetransmissionController where
  "NewRetransmissionController = \<lparr>rc_pq = [], rc_active = [], rc_nextGeneration = 0, rc_wakeup = False\<rparr>"

subsection \<open>Timeouts\<close>

definition retransmissionJitter :: "string \<Rightarrow> u64 \<Rightarrow> float64" where
  "retransmissionJitter name generation =
    (let mixed = foldl (\<lambda>m c. (m XOR of_nat (code c)) * 1099511628211)
           (generation XOR 1469598103934665603) name;
         unit = of_nat (unat (mixed mod 20001)) / 20000
     in (2 * unit - 1) * RTO_JITTER_RATIO)"

definition maxBaseRTO :: float64 where
  "maxBaseRTO = MAX_RTO / (1 + RTO_JITTER_RATIO)"

fun backoffLoop :: "nat \<Rightarrow> float64 \<Rightarrow> float64" where
  "backoffLoop 0 timeoutMs = timeoutMs"
| "backoffLoop (Suc retries) timeoutMs =
    (if timeoutMs < maxBaseRTO then backoffLoop retries (min (timeoutMs * 2) maxBaseRTO) else timeoutMs)"

definition retransmissionTimeout :: "float64 \<Rightarrow> int \<Rightarrow> string \<Rightarrow> u64 \<Rightarrow> duration" where
  "retransmissionTimeout baseRTO backoffLevel name generation =
    (let level = (if backoffLevel < 0 then 0 else backoffLevel);
         t0 = min (max baseRTO MIN_RTO) maxBaseRTO;
         t1 = backoffLoop (nat level) t0;
         t2 = t1 * (1 + retransmissionJitter name generation);
         t3 = (if t2 < MIN_RTO then MIN_RTO else t2);
         t4 = (if t3 > MAX_RTO then MAX_RTO else t3)
     in go_trunc (t4 * 1000000))"

subsection \<open>Operations\<close>

definition Add ::
  "config \<Rightarrow> gotime \<Rightarrow> string \<Rightarrow> string \<Rightarrow> int \<Rightarrow> flowId \<Rightarrow> TransmissionMode
   \<Rightarrow> RetransmissionController \<times> flows \<Rightarrow> (RetransmissionController \<times> flows) \<times> ActiveAttempt option" where
  "Add cfg now name prefix seq flowCtx mode s =
    (let (rc, flows) = s in
     case GetRTOIfPending name seq (flows flowCtx) of
       None \<Rightarrow> ((rc, flows), None)
     | Some baseRTO \<Rightarrow>
         let (attempt, level, isFastRepair) =
               (case map_of (rc_active rc) name of
                  Some current \<Rightarrow>
                    if aa_SequenceNum current = seq
                    then (aa_Attempt current + 1,
                          (if aa_FastRepairQueued current then aa_RTOBackoffLevel current
                           else aa_RTOBackoffLevel current + 1),
                          aa_FastRepairQueued current)
                    else (1, 0, False)
                | None \<Rightarrow> (1, 0, False));
             generation = rc_nextGeneration rc + 1;
             timeout = (if mode = ModeDT then retransmissionTimeout baseRTO level name generation
                        else go_trunc (baseRTO * 1000000));
             state = \<lparr>aa_SequenceNum = seq, aa_Generation = generation, aa_Attempt = attempt,
                      aa_RTOBackoffLevel = level, aa_Timeout = timeout, aa_Mode = mode,
                      aa_FlowCtx = Some flowCtx, aa_FastRepairTriggered = False,
                      aa_FastRepairQueued = False\<rparr>;
             pkt = \<lparr>pp_Name = name, pp_Prefix = prefix, pp_Expiration = now + timeout,
                    pp_SequenceNum = seq, pp_Generation = generation, pp_Attempt = attempt,
                    pp_RTOBackoffLevel = level, pp_Timeout = timeout, pp_FlowCtx = flowCtx,
                    pp_Index = 0\<rparr>
         in ((rc\<lparr>rc_nextGeneration := generation,
                rc_active := gm_put name state (rc_active rc),
                rc_pq := heapPush pkt (rc_pq rc), rc_wakeup := True\<rparr>,
              flows(flowCtx := installShadowAttemptAndClearQueued seq generation isFastRepair (flows flowCtx))),
             Some state))"

definition IsCurrent :: "string \<Rightarrow> u64 \<Rightarrow> RetransmissionController \<Rightarrow> bool" where
  "IsCurrent name generation rc =
    (case map_of (rc_active rc) name of None \<Rightarrow> False | Some current \<Rightarrow> aa_Generation current = generation)"

definition RemoveIfCurrent ::
  "string \<Rightarrow> u64 \<Rightarrow> RetransmissionController \<Rightarrow> RetransmissionController \<times> bool" where
  "RemoveIfCurrent name generation rc =
    (if \<not> IsCurrent name generation rc then (rc, False)
     else (rc\<lparr>rc_active := gm_del name (rc_active rc)\<rparr>, True))"

definition Complete :: "string \<Rightarrow> RetransmissionController \<Rightarrow> RetransmissionController \<times> bool" where
  "Complete name rc =
    (if map_of (rc_active rc) name = None then (rc, False)
     else (rc\<lparr>rc_active := gm_del name (rc_active rc)\<rparr>, True))"

definition QueueRetransmissionIfCurrent ::
  "config \<Rightarrow> string \<Rightarrow> u64 \<Rightarrow> RetransmissionController \<times> flows \<Rightarrow> (RetransmissionController \<times> flows) \<times> bool" where
  "QueueRetransmissionIfCurrent cfg name generation s =
    (let (rc, flows) = s in
     case map_of (rc_active rc) name of
       None \<Rightarrow> (s, False)
     | Some current \<Rightarrow>
         if aa_Generation current \<noteq> generation then (s, False)
         else (case aa_FlowCtx current of
                 None \<Rightarrow> (s, False)
               | Some flowCtx \<Rightarrow>
                   let (f, queued) = QueueRetransmission cfg (aa_SequenceNum current) (flows flowCtx)
                   in ((rc, flows(flowCtx := f)), queued)))"

definition QueueShadowFastRepairIfCurrent ::
  "config \<Rightarrow> string \<Rightarrow> shadowFastRepairCandidate \<Rightarrow> flowId \<Rightarrow> RetransmissionController \<times> flows
   \<Rightarrow> (RetransmissionController \<times> flows) \<times> shadowFastRepairQueueOutcome" where
  "QueueShadowFastRepairIfCurrent cfg name candidate flowCtx s =
    (let (rc, flows) = s;
         stale = ((rc, flows(flowCtx := recordShadowFastRepairOutcome candidate shadowFastRepairQueueStale
                              (flows flowCtx))), shadowFastRepairQueueStale)
     in case map_of (rc_active rc) name of
          None \<Rightarrow> stale
        | Some current \<Rightarrow>
            if aa_Generation current \<noteq> cand_Generation candidate
               \<or> aa_SequenceNum current \<noteq> cand_Sequence candidate
               \<or> aa_FlowCtx current \<noteq> Some flowCtx \<or> aa_Mode current \<noteq> ModeDT then stale
            else if aa_FastRepairTriggered current then
              ((rc, flows(flowCtx := recordShadowFastRepairOutcome candidate
                            shadowFastRepairQueueAlreadyTriggered (flows flowCtx))),
               shadowFastRepairQueueAlreadyTriggered)
            else
              let (f, outcome) = queueShadowFastRepair cfg candidate (flows flowCtx);
                  current' = current\<lparr>aa_FastRepairTriggered := True,
                    aa_FastRepairQueued := (outcome = shadowFastRepairQueueQueued)\<rparr>
              in ((rc\<lparr>rc_active := gm_put name current' (rc_active rc)\<rparr>, flows(flowCtx := f)), outcome))"

text \<open>\<open>runShadowLossScan\<close>: the locked scan, then one call of the controller per candidate.\<close>

fun queueCandidates ::
  "config \<Rightarrow> flowId \<Rightarrow> shadowFastRepairCandidate list \<Rightarrow> RetransmissionController \<times> flows
   \<Rightarrow> RetransmissionController \<times> flows" where
  "queueCandidates cfg fid [] s = s"
| "queueCandidates cfg fid (c # cs) s =
    queueCandidates cfg fid cs
      (fst (QueueShadowFastRepairIfCurrent cfg (interestNameForSeq cfg (snd s fid) (cand_Sequence c)) c fid s))"

definition runShadowLossScan ::
  "config \<Rightarrow> gotime \<Rightarrow> flowId \<Rightarrow> RetransmissionController \<times> flows \<Rightarrow> RetransmissionController \<times> flows" where
  "runShadowLossScan cfg now fid s =
    (let (rc, flows) = s;
         (f, candidates) = shadowLossScanLocked now (flows fid)
     in queueCandidates cfg fid candidates (rc, flows(fid := f)))"

text \<open>
  One round of \<open>StartScheduler\<close> under the lock.  \<open>Wait d\<close> is the round that goes to sleep for \<open>d\<close>
  (until the wake-up signal, the stop signal or the deadline), \<open>Again\<close> one that starts over; a
  discovery timeout increments the timeout statistic.
\<close>

datatype schedulerResult = Wait duration | Again bool

definition schedulerRound ::
  "config \<Rightarrow> gotime \<Rightarrow> RetransmissionController \<times> flows \<Rightarrow> (RetransmissionController \<times> flows) \<times> schedulerResult" where
  "schedulerRound cfg now s =
    (let (rc, flows) = s in
     case rc_pq rc of
       [] \<Rightarrow> (s, Wait (10 * second))
     | first # _ \<Rightarrow>
         if now > pp_Expiration first then
           (case heapPop (rc_pq rc) of
              None \<Rightarrow> (s, Wait 0)
            | Some (item, pq) \<Rightarrow>
                let rc1 = rc\<lparr>rc_pq := pq\<rparr> in
                (case map_of (rc_active rc1) (pp_Name item) of
                  None \<Rightarrow> ((rc1, flows), Again False)
                | Some current \<Rightarrow>
                    if aa_Generation current \<noteq> pp_Generation item then ((rc1, flows), Again False)
                    else if aa_Mode current = ModeDT then
                      let fid = pp_FlowCtx item;
                          f1 = RecordShadowRTO (pp_SequenceNum item) now (flows fid);
                          (f2, queued) = QueueRetransmission cfg (pp_SequenceNum item) f1;
                          f3 = (if queued then fst (OnDTRTO f2) else f2)
                      in ((rc1, flows(fid := f3)), Again False)
                    else
                      ((rc1\<lparr>rc_active := gm_del (pp_Name item) (rc_active rc1)\<rparr>,
                        flows(pp_FlowCtx item := OnTimeout cfg (pp_Name item) (flows (pp_FlowCtx item)))),
                       Again True)))
         else (s, Wait (time_sub (pp_Expiration first) now)))"

subsection \<open>Timeouts stay in their range\<close>

lemma jitter_bound: "\<bar>retransmissionJitter name generation\<bar> \<le> 1 / 10"
proof -
  define m where "m = foldl (\<lambda>m c. (m XOR of_nat (code c)) * 1099511628211) (generation XOR 1469598103934665603) name"
  have "m mod 20001 < 20001" by (rule word_mod_less_divisor) simp
  then have "unat (m mod 20001) < unat (20001 :: u64)" by (simp only: word_less_nat_alt)
  then have "unat (m mod 20001) \<le> 20000" by simp
  define u where "u = unat (m mod 20001)"
  have "u \<le> 20000" using \<open>unat (m mod 20001) \<le> 20000\<close> by (simp only: u_def)
  then have "real u \<le> 20000" "0 \<le> real u" by simp_all
  then show ?thesis
    unfolding retransmissionJitter_def m_def [symmetric] u_def [symmetric] Let_def
    by (simp add: RTO_JITTER_RATIO_def abs_le_iff)
qed

lemma backoffLoop_eq:
  "0 < t \<Longrightarrow> t \<le> maxBaseRTO \<Longrightarrow> backoffLoop k t = min (t * 2 ^ k) maxBaseRTO"
proof (induction k arbitrary: t)
  case (Suc k)
  have grow: "t \<le> t * 2 ^ k" using Suc.prems(1) by simp
  show ?case
  proof (cases "t < maxBaseRTO")
    case True
    have "0 < maxBaseRTO" using Suc.prems by linarith
    then have "backoffLoop k (min (t * 2) maxBaseRTO) = min (min (t * 2) maxBaseRTO * 2 ^ k) maxBaseRTO"
      using Suc.prems by (intro Suc.IH) auto
    also have "\<dots> = min (t * 2 ^ Suc k) maxBaseRTO"
    proof (cases "t * 2 \<le> maxBaseRTO")
      case False
      have "maxBaseRTO \<le> maxBaseRTO * 2 ^ k" using \<open>0 < maxBaseRTO\<close> by simp
      moreover have "maxBaseRTO \<le> t * 2 * 2 ^ k" using False grow Suc.prems(1) by (smt (verit) mult_right_mono one_le_power mult_le_cancel_left1)
      ultimately show ?thesis using False by (simp add: min_def mult.assoc)
    qed (simp add: min_def mult.assoc)
    finally show ?thesis using True by simp
  next
    case False
    then have "t = maxBaseRTO" using Suc.prems(2) by simp
    moreover have "maxBaseRTO \<le> maxBaseRTO * 2 ^ Suc k" 
      using Suc.prems \<open>t = maxBaseRTO\<close> one_le_power [of "2 :: real" "Suc k"] by simp
    ultimately show ?thesis by (simp add: min_absorb2)
  qed
qed simp

text \<open>
  (C36) Exponential backoff.  The timeout of an attempt is, up to the jitter of at most ten percent
  and the truncation to nanoseconds, the clamped RTO doubled once per backoff level and capped
  below the maximum so that the jitter still fits; it is between 240 ms and 3.5 s for every RTO,
  level, name and generation.
\<close>

theorem retransmission_timeout_backoff:
  fixes baseRTO :: float64 and level :: int and name :: string and generation :: u64
  defines "d \<equiv> retransmissionTimeout baseRTO level name generation"
    and "T \<equiv> min (min (max baseRTO MIN_RTO) maxBaseRTO * 2 ^ nat level) maxBaseRTO"
  shows "240000000 \<le> d \<and> d \<le> 3500000000 \<and> T * (9 / 10) * 1000000 - 1 < of_int d \<and> of_int d \<le> T * (11 / 10) * 1000000"
proof -
  let ?t0 = "min (max baseRTO MIN_RTO) maxBaseRTO"
  have cap: "240 \<le> maxBaseRTO" "maxBaseRTO * (11 / 10) = 3500"
    by (simp_all add: maxBaseRTO_def MAX_RTO_def RTO_JITTER_RATIO_def)
  have t0: "240 \<le> ?t0" "?t0 \<le> maxBaseRTO" using cap by (auto simp: MIN_RTO_def)
  have T: "backoffLoop (nat level) ?t0 = T" unfolding T_def using t0 by (intro backoffLoop_eq) auto
  have lev: "nat (if level < 0 then 0 else level) = nat level" by simp
  have "?t0 * 1 \<le> ?t0 * 2 ^ nat level" using t0(1) by (intro mult_left_mono) auto
  then have T0: "240 \<le> T" "T \<le> maxBaseRTO" using t0 cap order_trans [OF t0(1)] by (auto simp: T_def)
  define j where "j = retransmissionJitter name generation"
  have j: "- (1 / 10) \<le> j" "j \<le> 1 / 10" using jitter_bound [of name generation] by (auto simp: j_def abs_le_iff)
  define t2 where "t2 = T * (1 + j)"
  have t2: "T * (9 / 10) \<le> t2" "t2 \<le> T * (11 / 10)"
    unfolding t2_def using j T0(1) by (auto intro!: mult_left_mono)
  define t4 where "t4 = (if t2 < MIN_RTO then MIN_RTO else t2)"
  have "t2 \<le> 3500" using t2(2) T0(2) cap(2) by linarith
  then have t4: "240 \<le> t4" "t4 \<le> 3500" "T * (9 / 10) \<le> t4" "t4 \<le> T * (11 / 10)"
    using t2 T0(1) by (auto simp: t4_def MIN_RTO_def)
  have d: "d = go_trunc (t4 * 1000000)"
    unfolding d_def retransmissionTimeout_def Let_def lev T j_def [symmetric] t2_def [symmetric] t4_def [symmetric]
    using t4(2) by (simp add: MAX_RTO_def)
  have "d = \<lfloor>t4 * 1000000\<rfloor>" using t4(1) unfolding d go_trunc_def by simp
  then show ?thesis using t4 by (auto simp: le_floor_iff floor_le_iff) linarith+
qed

end
