(* ===== verification/Retx_Invariant.thy ===== *)
theory Retx_Invariant
  imports Retx_Controller
begin

text \<open>
  What the operations of the controller and of a flow do to the books of a transfer: which
  sequences are pending, received and marked for retransmission, and which of them have a live
  timer.  The invariant of the controller is that a pending sequence is marked or timed.
\<close>

subsection \<open>The books of a flow\<close>

definition books :: "flow \<Rightarrow> TransmissionMode \<times> name \<times> (string, PendingSend) gomap \<times> (int, bool) gomap
    \<times> (int, bool) gomap \<times> bool" where
  "books f = (f_Mode f, f_baseName f, f_pendingSends f, f_receivedSeqs f, f_retxQueued f, f_isFinished f)"

named_theorems book_frames \<open>operations that do not touch the books\<close>

lemma books_RecordShadowRTO [book_frames]: "books (RecordShadowRTO seq t f) = books f"
  by (simp add: books_def RecordShadowRTO_def)

lemma books_OnDTRTO [book_frames]: "books (fst (OnDTRTO f)) = books f"
  by (simp add: books_def OnDTRTO_def)

lemma books_Outcome [book_frames]: "books (recordShadowFastRepairOutcome c outcome f) = books f"
  by (simp add: books_def recordShadowFastRepairOutcome_def)

lemma books_scan [book_frames]: "books (fst (shadowLossScanLocked now f)) = books f"
  by (simp add: books_def shadowLossScanLocked_def split: prod.split)

lemma books_periodic [book_frames]: "books (flowPeriodicRateControl cfg now f) = books f"
  by (simp add: books_def flowPeriodicRateControl_def)

lemma books_noFresh [book_frames]: "books (flowCheckNoFreshSamples cfg now f) = books f"
  by (simp add: books_def flowCheckNoFreshSamples_def)

lemma books_sets:
  assumes "books f = books g"
  shows "pendingSet cfg f = pendingSet cfg g" "receivedSet f = receivedSet g" "retxMarked f = retxMarked g"
    "f_baseName f = f_baseName g" "interestNameForSeq cfg f seq = interestNameForSeq cfg g seq"
  using assms by (simp_all add: books_def pendingSet_def receivedSet_def retxMarked_def interestNameForSeq_def)

text \<open>The part of the books that only sends and Data change.\<close>

definition transfer :: "flow \<Rightarrow> TransmissionMode \<times> name \<times> (string, PendingSend) gomap \<times> (int, bool) gomap \<times> bool" where
  "transfer f = (f_Mode f, f_baseName f, f_pendingSends f, f_receivedSeqs f, f_isFinished f)"

lemma books_transfer: "books f = books g \<Longrightarrow> transfer f = transfer g"
  by (simp add: books_def transfer_def)

lemma transfer_sets:
  assumes "transfer f = transfer g"
  shows "pendingSet cfg f = pendingSet cfg g" "receivedSet f = receivedSet g"
    "f_baseName f = f_baseName g" "interestNameForSeq cfg f seq = interestNameForSeq cfg g seq"
  using assms by (simp_all add: transfer_def pendingSet_def receivedSet_def interestNameForSeq_def)

lemma pending_not_finished:
  assumes "flow_cfg_ok cfg" "dt_inv cfg f" "seq \<in> pendingSet cfg f"
  shows "\<not> f_isFinished f" "\<not> gm_bool (f_receivedSeqs f) seq" "0 < seq"
    "map_of (f_pendingSends f) (interestNameForSeq cfg f seq) \<noteq> None"
proof -
  have led: "ledger cfg (f_baseName f) (f_pendingSends f) (f_receivedSeqs f) (f_pktsReceivedTotal f)
      (f_isFinished f) (f_doneCloses f)" using assms(2) by (simp add: dt_parts)
  show "\<not> f_isFinished f"
  proof
    assume "f_isFinished f"
    then have "pendingSeqs cfg (f_baseName f) (f_pendingSends f) = {}"
      using ledger_finished(2) [of cfg] led assms(1) by (metis flow_cfg_ok_def)
    then show False using assms(3) by (simp add: pendingSet_def)
  qed
  show "\<not> gm_bool (f_receivedSeqs f) seq"
    using led assms(3) gm_bool_all_true [of "f_receivedSeqs f" seq] by (auto simp: ledger_def pendingSet_def)
  show "0 < seq" "map_of (f_pendingSends f) (interestNameForSeq cfg f seq) \<noteq> None"
    using assms(3) by (auto simp: pendingSet_def pendingSeqs_def seq_range_def interestNameForSeq_def)
qed

lemma pendingSet_name:
  assumes "flow_cfg_ok cfg" "dt_inv cfg f" "map_of (f_pendingSends f) (interestNameForSeq cfg f seq) \<noteq> None"
  shows "seq \<in> pendingSet cfg f"
proof -
  have led: "ledger cfg (f_baseName f) (f_pendingSends f) (f_receivedSeqs f) (f_pktsReceivedTotal f)
      (f_isFinished f) (f_doneCloses f)" using assms(2) by (simp add: dt_parts)
  obtain p where "map_of (f_pendingSends f) (seqName cfg (f_baseName f) seq) = Some p"
    using assms(3) by (auto simp: interestNameForSeq_def)
  from ledger_key [OF assms(1) led this] show ?thesis
    by (metis seqName_eqD pendingSet_def)
qed

lemma queue_effect:
  assumes "flow_cfg_ok cfg" "dt_inv cfg f"
  shows "transfer (fst (QueueRetransmission cfg seq f)) = transfer f"
    and "retxMarked (fst (QueueRetransmission cfg seq f)) = retxMarked f \<union> ({seq} \<inter> pendingSet cfg f)"
proof -
  show "transfer (fst (QueueRetransmission cfg seq f)) = transfer f"
    by (simp add: transfer_def QueueRetransmission_def queueRetransmissionLocked_def)
  have mode: "f_Mode f = ModeDT" and marks: "list_all snd (f_retxQueued f)"
    using assms(2) by (simp_all add: dt_parts retx_def)
  show "retxMarked (fst (QueueRetransmission cfg seq f)) = retxMarked f \<union> ({seq} \<inter> pendingSet cfg f)"
  proof (cases "seq \<in> pendingSet cfg f")
    case True
    then show ?thesis
      using pending_not_finished [OF assms True] mode gm_bool_all_true [OF marks, of seq]
        gm.dom_put [of seq True "f_retxQueued f"]
      by (auto simp: QueueRetransmission_def queueRetransmissionLocked_def retxMarked_def)
  next
    case False
    then have "map_of (f_pendingSends f) (interestNameForSeq cfg f seq) = None"
      using pendingSet_name [OF assms] by blast
    then show ?thesis using False by (simp add: QueueRetransmission_def queueRetransmissionLocked_def)
  qed
qed

lemma install_effect:
  "transfer (installShadowAttemptAndClearQueued seq gen fast f) = transfer f"
  "0 < seq \<Longrightarrow> retxMarked (installShadowAttemptAndClearQueued seq gen fast f) = retxMarked f - {seq}"
  using gm.dom_del [of seq "f_retxQueued f"]
  by (auto simp: transfer_def retxMarked_def installShadowAttemptAndClearQueued_def
      clearQueuedRetransmissionLocked_def Let_def)

lemma pop_keeps_marks:
  "retxMarked f \<inter> {s. sendable cfg f s} \<subseteq> retxMarked (fst (popLoop cfg f)) \<union> set_option (snd (popLoop cfg f))"
proof (induction f rule: popLoop_induct [where cfg = cfg])
  case (empty f)
  then show ?case by (auto simp: popLoop_end retxMarked_def)
next
  case (skip f)
  have "sendable cfg (popSkip f) = sendable cfg f"
    by (simp add: sendable_def interestNameForSeq_def fun_eq_iff popSkip_def)
  then show ?case using skip by (simp add: popLoop_step)
next
  case (send f)
  then have "gm_bool (f_retxQueued f) (f_retxQueue f ! f_retxHead f)" by (simp add: sendable_def)
  then show ?case using send by (auto simp: popLoop_step)
next
  case (drop f)
  have "sendable cfg (popTake f) s" if "sendable cfg f s" for s
    using that drop(3) by (auto simp: sendable_def interestNameForSeq_def popTake_def popSkip_def)
  moreover have "s \<noteq> f_retxQueue f ! f_retxHead f" if "sendable cfg f s" for s using that drop(3) by blast
  ultimately show ?case using drop by (fastforce simp: popLoop_step)
qed

lemma pop_effect:
  assumes "flow_cfg_ok cfg" "dt_inv cfg f"
  shows "transfer (fst (PopRetransmission cfg f)) = transfer f"
    and "retxMarked f \<inter> pendingSet cfg f \<subseteq> retxMarked (fst (PopRetransmission cfg f)) \<union> set_option (snd (PopRetransmission cfg f))"
    and "set_option (snd (PopRetransmission cfg f)) \<subseteq> pendingSet cfg f"
proof -
  show "transfer (fst (PopRetransmission cfg f)) = transfer f"
    unfolding PopRetransmission_def by (rule popLoop_frame [of cfg f]) (simp add: transfer_def)
  have "retxMarked f \<inter> pendingSet cfg f \<subseteq> {s. sendable cfg f s}"
    using assms gm_bool_all_true [of "f_retxQueued f"] pending_not_finished [OF assms]
    by (auto simp: sendable_def retxMarked_def dt_parts retx_def)
  then show "retxMarked f \<inter> pendingSet cfg f
      \<subseteq> retxMarked (fst (PopRetransmission cfg f)) \<union> set_option (snd (PopRetransmission cfg f))"
    using pop_keeps_marks [of f cfg] unfolding PopRetransmission_def by blast
  have "sendable cfg f s" if "snd (popLoop cfg f) = Some s" for s
    using that unfolding popLoop_find by (auto simp: find_Some_iff)
  then show "set_option (snd (PopRetransmission cfg f)) \<subseteq> pendingSet cfg f"
    using pendingSet_name [OF assms] by (auto simp: PopRetransmission_def sendable_def)
qed

lemma fastRepair_effect:
  "transfer (fst (queueShadowFastRepair cfg c f)) = transfer f"
  "retxMarked f \<subseteq> retxMarked (fst (queueShadowFastRepair cfg c f))"
  using gm.dom_put [of "cand_Sequence c" True "f_retxQueued f"]
  by (auto simp: queueShadowFastRepair_def queueRetransmissionLocked_def recordShadowFastRepairOutcome_def
      transfer_def retxMarked_def Let_def split: prod.split)

lemma send_effect:
  assumes "flow_cfg_ok cfg" "dt_inv cfg f" "seq \<in> seq_range cfg"
    and "RecordInterestSend (interestNameForSeq cfg f seq) seq t rt f = (f', mode, recorded)"
  shows "mode = ModeDT" "recorded \<longleftrightarrow> \<not> f_isFinished f \<and> seq \<notin> receivedSet f"
    "receivedSet f' = receivedSet f" "retxMarked f' = retxMarked f" "f_baseName f' = f_baseName f"
    "pendingSet cfg f' = (if recorded then insert seq (pendingSet cfg f) else pendingSet cfg f)"
proof -
  have m: "f_Mode f = ModeDT" and r: "list_all snd (f_receivedSeqs f)"
    using assms(2) by (simp_all add: dt_parts ledger_def)
  show "mode = ModeDT" "receivedSet f' = receivedSet f" "retxMarked f' = retxMarked f" "f_baseName f' = f_baseName f"
    using assms(4) m by (auto simp: RecordInterestSend_def Let_def receivedSet_def retxMarked_def split: if_splits)
  show rec: "recorded \<longleftrightarrow> \<not> f_isFinished f \<and> seq \<notin> receivedSet f"
    using assms(4) m gm_bool_all_true [OF r, of seq]
    by (auto simp: RecordInterestSend_def Let_def receivedSet_def split: if_splits)
  show "pendingSet cfg f' = (if recorded then insert seq (pendingSet cfg f) else pendingSet cfg f)"
  proof (cases recorded)
    case True
    then obtain e where "f_pendingSends f' = gm_put (seqName cfg (f_baseName f) seq) e (f_pendingSends f)"
      "f_baseName f' = f_baseName f"
      using assms(4) m by (auto simp: RecordInterestSend_def Let_def interestNameForSeq_def split: if_splits)
    then show ?thesis using True pendingSeqs_put [OF assms(1,3)] by (simp add: pendingSet_def)
  next
    case False
    then have "f' = f" using assms(4) m by (auto simp: RecordInterestSend_def Let_def split: if_splits)
    then show ?thesis using False by simp
  qed
qed

lemma data_effect:
  assumes cfg: "flow_cfg_ok cfg" and inv: "dt_inv cfg f" and res: "OnData cfg payload nm t f = (f', ok)"
  shows "if ok then \<exists>seq \<in> pendingSet cfg f. nm = interestNameForSeq cfg f seq \<and> f_baseName f' = f_baseName f
      \<and> pendingSet cfg f' = pendingSet cfg f - {seq} \<and> receivedSet f' = insert seq (receivedSet f)
      \<and> retxMarked f' = retxMarked f - {seq}
    else books f' = books f"
proof (cases "map_of (f_pendingSends f) nm")
  case None
  then show ?thesis using res by (auto simp: OnData_def)
next
  case (Some p)
  have led: "ledger cfg (f_baseName f) (f_pendingSends f) (f_receivedSeqs f) (f_pktsReceivedTotal f)
      (f_isFinished f) (f_doneCloses f)" and mode: "f_Mode f = ModeDT"
    using inv by (simp_all add: dt_parts)
  obtain seq where seq: "seq \<in> seq_range cfg" "nm = seqName cfg (f_baseName f) seq" "extractSeqNum nm = seq"
    "seq \<in> pendingSet cfg f"
    using ledger_key [OF cfg led Some] by (metis pendingSet_def)
  note pend = pending_not_finished [OF cfg inv seq(4)]
  have eq: "OnData cfg payload nm t f = onDataDT cfg payload nm t p f"
    using Some pend(1) mode by (simp add: OnData_def)
  show ?thesis
  proof (cases "deserializeData payload")
    case None
    then have "(f', ok) = (f, False)" using res seq(3) pend unfolding eq by (simp add: onDataDT_def)
    then show ?thesis by simp
  next
    case (Some pkt)
    have "ok \<and> f_baseName f' = f_baseName f \<and> f_pendingSends f' = gm_del nm (f_pendingSends f)
        \<and> f_receivedSeqs f' = gm_put seq True (f_receivedSeqs f) \<and> f_retxQueued f' = gm_del seq (f_retxQueued f)"
      by (rule onDataDT_accept [OF seq(3) pend(3,2) Some, of cfg t p]) (use res eq in auto)
    then show ?thesis
      using seq pendingSeqs_del [OF cfg seq(1), of "f_baseName f" "f_pendingSends f"]
        gm.dom_put [of seq True "f_receivedSeqs f"] gm.dom_del [of seq "f_retxQueued f"]
      by (auto simp: pendingSet_def receivedSet_def retxMarked_def interestNameForSeq_def)
  qed
qed

subsection \<open>The books of the controller\<close>

text \<open>The timers on the heap, without their positions.\<close>

definition timers :: "RetransmissionController \<Rightarrow> PendingPacket multiset" where
  "timers rc = ph.contents (rc_pq rc)"

definition issued :: "RetransmissionController \<Rightarrow> bool" where
  "issued rc \<longleftrightarrow> (\<forall>p \<in># timers rc. pp_Generation p \<le> rc_nextGeneration rc)
     \<and> (\<forall>nm a. map_of (rc_active rc) nm = Some a \<longrightarrow> aa_Generation a \<le> rc_nextGeneration rc)"

definition timer_of :: "PendingPacket \<Rightarrow> string \<Rightarrow> ActiveAttempt \<Rightarrow> bool" where
  "timer_of p nm a \<longleftrightarrow> pp_Name p = nm \<and> pp_Generation p = aa_Generation a"

definition rc_inv :: "RetransmissionController \<Rightarrow> bool" where
  "rc_inv rc \<longleftrightarrow> gm_ok (rc_active rc) \<and> ph.heap_ok (rc_pq rc) \<and> issued rc
     \<and> (\<forall>p \<in># timers rc. \<forall>nm a. map_of (rc_active rc) nm = Some a \<and> timer_of p nm a \<longrightarrow>
          aa_FlowCtx a = Some (pp_FlowCtx p) \<and> aa_SequenceNum a = pp_SequenceNum p)
     \<and> (\<forall>nm a. map_of (rc_active rc) nm = Some a \<longrightarrow> aa_Mode a = ModeDT)"

text \<open>A sequence has a live timer: the timer of the current attempt of its name is on the heap.\<close>

definition timed :: "RetransmissionController \<Rightarrow> flowId \<Rightarrow> string \<Rightarrow> int \<Rightarrow> bool" where
  "timed rc fid nm seq \<longleftrightarrow> (\<exists>a. map_of (rc_active rc) nm = Some a \<and> aa_FlowCtx a = Some fid \<and> aa_SequenceNum a = seq
     \<and> (\<exists>p \<in># timers rc. timer_of p nm a))"

lemma rc_inv_new: "rc_inv NewRetransmissionController"
  by (simp add: rc_inv_def NewRetransmissionController_def issued_def timers_def ph.contents_def)

lemma fresh_generation: "g \<le> n \<Longrightarrow> n \<noteq> - 1 \<Longrightarrow> g \<noteq> n + 1 \<and> g \<le> n + 1" for n :: u64
proof -
  assume "g \<le> n" "n \<noteq> - 1"
  then have "unat (n + 1) = Suc (unat n)" using unatSuc [of n] by (simp add: add.commute add_eq_0_iff)
  then have "n < n + 1" by (simp add: word_less_nat_alt)
  then show "g \<noteq> n + 1 \<and> g \<le> n + 1" using \<open>g \<le> n\<close> by auto
qed

lemma timers_push:
  assumes "ph.heap_ok (rc_pq rc)"
  shows "ph.heap_ok (heapPush p (rc_pq rc))"
    "ph.contents (heapPush p (rc_pq rc)) = add_mset (packetMark (-1) p) (ph.contents (rc_pq rc))"
  using ph.push_correct [OF assms] by (simp_all add: heapPush_def)

lemma Add_none: "GetRTOIfPending nm seq (fl fid) = None \<Longrightarrow> Add cfg now nm pfx seq fid mode (rc, fl) = ((rc, fl), None)"
  by (simp add: Add_def)

text \<open>What \<open>Add\<close> installs: a new generation with its timer, and nothing else.\<close>

lemma Add_some:
  assumes "GetRTOIfPending nm seq (fl fid) = Some rto"
  obtains a pkt fast where
    "Add cfg now nm pfx seq fid mode (rc, fl)
      = ((rc\<lparr>rc_nextGeneration := rc_nextGeneration rc + 1, rc_active := gm_put nm a (rc_active rc),
             rc_pq := heapPush pkt (rc_pq rc), rc_wakeup := True\<rparr>,
          fl(fid := installShadowAttemptAndClearQueued seq (rc_nextGeneration rc + 1) fast (fl fid))), Some a)"
    "aa_SequenceNum a = seq" "aa_Generation a = rc_nextGeneration rc + 1" "aa_Mode a = mode"
    "aa_FlowCtx a = Some fid" "\<not> aa_FastRepairTriggered a" "\<not> aa_FastRepairQueued a"
    "pp_Name pkt = nm" "pp_Generation pkt = rc_nextGeneration rc + 1" "pp_FlowCtx pkt = fid"
    "pp_SequenceNum pkt = seq" "pp_Timeout pkt = aa_Timeout a" "pp_Expiration pkt = now + aa_Timeout a"
    "aa_RTOBackoffLevel a = (case map_of (rc_active rc) nm of
       Some c \<Rightarrow> if aa_SequenceNum c \<noteq> seq then 0 else if aa_FastRepairQueued c then aa_RTOBackoffLevel c
                 else aa_RTOBackoffLevel c + 1
     | None \<Rightarrow> 0)"
proof -
  let ?c = "case map_of (rc_active rc) nm of
      Some current \<Rightarrow>
        if aa_SequenceNum current = seq
        then (aa_Attempt current + 1,
              (if aa_FastRepairQueued current then aa_RTOBackoffLevel current else aa_RTOBackoffLevel current + 1),
              aa_FastRepairQueued current)
        else (1, 0, False)
    | None \<Rightarrow> (1, 0, False)"
  obtain attempt level fast where c: "?c = (attempt, level, fast)" by (rule prod_cases3)
  let ?g = "rc_nextGeneration rc + 1"
  define timeout where "timeout = (if mode = ModeDT then retransmissionTimeout rto level nm ?g else go_trunc (rto * 1000000))"
  let ?a = "\<lparr>aa_SequenceNum = seq, aa_Generation = ?g, aa_Attempt = attempt, aa_RTOBackoffLevel = level,
      aa_Timeout = timeout, aa_Mode = mode, aa_FlowCtx = Some fid, aa_FastRepairTriggered = False,
      aa_FastRepairQueued = False\<rparr>"
  let ?p = "\<lparr>pp_Name = nm, pp_Prefix = pfx, pp_Expiration = now + timeout, pp_SequenceNum = seq,
      pp_Generation = ?g, pp_Attempt = attempt, pp_RTOBackoffLevel = level, pp_Timeout = timeout,
      pp_FlowCtx = fid, pp_Index = 0\<rparr>"
  have "Add cfg now nm pfx seq fid mode (rc, fl)
      = ((rc\<lparr>rc_nextGeneration := ?g, rc_active := gm_put nm ?a (rc_active rc),
             rc_pq := heapPush ?p (rc_pq rc), rc_wakeup := True\<rparr>,
          fl(fid := installShadowAttemptAndClearQueued seq ?g fast (fl fid))), Some ?a)"
    unfolding Add_def Let_def by (simp add: assms c timeout_def [symmetric])
  moreover have "level = (case map_of (rc_active rc) nm of
       Some c \<Rightarrow> if aa_SequenceNum c \<noteq> seq then 0 else if aa_FastRepairQueued c then aa_RTOBackoffLevel c
                 else aa_RTOBackoffLevel c + 1
     | None \<Rightarrow> 0)"
    using c by (cases "map_of (rc_active rc) nm") (simp_all split: if_splits)
  ultimately show thesis by (intro that [of ?p ?a fast]) simp_all
qed

lemma rc_inv_add:
  assumes inv: "rc_inv rc" and room: "rc_nextGeneration rc \<noteq> - 1"
    and a: "aa_SequenceNum a = seq" "aa_Generation a = rc_nextGeneration rc + 1" "aa_Mode a = ModeDT" "aa_FlowCtx a = Some fid"
    and pkt: "pp_Name pkt = nm" "pp_Generation pkt = rc_nextGeneration rc + 1" "pp_FlowCtx pkt = fid" "pp_SequenceNum pkt = seq"
    and rc': "rc' = rc\<lparr>rc_nextGeneration := rc_nextGeneration rc + 1, rc_active := gm_put nm a (rc_active rc),
        rc_pq := heapPush pkt (rc_pq rc), rc_wakeup := True\<rparr>"
  shows "rc_inv rc'" "timed rc' fid nm seq"
    "nm' \<noteq> nm \<Longrightarrow> timed rc fid' nm' seq' \<Longrightarrow> timed rc' fid' nm' seq'"
proof -
  have heap: "ph.heap_ok (rc_pq rc)" using inv by (simp add: rc_inv_def)
  have timers: "timers rc' = add_mset (packetMark (-1) pkt) (timers rc)"
    using timers_push(2) [OF heap] by (simp add: timers_def rc')
  have old: "pp_Generation p \<noteq> rc_nextGeneration rc + 1 \<and> pp_Generation p \<le> rc_nextGeneration rc + 1"
    if "p \<in># timers rc" for p
    using inv that fresh_generation [OF _ room] by (auto simp: rc_inv_def issued_def)
  have act: "aa_Generation b \<noteq> rc_nextGeneration rc + 1 \<and> aa_Generation b \<le> rc_nextGeneration rc + 1"
    if "map_of (rc_active rc) n = Some b" for n b
    using inv that fresh_generation [OF _ room] by (auto simp: rc_inv_def issued_def)
  show "rc_inv rc'"
    using inv old act a pkt timers_push(1) [OF heap, of pkt] timers
    by (auto simp: rc_inv_def issued_def timer_of_def rc' packetMark_def split: if_splits)
  show "timed rc' fid nm seq"
    using a pkt timers by (auto simp: timed_def rc' timer_of_def packetMark_def)
  show "timed rc' fid' nm' seq'" if "nm' \<noteq> nm" "timed rc fid' nm' seq'"
    using that timers by (auto simp: timed_def rc')
qed

definition attemptKey :: "ActiveAttempt \<Rightarrow> int \<times> u64 \<times> flowId option \<times> TransmissionMode" where
  "attemptKey a = (aa_SequenceNum a, aa_Generation a, aa_FlowCtx a, aa_Mode a)"

lemma rc_inv_relabel:
  assumes inv: "rc_inv rc" and same: "rc_pq rc' = rc_pq rc" "rc_nextGeneration rc' = rc_nextGeneration rc"
    and ok: "gm_ok (rc_active rc')"
    and act: "\<And>nm a'. map_of (rc_active rc') nm = Some a' \<Longrightarrow> \<exists>a. map_of (rc_active rc) nm = Some a \<and> attemptKey a' = attemptKey a"
  shows "rc_inv rc'"
proof -
  have ti: "timers rc' = timers rc" by (simp add: timers_def same)
  have "aa_Generation a' \<le> rc_nextGeneration rc \<and> aa_Mode a' = ModeDT
      \<and> (\<forall>p \<in># timers rc. timer_of p nm a' \<longrightarrow> aa_FlowCtx a' = Some (pp_FlowCtx p) \<and> aa_SequenceNum a' = pp_SequenceNum p)"
    if a': "map_of (rc_active rc') nm = Some a'" for nm a'
  proof -
    obtain a where a: "map_of (rc_active rc) nm = Some a" "attemptKey a' = attemptKey a" using act [OF a'] by blast
    then show ?thesis using inv by (simp add: rc_inv_def issued_def attemptKey_def timer_of_def)
  qed
  then show ?thesis using inv ok unfolding rc_inv_def issued_def ti same by blast
qed

lemma timed_relabel:
  assumes "timed rc fid nm seq" "rc_pq rc' = rc_pq rc"
    and "\<And>a. map_of (rc_active rc) nm = Some a \<Longrightarrow> \<exists>a'. map_of (rc_active rc') nm = Some a' \<and> attemptKey a' = attemptKey a"
  shows "timed rc' fid nm seq"
proof -
  obtain a p where a: "map_of (rc_active rc) nm = Some a" "aa_FlowCtx a = Some fid" "aa_SequenceNum a = seq"
    "p \<in># timers rc" "timer_of p nm a"
    using assms(1) by (auto simp: timed_def)
  obtain a' where "map_of (rc_active rc') nm = Some a'" "attemptKey a' = attemptKey a" using assms(3) [OF a(1)] by blast
  moreover have "timers rc' = timers rc" by (simp add: timers_def assms(2))
  ultimately show ?thesis using a unfolding timed_def by (auto simp: attemptKey_def timer_of_def)
qed

lemma active_del:
  assumes "rc_inv rc"
  shows "rc_inv (rc\<lparr>rc_active := gm_del nm (rc_active rc)\<rparr>)"
    "nm' \<noteq> nm \<Longrightarrow> timed rc fid nm' seq \<Longrightarrow> timed (rc\<lparr>rc_active := gm_del nm (rc_active rc)\<rparr>) fid nm' seq"
proof -
  show "rc_inv (rc\<lparr>rc_active := gm_del nm (rc_active rc)\<rparr>)"
    using assms by (rule rc_inv_relabel) (use assms in \<open>auto simp: rc_inv_def split: if_splits\<close>)
  show "timed (rc\<lparr>rc_active := gm_del nm (rc_active rc)\<rparr>) fid nm' seq" if "nm' \<noteq> nm" "timed rc fid nm' seq"
    using that(2) by (rule timed_relabel) (use that(1) in auto)
qed

lemma Complete_inv:
  assumes "rc_inv rc"
  shows "rc_inv (fst (Complete nm rc))" "nm' \<noteq> nm \<Longrightarrow> timed rc fid nm' seq \<Longrightarrow> timed (fst (Complete nm rc)) fid nm' seq"
  using assms active_del(1) [OF assms, of nm] active_del(2) [OF assms, of nm' nm fid seq] by (simp_all add: Complete_def)

lemma active_flags:
  assumes "rc_inv rc" "map_of (rc_active rc) nm = Some a"
    and rc': "rc' = rc\<lparr>rc_active := gm_put nm (a\<lparr>aa_FastRepairTriggered := b, aa_FastRepairQueued := c\<rparr>) (rc_active rc)\<rparr>"
  shows "rc_inv rc'" "timed rc fid nm' seq \<Longrightarrow> timed rc' fid nm' seq"
proof -
  show "rc_inv rc'"
    using assms(1) unfolding rc'
    by (rule rc_inv_relabel) (use assms(1,2) in \<open>auto simp: rc_inv_def attemptKey_def split: if_splits\<close>)
  show "timed rc' fid nm' seq" if "timed rc fid nm' seq"
    using that unfolding rc' by (rule timed_relabel) (use assms(2) in \<open>auto simp: attemptKey_def\<close>)
qed

lemma heapPop_timers:
  assumes "rc_inv rc" "heapPop (rc_pq rc) = Some (item, pq)"
  shows "rc_inv (rc\<lparr>rc_pq := pq\<rparr>)" "timers rc = add_mset item (timers (rc\<lparr>rc_pq := pq\<rparr>))"
proof -
  have heap: "ph.heap_ok (rc_pq rc)" "rc_pq rc \<noteq> []"
    using assms by (auto simp: rc_inv_def heapPop_def heap_pop_def)
  obtain x h where x: "heap_pop packetMark pp_Expiration (rc_pq rc) = Some (x, h)" "ph.heap_ok h"
    "ph.contents (rc_pq rc) = add_mset x (ph.contents h)"
    by (rule ph.pop_correct [OF heap]) blast
  then show eq: "timers rc = add_mset item (timers (rc\<lparr>rc_pq := pq\<rparr>))"
    using assms(2) by (simp add: timers_def heapPop_def)
  show "rc_inv (rc\<lparr>rc_pq := pq\<rparr>)"
    using assms x eq by (auto simp: rc_inv_def issued_def heapPop_def)
qed

lemma timed_pop:
  assumes "rc_inv rc" "heapPop (rc_pq rc) = Some (item, pq)" "timed rc fid nm seq"
  shows "timed (rc\<lparr>rc_pq := pq\<rparr>) fid nm seq
    \<or> pp_FlowCtx item = fid \<and> pp_SequenceNum item = seq
      \<and> (\<exists>a. map_of (rc_active rc) (pp_Name item) = Some a \<and> aa_Generation a = pp_Generation item)"
proof -
  obtain a p where a: "map_of (rc_active rc) nm = Some a" "aa_FlowCtx a = Some fid" "aa_SequenceNum a = seq"
    "p \<in># timers rc" "timer_of p nm a"
    using assms(3) by (auto simp: timed_def)
  have "p = item \<or> p \<in># timers (rc\<lparr>rc_pq := pq\<rparr>)" using a(4) heapPop_timers(2) [OF assms(1,2)] by auto
  then show ?thesis
  proof
    assume "p = item"
    then show ?thesis using a assms(1) by (auto simp: rc_inv_def timer_of_def)
  next
    assume "p \<in># timers (rc\<lparr>rc_pq := pq\<rparr>)"
    then show ?thesis using a by (auto simp: timed_def)
  qed
qed

subsection \<open>No pending sequence is forgotten\<close>

text \<open>
  The names of the Interests of different flows are different: flows have different base names.
  \<open>recoverable\<close> is the joint invariant of the controller and the flows below \<open>n\<close>: each of them is
  in data transmission under its own invariant, and each pending sequence is marked for
  retransmission or has a live timer.
\<close>

definition apart :: "config \<Rightarrow> (flowId \<Rightarrow> name) \<Rightarrow> nat \<Rightarrow> bool" where
  "apart cfg base n \<longleftrightarrow> (\<forall>i < n. \<forall>j < n. i \<noteq> j \<longrightarrow> (\<forall>s s'. seqName cfg (base i) s \<noteq> seqName cfg (base j) s'))"

definition awaited :: "config \<Rightarrow> RetransmissionController \<Rightarrow> flowId \<Rightarrow> flow \<Rightarrow> bool" where
  "awaited cfg rc fid f \<longleftrightarrow> (\<forall>seq \<in> pendingSet cfg f. seq \<in> retxMarked f \<or> timed rc fid (interestNameForSeq cfg f seq) seq)"

definition recoverable :: "config \<Rightarrow> (flowId \<Rightarrow> name) \<Rightarrow> nat \<Rightarrow> RetransmissionController \<times> flows \<Rightarrow> bool" where
  "recoverable cfg base n s \<longleftrightarrow> rc_inv (fst s)
     \<and> (\<forall>fid < n. dt_inv cfg (snd s fid) \<and> f_baseName (snd s fid) = base fid \<and> awaited cfg (fst s) fid (snd s fid))"

lemma awaited_mono:
  assumes "awaited cfg rc fid f" "transfer f' = transfer f" "retxMarked f \<subseteq> retxMarked f'"
    and "\<And>seq nm. seq \<in> pendingSet cfg f \<Longrightarrow> seq \<notin> retxMarked f' \<Longrightarrow> timed rc fid nm seq \<Longrightarrow> timed rc' fid nm seq"
  shows "awaited cfg rc' fid f'"
  using assms transfer_sets [OF assms(2)] unfolding awaited_def by (metis subsetD)

lemma recoverable_flow:
  assumes "recoverable cfg base n (rc, fl)" "fid < n"
    and "dt_inv cfg f'" "transfer f' = transfer (fl fid)" "retxMarked (fl fid) \<subseteq> retxMarked f'"
  shows "recoverable cfg base n (rc, fl(fid := f'))"
  using assms awaited_mono [of cfg rc fid "fl fid" f' rc] transfer_sets(3) [OF assms(4)]
  by (auto simp: recoverable_def)

lemma recoverable_books:
  assumes "recoverable cfg base n (rc, fl)" "dt_inv cfg (fl fid) \<Longrightarrow> dt_inv cfg f'" "books f' = books (fl fid)"
  shows "recoverable cfg base n (rc, fl(fid := f'))"
proof (cases "fid < n")
  case True
  then have "dt_inv cfg f'" using assms(1,2) by (auto simp: recoverable_def)
  then show ?thesis
    using recoverable_flow [OF assms(1) True] books_transfer [OF assms(3)] books_sets(3) [OF assms(3)] by simp
qed (use assms(1) in \<open>auto simp: recoverable_def\<close>)

lemma recoverable_queue:
  assumes "flow_cfg_ok cfg" "recoverable cfg base n (rc, fl)"
  shows "recoverable cfg base n (rc, fl(fid := fst (QueueRetransmission cfg seq (fl fid))))"
proof (cases "fid < n")
  case True
  then have "dt_inv cfg (fl fid)" using assms(2) by (simp add: recoverable_def)
  then show ?thesis
    using recoverable_flow [OF assms(2) True] queue_effect [OF assms(1)] dt_inv_QueueRetransmission [OF assms(1)] by blast
qed (use assms(2) in \<open>auto simp: recoverable_def\<close>)

lemma recoverable_rc:
  assumes "recoverable cfg base n (rc, fl)" "rc_inv rc'" "\<And>fid nm seq. timed rc fid nm seq \<Longrightarrow> timed rc' fid nm seq"
  shows "recoverable cfg base n (rc', fl)"
  using assms unfolding recoverable_def awaited_def fst_conv snd_conv by blast

lemma recoverable_fastRepair:
  assumes cfg: "flow_cfg_ok cfg" and rec: "recoverable cfg base n s"
  shows "recoverable cfg base n (fst (QueueShadowFastRepairIfCurrent cfg nm c fid s))"
proof -
  obtain rc fl where s: "s = (rc, fl)" by (cases s)
  have outcome: "recoverable cfg base n (rc, fl(fid := recordShadowFastRepairOutcome c oc (fl fid)))" for oc
    using rec unfolding s recordShadowFastRepairOutcome_def
    by (rule recoverable_books) (auto intro!: dt_inv_shadow shadow_inv_QueueOutcome dest: dt_invD
        simp: books_def)
  have queued: "recoverable cfg base n (rc\<lparr>rc_active := gm_put nm (a\<lparr>aa_FastRepairTriggered := True,
      aa_FastRepairQueued := q\<rparr>) (rc_active rc)\<rparr>, fl(fid := fst (queueShadowFastRepair cfg c (fl fid))))"
    if a: "map_of (rc_active rc) nm = Some a" for a q
  proof -
    have inv: "rc_inv rc" using rec s by (simp add: recoverable_def)
    have "recoverable cfg base n (rc\<lparr>rc_active := gm_put nm (a\<lparr>aa_FastRepairTriggered := True,
        aa_FastRepairQueued := q\<rparr>) (rc_active rc)\<rparr>, fl)"
      using rec [unfolded s] active_flags [OF inv a refl] by (rule recoverable_rc)
    then show ?thesis
    proof (cases "fid < n")
      case True
      then have "dt_inv cfg (fl fid)" using rec by (simp add: recoverable_def s)
      then show ?thesis
        using \<open>recoverable cfg base n (_, fl)\<close> True dt_inv_queueShadowFastRepair [OF cfg] fastRepair_effect
        by (intro recoverable_flow) auto
    qed (auto simp: recoverable_def)
  qed
  show ?thesis
    using outcome queued unfolding s QueueShadowFastRepairIfCurrent_def
    by (auto simp: Let_def case_prod_beta split: option.split)
qed

lemma recoverable_scan:
  assumes cfg: "flow_cfg_ok cfg" and rec: "recoverable cfg base n s"
  shows "recoverable cfg base n (runShadowLossScan cfg now fid s)"
proof -
  obtain rc fl where s: "s = (rc, fl)" by (cases s)
  obtain f cs where scan: "shadowLossScanLocked now (fl fid) = (f, cs)" by fastforce
  have "recoverable cfg base n (rc, fl(fid := f))"
    using rec dt_inv_scan [of cfg "fl fid" now] books_scan [of now "fl fid"] unfolding s
    by (intro recoverable_books) (auto simp: scan)
  moreover have "recoverable cfg base n s' \<Longrightarrow> recoverable cfg base n (queueCandidates cfg fid cs s')" for s'
  proof (induction cs arbitrary: s')
    case (Cons c cs)
    then show ?case by (simp only: queueCandidates.simps) (blast intro: recoverable_fastRepair [OF cfg])
  qed simp
  ultimately show ?thesis by (simp add: runShadowLossScan_def s scan)
qed

lemma recoverable_nack:
  assumes cfg: "flow_cfg_ok cfg" and rec: "recoverable cfg base n s"
  shows "recoverable cfg base n (fst (QueueRetransmissionIfCurrent cfg nm gen s))"
  using rec recoverable_queue [OF cfg, of base n "fst s" "snd s"]
  by (auto simp: QueueRetransmissionIfCurrent_def case_prod_beta Let_def split: option.split)

text \<open>A timer that fires marks its sequence before it is forgotten.\<close>

lemma rto_effect:
  assumes cfg: "flow_cfg_ok cfg" and inv: "dt_inv cfg f"
    and f': "(f2, queued) = QueueRetransmission cfg seq (RecordShadowRTO seq now f)"
      "f' = (if queued then fst (OnDTRTO f2) else f2)"
  shows "dt_inv cfg f'" "transfer f' = transfer f" "retxMarked f' = retxMarked f \<union> ({seq} \<inter> pendingSet cfg f)"
proof -
  let ?f1 = "RecordShadowRTO seq now f"
  have f2: "f2 = fst (QueueRetransmission cfg seq ?f1)" by (simp add: f'(1) [symmetric])
  have inv1: "dt_inv cfg ?f1" using inv by (rule dt_inv_RecordShadowRTO)
  have same: "books f' = books f2" by (simp add: f'(2) book_frames)
  show "dt_inv cfg f'"
    using dt_inv_QueueRetransmission [OF cfg inv1, of seq] dt_inv_OnDTRTO by (simp add: f'(2) f2)
  show "transfer f' = transfer f"
    using books_transfer [OF same] queue_effect(1) [OF cfg inv1, of seq] books_transfer [OF books_RecordShadowRTO]
    by (simp add: f2)
  show "retxMarked f' = retxMarked f \<union> ({seq} \<inter> pendingSet cfg f)"
    using books_sets(3) [OF same] queue_effect(2) [OF cfg inv1, of seq] books_sets(1,3) [OF books_RecordShadowRTO]
    by (simp add: f2)
qed

lemma recoverable_pop_timer:
  assumes rec: "recoverable cfg base n (rc, fl)" and pop: "heapPop (rc_pq rc) = Some (item, pq)"
    and inv: "pp_FlowCtx item < n \<Longrightarrow> dt_inv cfg f'" and same: "transfer f' = transfer (fl (pp_FlowCtx item))"
    and marks: "retxMarked (fl (pp_FlowCtx item)) \<subseteq> retxMarked f'"
    and mark: "\<And>a. map_of (rc_active rc) (pp_Name item) = Some a \<Longrightarrow> aa_Generation a = pp_Generation item \<Longrightarrow>
      pp_FlowCtx item < n \<Longrightarrow> pp_SequenceNum item \<in> pendingSet cfg (fl (pp_FlowCtx item)) \<Longrightarrow> pp_SequenceNum item \<in> retxMarked f'"
  shows "recoverable cfg base n (rc\<lparr>rc_pq := pq\<rparr>, fl(pp_FlowCtx item := f'))"
proof -
  let ?rc = "rc\<lparr>rc_pq := pq\<rparr>" and ?i = "pp_FlowCtx item"
  have rcinv: "rc_inv rc" using rec by (simp add: recoverable_def)
  have "awaited cfg ?rc fid ((fl(?i := f')) fid)" if fid: "fid < n" for fid
  proof -
    let ?f = "(fl(?i := f')) fid"
    have tr: "transfer ?f = transfer (fl fid)" "retxMarked (fl fid) \<subseteq> retxMarked ?f" using same marks by auto
    have aw: "awaited cfg rc fid (fl fid)" using rec fid by (simp add: recoverable_def)
    have keep: "timed ?rc fid nm seq"
      if "seq \<in> pendingSet cfg (fl fid)" "seq \<notin> retxMarked ?f" "timed rc fid nm seq" for seq nm
      using timed_pop [OF rcinv pop that(3)] mark that(1,2) fid by auto
    show ?thesis using aw tr keep by (rule awaited_mono)
  qed
  moreover have "dt_inv cfg ((fl(?i := f')) fid) \<and> f_baseName ((fl(?i := f')) fid) = base fid" if "fid < n" for fid
    using rec that inv transfer_sets(3) [OF same] by (auto simp: recoverable_def)
  ultimately show ?thesis
    unfolding recoverable_def fst_conv snd_conv using heapPop_timers(1) [OF rcinv pop] by blast
qed

lemma recoverable_scheduler:
  assumes cfg: "flow_cfg_ok cfg" and rec: "recoverable cfg base n s"
  shows "recoverable cfg base n (fst (schedulerRound cfg now s))"
proof -
  obtain rc fl where s: "s = (rc, fl)" by (cases s)
  show ?thesis
  proof (cases "\<exists>first rest item pq. rc_pq rc = first # rest \<and> now > pp_Expiration first \<and> heapPop (rc_pq rc) = Some (item, pq)")
    case False
    then have "fst (schedulerRound cfg now s) = s"
      by (auto simp: schedulerRound_def s Let_def split: list.split option.split)
    then show ?thesis using rec by simp
  next
    case True
    then obtain first rest item pq where p: "rc_pq rc = first # rest" "now > pp_Expiration first" "heapPop (rc_pq rc) = Some (item, pq)"
      by blast
    let ?i = "pp_FlowCtx item" and ?seq = "pp_SequenceNum item"
    obtain f2 queued where q: "(f2, queued) = QueueRetransmission cfg ?seq (RecordShadowRTO ?seq now (fl ?i))"
      by (metis surj_pair)
    define f3 where "f3 = (if queued then fst (OnDTRTO f2) else f2)"
    have mode: "aa_Mode a = ModeDT" if "map_of (rc_active rc) nm = Some a" for nm a
      using rec that by (simp add: s recoverable_def rc_inv_def)
    show ?thesis
    proof (cases "\<exists>a. map_of (rc_active rc) (pp_Name item) = Some a \<and> aa_Generation a = pp_Generation item")
      case False
      then have "fst (schedulerRound cfg now s) = (rc\<lparr>rc_pq := pq\<rparr>, fl)"
        using p by (auto simp: schedulerRound_def s Let_def split: option.split)
      then show ?thesis
        using recoverable_pop_timer [OF rec [unfolded s] p(3), of "fl ?i"] False rec by (auto simp: recoverable_def s)
    next
      case cur: True
      then have eq: "fst (schedulerRound cfg now s) = (rc\<lparr>rc_pq := pq\<rparr>, fl(?i := f3))"
        using p mode q [symmetric] by (auto simp: schedulerRound_def s Let_def f3_def)
      show ?thesis
      proof (cases "?i < n")
        case True
        then have "dt_inv cfg (fl ?i)" using rec by (simp add: recoverable_def s)
        note eff = rto_effect [OF cfg this q f3_def]
        show ?thesis unfolding eq
          by (rule recoverable_pop_timer [OF rec [unfolded s] p(3)]) (use eff in auto)
      next
        case False
        then have "recoverable cfg base n (rc\<lparr>rc_pq := pq\<rparr>, fl(?i := fl ?i))"
          by (intro recoverable_pop_timer [OF rec [unfolded s] p(3)]) auto
        then show ?thesis unfolding eq using False by (auto simp: recoverable_def)
      qed
    qed
  qed
qed

text \<open>
  A send: the sequence may just have been taken off the retransmission queue (\<open>f1\<close> is the flow
  after the pop), and it leaves the send with a live timer, or already received.
\<close>

lemma recoverable_send:
  assumes cfg: "flow_cfg_ok cfg" and rec: "recoverable cfg base n (rc, fl)" and apart: "apart cfg base n" and fid: "fid < n"
    and room: "rc_nextGeneration rc \<noteq> - 1"
    and inv1: "dt_inv cfg f1" and same: "transfer f1 = transfer (fl fid)"
    and marks: "retxMarked (fl fid) \<inter> pendingSet cfg (fl fid) \<subseteq> retxMarked f1 \<union> {seq}"
    and ok: "send_allowed cfg seq f1"
    and send: "RecordInterestSend (interestNameForSeq cfg f1 seq) seq t rt f1 = (f2, mode, recorded)"
  shows "if recorded then mode = ModeDT
      \<and> (\<exists>s a. Add cfg now (interestNameForSeq cfg f1 seq) pfx seq fid mode (rc, fl(fid := f2)) = (s, Some a)
           \<and> aa_Mode a = ModeDT \<and> recoverable cfg base n s \<and> pendingSet cfg (snd s fid) = insert seq (pendingSet cfg (fl fid))
           \<and> receivedSet (snd s fid) = receivedSet (fl fid))
    else f2 = f1 \<and> recoverable cfg base n (rc, fl(fid := f1)) \<and> seq \<in> receivedSet f1"
proof -
  let ?nm = "interestNameForSeq cfg f1 seq" and ?f = "fl fid"
  have sr: "seq \<in> seq_range cfg" using ok by (simp add: send_allowed_def)
  have eff: "mode = ModeDT" "recorded \<longleftrightarrow> \<not> f_isFinished f1 \<and> seq \<notin> receivedSet f1"
    "receivedSet f2 = receivedSet f1" "retxMarked f2 = retxMarked f1" "f_baseName f2 = f_baseName f1"
    "pendingSet cfg f2 = (if recorded then insert seq (pendingSet cfg f1) else pendingSet cfg f1)"
    using send_effect [OF cfg inv1 sr send] by auto
  have sets: "pendingSet cfg f1 = pendingSet cfg ?f" "receivedSet f1 = receivedSet ?f" "f_baseName f1 = f_baseName ?f"
    using transfer_sets [OF same] by auto
  have base: "f_baseName ?f = base fid" and aw: "awaited cfg rc fid ?f" and rci: "rc_inv rc"
    using rec fid by (auto simp: recoverable_def)
  show ?thesis
  proof (cases recorded)
    case False
    have f2: "f2 = f1" using send False by (auto simp: RecordInterestSend_def Let_def split: if_splits)
    have "receivedSet f1 = seq_range cfg" if "f_isFinished f1"
      using ledger_finished(1) [of cfg "f_baseName f1" "f_pendingSends f1"] that inv1 cfg
      by (simp add: dt_parts flow_cfg_ok_def receivedSet_def) blast
    then have recv: "seq \<in> receivedSet f1" using False eff(2) sr by blast
    then have "seq \<notin> pendingSet cfg f1" using inv1 by (auto simp: dt_parts ledger_def receivedSet_def pendingSet_def)
    then have "awaited cfg rc fid f1"
      using aw marks sets by (auto simp: awaited_def interestNameForSeq_def)
    then have "recoverable cfg base n (rc, fl(fid := f1))"
      using rec inv1 base sets by (auto simp: recoverable_def)
    then show ?thesis using False f2 recv by simp
  next
    case True
    have pend: "seq \<in> pendingSet cfg f2" using eff(6) True by simp
    have inv2: "dt_inv cfg f2" using dt_inv_RecordInterestSend [OF cfg inv1 ok, of t rt] send by simp
    note pn = pending_not_finished [OF cfg inv2 pend]
    have nm: "interestNameForSeq cfg f2 s = seqName cfg (base fid) s" for s using eff(5) sets base by (simp add: interestNameForSeq_def)
    have nm1: "?nm = seqName cfg (base fid) seq" using sets base by (simp add: interestNameForSeq_def)
    obtain rto where rto: "GetRTOIfPending ?nm seq ((fl(fid := f2)) fid) = Some rto"
      using pn nm nm1 by (auto simp: GetRTOIfPending_def)
    obtain pkt a fast where add: "Add cfg now ?nm pfx seq fid mode (rc, fl(fid := f2))
      = ((rc\<lparr>rc_nextGeneration := rc_nextGeneration rc + 1, rc_active := gm_put ?nm a (rc_active rc),
             rc_pq := heapPush pkt (rc_pq rc), rc_wakeup := True\<rparr>,
          (fl(fid := f2))(fid := installShadowAttemptAndClearQueued seq (rc_nextGeneration rc + 1) fast ((fl(fid := f2)) fid))), Some a)"
      and a: "aa_SequenceNum a = seq" "aa_Generation a = rc_nextGeneration rc + 1" "aa_Mode a = mode" "aa_FlowCtx a = Some fid"
      and pkt: "pp_Name pkt = ?nm" "pp_Generation pkt = rc_nextGeneration rc + 1" "pp_FlowCtx pkt = fid" "pp_SequenceNum pkt = seq"
      by (rule Add_some [where fl = "fl(fid := f2)" and fid = fid and nm = ?nm and seq = seq and rc = rc
            and cfg = cfg and now = now and pfx = pfx and mode = mode, OF rto]) blast
    define rc' where "rc' = rc\<lparr>rc_nextGeneration := rc_nextGeneration rc + 1, rc_active := gm_put ?nm a (rc_active rc),
             rc_pq := heapPush pkt (rc_pq rc), rc_wakeup := True\<rparr>"
    define f3 where "f3 = installShadowAttemptAndClearQueued seq (rc_nextGeneration rc + 1) fast f2"
    have am: "aa_Mode a = ModeDT" using a(3) eff(1) by simp
    note add_inv = rc_inv_add [OF rci room a(1,2) am a(4) pkt rc'_def]
    have f3: "transfer f3 = transfer f2" "retxMarked f3 = retxMarked f1 - {seq}" "dt_inv cfg f3"
      using install_effect [of seq _ fast f2] pn(3) eff(4) dt_inv_install inv2 by (auto simp: f3_def)
    have sets3: "pendingSet cfg f3 = insert seq (pendingSet cfg ?f)" "receivedSet f3 = receivedSet ?f" "f_baseName f3 = base fid"
      using transfer_sets [OF f3(1)] eff True sets base by auto
    have "awaited cfg rc' fid f3"
      unfolding awaited_def
    proof
      fix s assume s: "s \<in> pendingSet cfg f3"
      show "s \<in> retxMarked f3 \<or> timed rc' fid (interestNameForSeq cfg f3 s) s"
      proof (cases "s = seq")
        case True
        then show ?thesis using add_inv(2) nm1 sets3(3) by (simp add: interestNameForSeq_def)
      next
        case False
        then have "seqName cfg (base fid) s \<noteq> ?nm" using nm1 seqName_eqD by metis
        then show ?thesis
          using aw s False sets3 marks f3(2) base add_inv(3) by (auto simp: awaited_def interestNameForSeq_def)
      qed
    qed
    moreover have "awaited cfg rc' i (fl i)" if "i < n" "i \<noteq> fid" for i
    proof -
      have "awaited cfg rc i (fl i)" "f_baseName (fl i) = base i" using rec that by (auto simp: recoverable_def)
      moreover have "seqName cfg (base i) s \<noteq> ?nm" for s using apart that fid nm1 by (simp add: apart_def)
      ultimately show ?thesis using add_inv(3) by (auto simp: awaited_def interestNameForSeq_def)
    qed
    ultimately have "recoverable cfg base n (rc', fl(fid := f3))"
      using rec add_inv(1) f3(3) sets3(3) by (auto simp: recoverable_def)
    then show ?thesis using True add am eff(1) sets3 by (simp add: rc'_def f3_def)
  qed
qed

lemma recoverable_data:
  assumes cfg: "flow_cfg_ok cfg" and rec: "recoverable cfg base n (rc, fl)" and apart: "apart cfg base n" and fid: "fid < n"
    and data: "OnData cfg payload nm t (fl fid) = (f', ok)"
  shows "if ok then recoverable cfg base n (fst (Complete nm rc), fl(fid := f'))
      \<and> (\<exists>seq. pendingSet cfg f' = pendingSet cfg (fl fid) - {seq} \<and> receivedSet f' = insert seq (receivedSet (fl fid)))
    else recoverable cfg base n (rc, fl(fid := f')) \<and> books f' = books (fl fid)"
proof -
  let ?f = "fl fid"
  have inv: "dt_inv cfg ?f" and base: "f_baseName ?f = base fid" and aw: "awaited cfg rc fid ?f" and rci: "rc_inv rc"
    using rec fid by (auto simp: recoverable_def)
  have inv': "dt_inv cfg f'" using dt_inv_OnData [OF cfg inv, of payload nm t] data by simp
  note eff = data_effect [OF cfg inv data]
  show ?thesis
  proof (cases ok)
    case False
    then have b: "books f' = books ?f" using eff by simp
    then show ?thesis using recoverable_books [OF rec, of fid f'] inv' False by simp
  next
    case True
    then obtain seq where seq: "seq \<in> pendingSet cfg ?f" "nm = seqName cfg (base fid) seq" "f_baseName f' = base fid"
      "pendingSet cfg f' = pendingSet cfg ?f - {seq}" "receivedSet f' = insert seq (receivedSet ?f)"
      "retxMarked f' = retxMarked ?f - {seq}"
      using eff base by (auto simp: interestNameForSeq_def)
    have "awaited cfg (fst (Complete nm rc)) fid f'"
      unfolding awaited_def
    proof
      fix s assume s: "s \<in> pendingSet cfg f'"
      then have "seqName cfg (base fid) s \<noteq> nm" using seq(2,4) seqName_eqD by blast
      then show "s \<in> retxMarked f' \<or> timed (fst (Complete nm rc)) fid (interestNameForSeq cfg f' s) s"
        using aw s seq base Complete_inv(2) [OF rci] by (auto simp: awaited_def interestNameForSeq_def)
    qed
    moreover have "awaited cfg (fst (Complete nm rc)) i (fl i)" if "i < n" "i \<noteq> fid" for i
    proof -
      have "awaited cfg rc i (fl i)" "f_baseName (fl i) = base i" using rec that by (auto simp: recoverable_def)
      moreover have "seqName cfg (base i) s \<noteq> nm" for s using apart that fid seq(2) by (simp add: apart_def)
      ultimately show ?thesis using Complete_inv(2) [OF rci] by (auto simp: awaited_def interestNameForSeq_def)
    qed
    ultimately have "recoverable cfg base n (fst (Complete nm rc), fl(fid := f'))"
      using rec Complete_inv(1) [OF rci] inv' seq(3) by (auto simp: recoverable_def)
    then show ?thesis using True seq(4,5) by auto
  qed
qed

end
