(* ===== verification/Consumer_Loop.thy ===== *)
theory Consumer_Loop
  imports Retx_Invariant
begin

text \<open>
  The goroutines of the consumer (\<open>apps/consumer/consumer.go\<close>) over the flows and the controller:
  sending one Interest with its callback, the send loop of a flow with its token bucket, the
  rate-control loop, the scheduler, the throughput sampler and the coordination of the switch
  from path discovery to data transfer.

  \<open>w_expressed\<close> records the callbacks given to the engine: a callback closes over the flow, the
  Interest name and the attempt it was sent with.  What the engine, the face and the clock decide is an argument:
  whether the Interest could be encoded and sent, the times read, and which callback fires with
  which result.
\<close>

subsection \<open>Statistics\<close>

record Statistics =
  st_totalSent :: int
  st_dataReceived :: int
  st_nackReceived :: int
  st_timeoutReceived :: int
  st_retransmissions :: int

definition IncrementSent :: "Statistics \<Rightarrow> Statistics" where
  "IncrementSent s = s\<lparr>st_totalSent := st_totalSent s + 1\<rparr>"

definition IncrementData :: "Statistics \<Rightarrow> Statistics" where
  "IncrementData s = s\<lparr>st_dataReceived := st_dataReceived s + 1\<rparr>"

definition IncrementNack :: "Statistics \<Rightarrow> Statistics" where
  "IncrementNack s = s\<lparr>st_nackReceived := st_nackReceived s + 1\<rparr>"

definition IncrementTimeout :: "Statistics \<Rightarrow> Statistics" where
  "IncrementTimeout s = s\<lparr>st_timeoutReceived := st_timeoutReceived s + 1\<rparr>"

definition IncrementRetx :: "Statistics \<Rightarrow> Statistics" where
  "IncrementRetx s = s\<lparr>st_retransmissions := st_retransmissions s + 1\<rparr>"

subsection \<open>The world of a consumer\<close>

record runState =
  rs_tokens :: float64
  rs_sequenceNum :: int
  rs_lastTokenRefill :: gotime
  rs_nextShadowScan :: gotime

record world =
  w_net :: "RetransmissionController \<times> flows"
  w_stats :: Statistics
  w_run :: "flowId \<Rightarrow> runState"
  w_expressed :: "(flowId \<times> string \<times> ActiveAttempt) list"

abbreviation w_rc :: "world \<Rightarrow> RetransmissionController" where "w_rc w \<equiv> fst (w_net w)"
abbreviation w_flows :: "world \<Rightarrow> flows" where "w_flows w \<equiv> snd (w_net w)"

definition setFlow :: "flowId \<Rightarrow> flow \<Rightarrow> world \<Rightarrow> world" where
  "setFlow fid f w = w\<lparr>w_net := (w_rc w, (w_flows w)(fid := f))\<rparr>"

definition setRun :: "flowId \<Rightarrow> runState \<Rightarrow> world \<Rightarrow> world" where
  "setRun fid r w = w\<lparr>w_run := (w_run w)(fid := r)\<rparr>"

subsection \<open>Sending one Interest\<close>

record sendEnv =
  se_made :: bool
  se_sendTime :: gotime
  se_addTime :: gotime
  se_sent :: bool

text \<open>A Nack, a cancelled Interest and a failed \<open>Express\<close> are handled alike.\<close>

definition attemptFailed :: "config \<Rightarrow> flowId \<Rightarrow> string \<Rightarrow> ActiveAttempt \<Rightarrow> world \<Rightarrow> world" where
  "attemptFailed cfg fid interestName attempt w =
    (if aa_Mode attempt = ModeDT then
       w\<lparr>w_net := fst (QueueRetransmissionIfCurrent cfg interestName (aa_Generation attempt) (w_net w))\<rparr>
     else
       let (rc, removed) = RemoveIfCurrent interestName (aa_Generation attempt) (w_rc w);
           fl = (if removed then (w_flows w)(fid := OnNack interestName (w_flows w fid)) else w_flows w)
       in w\<lparr>w_net := (rc, fl)\<rparr>)"

definition sendSingleInterest :: "config \<Rightarrow> sendEnv \<Rightarrow> int \<Rightarrow> flowId \<Rightarrow> bool \<Rightarrow> world \<Rightarrow> world" where
  "sendSingleInterest cfg env sequenceNum fid isRetransmission w =
    (let interestName = nameString (cfg_disableAltUri cfg)
           (nameAppend (f_baseName (w_flows w fid)) [newStringComponent 0x08 (''seq-'' @ itoa sequenceNum)])
     in if \<not> se_made env then w
        else
          let (f1, sendMode, recorded) =
                RecordInterestSend interestName sequenceNum (se_sendTime env) isRetransmission (w_flows w fid);
              w1 = setFlow fid f1 w
          in if \<not> recorded then w1
             else case Add cfg (se_addTime env) interestName (f_Prefix f1) sequenceNum fid sendMode (w_net w1) of
                    (s, None) \<Rightarrow> w1\<lparr>w_net := s\<rparr>
                  | (s, Some attempt) \<Rightarrow>
                      let w2 = w1\<lparr>w_net := s,
                            w_stats := (if isRetransmission then IncrementRetx else IncrementSent) (w_stats w1),
                            w_expressed := (fid, interestName, attempt) # w_expressed w1\<rparr>
                      in if se_sent env then w2 else attemptFailed cfg fid interestName attempt w2)"

datatype expressResult =
    InterestResultNone
  | InterestResultData string string gotime
  | InterestResultNack
  | InterestResultTimeout
  | InterestCancelled
  | InterestResultUnverified
  | InterestResultError

text \<open>
  The callback of \<open>Express\<close>; the Data result carries the content, the name and the arrival time.
  The switch has no case for the results the engine itself never reports.
\<close>

fun expressCallback :: "config \<Rightarrow> flowId \<times> string \<times> ActiveAttempt \<Rightarrow> expressResult \<Rightarrow> world \<Rightarrow> world" where
  "expressCallback cfg (fid, interestName, attempt) InterestResultNack w =
    attemptFailed cfg fid interestName attempt (w\<lparr>w_stats := IncrementNack (w_stats w)\<rparr>)"
| "expressCallback cfg _ InterestResultTimeout w = w"
| "expressCallback cfg (fid, interestName, attempt) InterestCancelled w =
    attemptFailed cfg fid interestName attempt w"
| "expressCallback cfg (fid, interestName, attempt) (InterestResultData content dataName receiveTime) w =
    (let (f1, ok) = OnData cfg content interestName receiveTime (w_flows w fid);
         w1 = setFlow fid f1 w
     in if \<not> ok then w1
        else
          let rc1 = fst (Complete interestName (w_rc w1));
              rc2 = (if dataName \<noteq> interestName then fst (Complete dataName rc1) else rc1)
          in w1\<lparr>w_net := (rc2, w_flows w1), w_stats := IncrementData (w_stats w1)\<rparr>)"
| "expressCallback cfg _ InterestResultNone w = w"
| "expressCallback cfg _ InterestResultUnverified w = w"
| "expressCallback cfg _ InterestResultError w = w"

subsection \<open>The send loop of a flow\<close>

text \<open>
  One tick, before the loop: in path discovery the pause check, which may skip the tick; then the
  refill of the token bucket.  The result says whether the send loop runs.
\<close>

definition pdShouldSend :: "flow \<Rightarrow> flow \<times> bool" where
  "pdShouldSend f =
    (if f_StopPD f then (f, False)
     else if f_RehearsalCount f > 0 then (f\<lparr>f_RehearsalCount := f_RehearsalCount f - 1\<rparr>, True)
     else (f, \<not> f_IsPaused f))"

definition refillTokens :: "gotime \<Rightarrow> float64 \<Rightarrow> runState \<Rightarrow> runState" where
  "refillTokens tickNow currentRate r =
    (let elapsed0 = time_sub tickNow (rs_lastTokenRefill r);
         elapsed = (if elapsed0 < 0 then 0 else elapsed0);
         tokens = rs_tokens r + currentRate * seconds elapsed;
         maxBurstTokens = max 1 (currentRate * seconds DT_SEND_BURST_INTERVAL)
     in r\<lparr>rs_tokens := (if tokens > maxBurstTokens then maxBurstTokens else tokens),
          rs_lastTokenRefill := tickNow\<rparr>)"

definition tickStart :: "gotime \<Rightarrow> flowId \<Rightarrow> world \<Rightarrow> world \<times> bool" where
  "tickStart tickNow fid w =
    (let (f, shouldSend) = (if f_Mode (w_flows w fid) = ModePD then pdShouldSend (w_flows w fid)
                            else (w_flows w fid, True));
         w1 = setFlow fid f w
     in if \<not> shouldSend then (setRun fid ((w_run w fid)\<lparr>rs_lastTokenRefill := tickNow\<rparr>) w1, False)
        else (setRun fid (refillTokens tickNow (GetRate f) (w_run w fid)) w1, True))"

text \<open>One iteration of \<open>for tokens >= 1.0\<close>; the result says whether the loop goes on.\<close>

definition loopIter :: "config \<Rightarrow> sendEnv \<Rightarrow> flowId \<Rightarrow> world \<Rightarrow> world \<times> bool" where
  "loopIter cfg env fid w =
    (let f = w_flows w fid;
         r = w_run w fid;
         has = HasQueuedRetransmission f;
         full = (rs_sequenceNum r \<ge> cfg_MAX_PACKETS cfg)
     in if f_Mode f = ModeDT \<and> \<not> has \<and> full then (setRun fid (r\<lparr>rs_tokens := 0\<rparr>) w, False)
        else if f_Mode f = ModeDT \<and> \<not> has \<and> \<not> CanSendNewDT cfg f then (w, False)
        else if f_Mode f = ModeDT \<and> has then
          (case PopRetransmission cfg f of
             (f1, None) \<Rightarrow> (setFlow fid f1 w, True)
           | (f1, Some retxSeq) \<Rightarrow>
               (sendSingleInterest cfg env retxSeq fid True
                  (setRun fid (r\<lparr>rs_tokens := rs_tokens r - 1\<rparr>) (setFlow fid f1 w)), True))
        else if full then (setRun fid (r\<lparr>rs_tokens := 0\<rparr>) w, False)
        else
          (sendSingleInterest cfg env (rs_sequenceNum r + 1) fid False
             (setRun fid (r\<lparr>rs_sequenceNum := rs_sequenceNum r + 1, rs_tokens := rs_tokens r - 1\<rparr>) w), True))"

text \<open>The loop itself; the environment of the \<open>k\<close>-th iteration is \<open>env k\<close>.\<close>

partial_function (option) sendLoop :: "config \<Rightarrow> (nat \<Rightarrow> sendEnv) \<Rightarrow> nat \<Rightarrow> flowId \<Rightarrow> world \<Rightarrow> world option" where
  "sendLoop cfg env k fid w =
    (if rs_tokens (w_run w fid) < 1 then Some w
     else let (w', continue) = loopIter cfg (env k) fid w
          in if continue then sendLoop cfg env (k + 1) fid w' else Some w')"

definition flowTick :: "config \<Rightarrow> (nat \<Rightarrow> sendEnv) \<Rightarrow> gotime \<Rightarrow> flowId \<Rightarrow> world \<Rightarrow> world option" where
  "flowTick cfg env tickNow fid w =
    (case tickStart tickNow fid w of
       (w1, False) \<Rightarrow> Some w1
     | (w1, True) \<Rightarrow> sendLoop cfg env 0 fid w1)"

text \<open>The reset signal that starts data transfer on a running loop.\<close>

definition flowReset :: "gotime \<Rightarrow> flowId \<Rightarrow> world \<Rightarrow> world" where
  "flowReset now fid w =
    setFlow fid ((w_flows w fid)\<lparr>f_resetSignal := False\<rparr>)
      (setRun fid ((w_run w fid)\<lparr>rs_tokens := 0, rs_sequenceNum := 0, rs_lastTokenRefill := now\<rparr>) w)"

definition startRun :: "gotime \<Rightarrow> runState" where
  "startRun now = \<lparr>rs_tokens = 0, rs_sequenceNum = 0, rs_lastTokenRefill = now, rs_nextShadowScan = 0\<rparr>"

subsection \<open>Rate-control loop and scheduler\<close>

definition controlTick :: "config \<Rightarrow> gotime \<Rightarrow> flowId \<Rightarrow> world \<Rightarrow> world" where
  "controlTick cfg tickNow fid w =
    (let r = w_run w fid;
         w1 = (if isZero (rs_nextShadowScan r) \<or> \<not> tickNow < rs_nextShadowScan r
               then setRun fid (r\<lparr>rs_nextShadowScan := tickNow + shadowLossScanInterval\<rparr>)
                      (w\<lparr>w_net := runShadowLossScan cfg tickNow fid (w_net w)\<rparr>)
               else w);
         f1 = flowCheckNoFreshSamples cfg tickNow (w_flows w1 fid)
     in setFlow fid (flowPeriodicRateControl cfg tickNow f1) w1)"

definition schedulerTick :: "config \<Rightarrow> gotime \<Rightarrow> world \<Rightarrow> world" where
  "schedulerTick cfg now w =
    (case schedulerRound cfg now (w_net w) of
       (s, Again True) \<Rightarrow> w\<lparr>w_net := s, w_stats := IncrementTimeout (w_stats w)\<rparr>
     | (s, _) \<Rightarrow> w\<lparr>w_net := s\<rparr>)"

text \<open>The state \<open>main\<close> starts the goroutines in.\<close>

definition startWorld :: "config \<Rightarrow> gotime \<Rightarrow> (flowId \<Rightarrow> string) \<Rightarrow> world" where
  "startWorld cfg now prefixes = \<lparr>w_net = (NewRetransmissionController, \<lambda>i. NewFlowContext cfg now (prefixes i)),
     w_stats = \<lparr>st_totalSent = 0, st_dataReceived = 0, st_nackReceived = 0, st_timeoutReceived = 0, st_retransmissions = 0\<rparr>,
     w_run = (\<lambda>i. startRun now), w_expressed = []\<rparr>"

subsection \<open>Throughput sampler\<close>

record sampler =
  sa_prevBytes :: "(string, int) gomap"
  sa_prevStart :: "(string, gotime) gomap"
  sa_prevSampleTime :: gotime

definition newSampler :: sampler where
  "newSampler = \<lparr>sa_prevBytes = [], sa_prevStart = [], sa_prevSampleTime = 0\<rparr>"

definition flowThroughput :: "gotime \<Rightarrow> float64 \<Rightarrow> sampler \<Rightarrow> FlowProgressSnapshot \<Rightarrow> float64" where
  "flowThroughput prevSampleTime elapsed sa snapshot =
    (if sn_Mode snapshot = ModeDT \<and> \<not> isZero (sn_StartTime snapshot) then
       let prevFlowStart = gm_get0 0 (sa_prevStart sa) (sn_Prefix snapshot);
           prevFlowBytes = gm_get0 0 (sa_prevBytes sa) (sn_Prefix snapshot)
       in if \<not> isZero prevSampleTime \<and> prevFlowStart = sn_StartTime snapshot \<and> elapsed > 0 then
            let deltaBytes = sn_TotalBytes snapshot - prevFlowBytes
            in if deltaBytes > 0 then (of_int deltaBytes * 8) / (elapsed * 1000000) else 0
          else 0
     else 0)"

fun sampleFlows ::
  "gotime \<Rightarrow> float64 \<Rightarrow> FlowProgressSnapshot list \<Rightarrow> (string, float64) gomap \<times> sampler \<Rightarrow> (string, float64) gomap \<times> sampler" where
  "sampleFlows prevSampleTime elapsed [] acc = acc"
| "sampleFlows prevSampleTime elapsed (snapshot # rest) (throughputs, sa) =
    sampleFlows prevSampleTime elapsed rest
      (gm_put (sn_Prefix snapshot) (flowThroughput prevSampleTime elapsed sa snapshot) throughputs,
       sa\<lparr>sa_prevBytes := gm_put (sn_Prefix snapshot) (sn_TotalBytes snapshot) (sa_prevBytes sa),
          sa_prevStart := gm_put (sn_Prefix snapshot) (sn_StartTime snapshot) (sa_prevStart sa)\<rparr>)"

definition samplerTick :: "gotime \<Rightarrow> FlowProgressSnapshot list \<Rightarrow> sampler \<Rightarrow> (string, float64) gomap \<times> sampler" where
  "samplerTick tickNow snapshots sa =
    (let elapsed = (if \<not> isZero (sa_prevSampleTime sa) then seconds (time_sub tickNow (sa_prevSampleTime sa)) else 0);
         (throughputs, sa1) = sampleFlows (sa_prevSampleTime sa) elapsed snapshots ([], sa)
     in (throughputs, sa1\<lparr>sa_prevSampleTime := tickNow\<rparr>))"

subsection \<open>The switch to data transfer\<close>

record pdCoordination =
  pd_finishedCount :: int
  pd_totalFlows :: int
  pd_startDtCloses :: nat

definition checkAllPdFinished :: "pdCoordination \<Rightarrow> pdCoordination" where
  "checkAllPdFinished c =
    (let c1 = c\<lparr>pd_finishedCount := pd_finishedCount c + 1\<rparr>
     in if pd_finishedCount c1 = pd_totalFlows c1 then c1\<lparr>pd_startDtCloses := pd_startDtCloses c1 + 1\<rparr> else c1)"

subsection \<open>Frames\<close>

lemma setFlow_simps [simp]:
  "w_net (setFlow fid f w) = (w_rc w, (w_flows w)(fid := f))" "w_run (setFlow fid f w) = w_run w"
  "w_stats (setFlow fid f w) = w_stats w" "w_expressed (setFlow fid f w) = w_expressed w"
  by (simp_all add: setFlow_def)

lemma setRun_simps [simp]:
  "w_net (setRun fid r w) = w_net w" "w_run (setRun fid r w) = (w_run w)(fid := r)"
  "w_stats (setRun fid r w) = w_stats w" "w_expressed (setRun fid r w) = w_expressed w"
  by (simp_all add: setRun_def)

lemma attemptFailed_frame [simp]:
  "w_run (attemptFailed cfg fid nm a w) = w_run w" "w_stats (attemptFailed cfg fid nm a w) = w_stats w"
  "w_expressed (attemptFailed cfg fid nm a w) = w_expressed w"
  by (simp_all add: attemptFailed_def Let_def split: prod.split)

lemma send_run [simp]: "w_run (sendSingleInterest cfg env seq fid rt w) = w_run w"
  by (simp add: sendSingleInterest_def Let_def split: prod.split option.split)

text \<open>The number of Interests handed to the engine.\<close>

definition sentTotal :: "world \<Rightarrow> int" where
  "sentTotal w = st_totalSent (w_stats w) + st_retransmissions (w_stats w)"

lemma sentTotal_frames [simp]:
  "sentTotal (setFlow fid f w) = sentTotal w" "sentTotal (setRun fid r w) = sentTotal w"
  "sentTotal (attemptFailed cfg fid nm a w) = sentTotal w" "sentTotal (w\<lparr>w_net := s\<rparr>) = sentTotal w"
  by (simp_all add: sentTotal_def)

lemma sentTotal_send: "sentTotal w \<le> sentTotal (sendSingleInterest cfg env seq fid rt w)"
    "sentTotal (sendSingleInterest cfg env seq fid rt w) \<le> sentTotal w + 1"
  by (auto simp: sendSingleInterest_def Let_def sentTotal_def IncrementSent_def IncrementRetx_def
      split: prod.split option.split)

subsection \<open>The send loop returns\<close>

definition loop_ready :: "config \<Rightarrow> flow \<Rightarrow> bool" where
  "loop_ready cfg f \<longleftrightarrow> f_Mode f = ModePD \<or> dt_inv cfg f"

lemma nack_flow:
  "snd (fst (QueueRetransmissionIfCurrent cfg nm gen s)) fid = snd s fid
   \<or> (\<exists>seq. snd (fst (QueueRetransmissionIfCurrent cfg nm gen s)) fid = fst (QueueRetransmission cfg seq (snd s fid)))"
  by (auto simp: QueueRetransmissionIfCurrent_def case_prod_beta Let_def split: option.split)

lemma mode_frames:
  "f_Mode (fst (QueueRetransmission cfg seq f)) = f_Mode f" "f_Mode (OnNack nm f) = f_Mode f"
  "f_Mode (installShadowAttemptAndClearQueued seq gen fast f) = f_Mode f"
  "f_Mode (fst (RecordInterestSend nm seq t rt f)) = f_Mode f"
  by (simp_all add: QueueRetransmission_def queueRetransmissionLocked_def OnNack_def decOutstandingPD_def
      installShadowAttemptAndClearQueued_def clearQueuedRetransmissionLocked_def RecordInterestSend_def Let_def)

lemma dt_OnNack: "dt_inv cfg f \<Longrightarrow> OnNack nm f = f"
  by (simp add: OnNack_def dt_inv_def)

lemma ready_attemptFailed:
  assumes "flow_cfg_ok cfg" "loop_ready cfg (w_flows w fid)"
  shows "loop_ready cfg (w_flows (attemptFailed cfg i nm a w) fid)"
proof (cases "aa_Mode a = ModeDT")
  case True
  then show ?thesis
    using nack_flow [of cfg nm "aa_Generation a" "w_net w" fid] assms(2) dt_inv_QueueRetransmission [OF assms(1)] mode_frames(1)
    by (auto simp: attemptFailed_def loop_ready_def)
next
  case False
  then show ?thesis
    using assms(2) dt_OnNack mode_frames(2) by (auto simp: attemptFailed_def loop_ready_def Let_def split: prod.split)
qed

lemma Add_flow:
  "snd (fst (Add cfg now nm pfx seq fid mode s)) fid = snd s fid
   \<or> (\<exists>gen fast. snd (fst (Add cfg now nm pfx seq fid mode s)) fid = installShadowAttemptAndClearQueued seq gen fast (snd s fid))"
  by (simp add: Add_def case_prod_beta Let_def split: option.split) blast

lemma send_eq:
  fixes w :: world and fid :: flowId and cfg :: config and seq :: int
  defines "nm \<equiv> interestNameForSeq cfg (w_flows w fid) seq"
  assumes made: "se_made env" and r: "RecordInterestSend nm seq (se_sendTime env) rt (w_flows w fid) = (f1, mode, recorded)"
  shows "sendSingleInterest cfg env seq fid rt w = (if \<not> recorded then setFlow fid f1 w else
     case Add cfg (se_addTime env) nm (f_Prefix f1) seq fid mode (w_rc w, (w_flows w)(fid := f1)) of
        (s, None) \<Rightarrow> (setFlow fid f1 w)\<lparr>w_net := s\<rparr>
      | (s, Some a) \<Rightarrow>
          let w2 = (setFlow fid f1 w)\<lparr>w_net := s,
                w_stats := (if rt then IncrementRetx else IncrementSent) (w_stats w),
                w_expressed := (fid, nm, a) # w_expressed w\<rparr>
          in if se_sent env then w2 else attemptFailed cfg fid nm a w2)"
proof -
  have nm: "nameString (cfg_disableAltUri cfg) (nameAppend (f_baseName (w_flows w fid))
      [newStringComponent 0x08 (''seq-'' @ itoa seq)]) = nm"
    by (simp only: nm_def interestNameForSeq_def seqName_def seqComponent_def)
  show ?thesis
    unfolding sendSingleInterest_def nm Let_def r prod.case using made by (simp cong: if_cong)
qed

lemma ready_send:
  assumes cfg: "flow_cfg_ok cfg" and ready: "loop_ready cfg (w_flows w fid)"
    and ok: "f_Mode (w_flows w fid) = ModeDT \<Longrightarrow> send_allowed cfg seq (w_flows w fid)"
  shows "loop_ready cfg (w_flows (sendSingleInterest cfg env seq fid rt w) fid)"
proof (cases "se_made env")
  case True
  let ?f = "w_flows w fid"
  let ?nm = "interestNameForSeq cfg ?f seq"
  obtain f1 mode recorded where r: "RecordInterestSend ?nm seq (se_sendTime env) rt ?f = (f1, mode, recorded)"
    by (rule prod_cases3)
  have ready1: "loop_ready cfg f1"
    using ready ok dt_inv_RecordInterestSend [OF cfg, of ?f seq "se_sendTime env" rt] mode_frames(4) [of ?nm seq "se_sendTime env" rt ?f]
    by (cases "f_Mode ?f") (auto simp: loop_ready_def r dt_inv_def)
  define s where "s = Add cfg (se_addTime env) ?nm (f_Prefix f1) seq fid mode (w_rc w, (w_flows w)(fid := f1))"
  have ready2: "loop_ready cfg (snd (fst s) fid)"
    using Add_flow [of cfg "se_addTime env" ?nm "f_Prefix f1" seq fid mode "(w_rc w, (w_flows w)(fid := f1))"]
      ready1 dt_inv_install mode_frames(3)
    by (auto simp: s_def loop_ready_def)
  note send_eq [OF True r]
  then show ?thesis
    using ready1 ready2 ready_attemptFailed [OF cfg] unfolding s_def [symmetric]
    by (cases s) (auto simp: Let_def split: option.split)
qed (use ready in \<open>simp add: sendSingleInterest_def\<close>)

text \<open>The sequence the loop takes next: one off the retransmission queue, or a fresh one.\<close>

lemma pop_allowed:
  assumes "flow_cfg_ok cfg" "dt_inv cfg f" "PopRetransmission cfg f = (f1, Some seq)"
  shows "dt_inv cfg f1" "transfer f1 = transfer f" "send_allowed cfg seq f1" "f_Mode f1 = ModeDT"
    "retxMarked f \<inter> pendingSet cfg f \<subseteq> retxMarked f1 \<union> {seq}"
proof -
  show inv: "dt_inv cfg f1" using dt_inv_pop [OF assms(2)] assms(3) by simp
  then show "f_Mode f1 = ModeDT" by (simp add: dt_inv_def)
  show tr: "transfer f1 = transfer f" using pop_effect(1) [OF assms(1,2)] assms(3) by simp
  have "seq \<in> pendingSet cfg f1" using pop_effect(3) [OF assms(1,2)] assms(3) transfer_sets(1) [OF tr] by simp
  then show "send_allowed cfg seq f1" by (auto simp: send_allowed_def pendingSet_def pendingSeqs_def)
  show "retxMarked f \<inter> pendingSet cfg f \<subseteq> retxMarked f1 \<union> {seq}" using pop_effect(2) [OF assms(1,2)] assms(3) by auto
qed

lemma fresh_allowed:
  assumes "\<not> cfg_MAX_PACKETS cfg \<le> n" "0 \<le> n" "CanSendNewDT cfg f"
  shows "send_allowed cfg (n + 1) f"
  using assms by (simp add: send_allowed_def seq_range_def)

definition progress :: "flowId \<Rightarrow> world \<Rightarrow> world \<Rightarrow> bool" where
  "progress fid w w' \<longleftrightarrow> rs_tokens (w_run w' fid) = rs_tokens (w_run w fid) - 1
     \<or> rs_tokens (w_run w' fid) = rs_tokens (w_run w fid)
       \<and> HasQueuedRetransmission (w_flows w fid) \<and> \<not> HasQueuedRetransmission (w_flows w' fid)"

lemma loopIter_step:
  assumes cfg: "flow_cfg_ok cfg" and ready: "loop_ready cfg (w_flows w fid)" and seq: "0 \<le> rs_sequenceNum (w_run w fid)"
    and tokens: "1 \<le> rs_tokens (w_run w fid)" and iter: "loopIter cfg env fid w = (w', continue)"
  shows "loop_ready cfg (w_flows w' fid)" "0 \<le> rs_sequenceNum (w_run w' fid)" "0 \<le> rs_tokens (w_run w' fid)"
    "of_int (sentTotal w' - sentTotal w) \<le> rs_tokens (w_run w fid) - rs_tokens (w_run w' fid)"
    "continue \<Longrightarrow> progress fid w w'"
proof -
  let ?f = "w_flows w fid" and ?r = "w_run w fid"
  have "loop_ready cfg (w_flows w' fid) \<and> 0 \<le> rs_sequenceNum (w_run w' fid) \<and> 0 \<le> rs_tokens (w_run w' fid)
    \<and> of_int (sentTotal w' - sentTotal w) \<le> rs_tokens ?r - rs_tokens (w_run w' fid) \<and> (continue \<longrightarrow> progress fid w w')"
  proof (cases "f_Mode ?f = ModeDT \<and> HasQueuedRetransmission ?f")
    case True
    then have inv: "dt_inv cfg ?f" using ready by (auto simp: loop_ready_def)
    obtain f1 res where pop: "PopRetransmission cfg ?f = (f1, res)" by fastforce
    show ?thesis
    proof (cases res)
      case None
      then have "(w', continue) = (setFlow fid f1 w, True)" using iter True pop by (simp add: loopIter_def Let_def)
      moreover have "dt_inv cfg f1" using dt_inv_pop [OF inv] pop by simp
      moreover have "\<not> HasQueuedRetransmission f1"
        using popLoop_retx [of cfg ?f] inv pop None by (simp add: PopRetransmission_def dt_inv_def HasQueuedRetransmission_def)
      ultimately show ?thesis using True seq tokens by (simp add: loop_ready_def progress_def)
    next
      case (Some s)
      note pa = pop_allowed [OF cfg inv pop [unfolded Some]]
      let ?w = "setRun fid (?r\<lparr>rs_tokens := rs_tokens ?r - 1\<rparr>) (setFlow fid f1 w)"
      have "(w', continue) = (sendSingleInterest cfg env s fid True ?w, True)"
        using iter True pop Some by (simp add: loopIter_def Let_def)
      then show ?thesis
        using ready_send [OF cfg, of ?w fid s env True] pa sentTotal_send(2) [of cfg env s fid True ?w] seq tokens
        by (simp add: loop_ready_def progress_def)
    qed
  next
    case notretx: False
    let ?w = "setRun fid (?r\<lparr>rs_sequenceNum := rs_sequenceNum ?r + 1, rs_tokens := rs_tokens ?r - 1\<rparr>) w"
    consider "(w', continue) = (w, False)" | "(w', continue) = (setRun fid (?r\<lparr>rs_tokens := 0\<rparr>) w, False)"
      | "(w', continue) = (sendSingleInterest cfg env (rs_sequenceNum ?r + 1) fid False ?w, True)"
        "\<not> cfg_MAX_PACKETS cfg \<le> rs_sequenceNum ?r" "f_Mode ?f = ModeDT \<longrightarrow> CanSendNewDT cfg ?f"
      using iter notretx by (auto simp: loopIter_def Let_def split: if_splits)
    then show ?thesis
    proof cases
      case 3
      have "f_Mode ?f = ModeDT \<Longrightarrow> send_allowed cfg (rs_sequenceNum ?r + 1) ?f"
        using 3 seq by (intro fresh_allowed) auto
      then show ?thesis
        using 3(1) ready_send [OF cfg, of ?w fid "rs_sequenceNum ?r + 1" env False] ready seq tokens
          sentTotal_send(2) [of cfg env "rs_sequenceNum ?r + 1" fid False ?w]
        by (simp add: progress_def)
    qed (use ready seq tokens in auto)
  qed
  then show "loop_ready cfg (w_flows w' fid)" "0 \<le> rs_sequenceNum (w_run w' fid)" "0 \<le> rs_tokens (w_run w' fid)"
    "of_int (sentTotal w' - sentTotal w) \<le> rs_tokens (w_run w fid) - rs_tokens (w_run w' fid)"
    "continue \<Longrightarrow> progress fid w w'" by auto
qed

definition loopMeasure :: "flowId \<Rightarrow> world \<Rightarrow> nat" where
  "loopMeasure fid w = 2 * nat \<lfloor>rs_tokens (w_run w fid)\<rfloor> + (if HasQueuedRetransmission (w_flows w fid) then 1 else 0)"

lemma loopMeasure_less:
  assumes "progress fid w w'" "1 \<le> rs_tokens (w_run w fid)"
  shows "loopMeasure fid w' < loopMeasure fid w"
proof -
  define m where "m = nat \<lfloor>rs_tokens (w_run w fid)\<rfloor>"
  have "1 \<le> \<lfloor>rs_tokens (w_run w fid)\<rfloor>" using assms(2) by simp
  then have "1 \<le> m" "nat (\<lfloor>rs_tokens (w_run w fid)\<rfloor> - 1) = m - 1" unfolding m_def by linarith+
  then show ?thesis using assms(1) unfolding progress_def loopMeasure_def m_def [symmetric] by (auto simp: m_def [symmetric])
qed

lemma sendLoop_returns:
  assumes "flow_cfg_ok cfg" "loop_ready cfg (w_flows w fid)" "0 \<le> rs_sequenceNum (w_run w fid)" "0 \<le> rs_tokens (w_run w fid)"
  shows "\<exists>w'. sendLoop cfg env k fid w = Some w' \<and> loop_ready cfg (w_flows w' fid) \<and> 0 \<le> rs_tokens (w_run w' fid)
    \<and> of_int (sentTotal w' - sentTotal w) \<le> rs_tokens (w_run w fid) - rs_tokens (w_run w' fid)"
  using assms(2-)
proof (induction "loopMeasure fid w" arbitrary: w k rule: less_induct)
  case less
  show ?case
  proof (cases "rs_tokens (w_run w fid) < 1")
    case True
    then show ?thesis using less.prems by (subst sendLoop.simps) simp
  next
    case False
    then have one: "1 \<le> rs_tokens (w_run w fid)" by simp
    obtain w1 go where it: "loopIter cfg (env k) fid w = (w1, go)" by fastforce
    note st = loopIter_step [OF assms(1) less.prems(1,2) one it]
    show ?thesis
    proof (cases go)
      case True
      have "loopMeasure fid w1 < loopMeasure fid w" using st(5) [OF True] one by (rule loopMeasure_less)
      then obtain w' where w': "sendLoop cfg env (k + 1) fid w1 = Some w'" "loop_ready cfg (w_flows w' fid)"
        "0 \<le> rs_tokens (w_run w' fid)"
        "of_int (sentTotal w' - sentTotal w1) \<le> rs_tokens (w_run w1 fid) - rs_tokens (w_run w' fid)"
        using less.hyps [of w1 "k + 1"] st(1-3) by blast
      have "sendLoop cfg env k fid w = Some w'" using False it True w'(1) by (subst sendLoop.simps) simp
      then show ?thesis using w' st(4) by (intro exI [of _ w']) simp
    next
      case go: False
      have "sendLoop cfg env k fid w = Some w1" using False it go by (subst sendLoop.simps) simp
      then show ?thesis using st by (intro exI [of _ w1]) simp
    qed
  qed
qed

text \<open>
  (C6) A tick of a flow's send loop ends and respects the pacing bound.  In either mode, for a flow
  in a state its events can reach, the loop \<open>for tokens >= 1.0\<close> returns (a retransmission
  queue of stale entries cannot keep it spinning), and the Interests handed to the engine during
  the tick together with the tokens left are at most the tokens carried over plus those earned
  since the last refill, and at most the burst bound: one, or five milliseconds at the current
  rate.
\<close>

theorem flow_tick_returns_within_burst:
  assumes "flow_cfg_ok cfg" "f_Mode (w_flows w fid) = ModePD \<or> dt_inv cfg (w_flows w fid)"
    and "0 \<le> rs_sequenceNum (w_run w fid)" "0 \<le> rs_tokens (w_run w fid)"
    and "0 \<le> GetRate (w_flows w fid)" "rs_lastTokenRefill (w_run w fid) \<le> now"
  shows "\<exists>w'. flowTick cfg env now fid w = Some w' \<and> 0 \<le> rs_tokens (w_run w' fid)
    \<and> of_int (sentTotal w' - sentTotal w) + rs_tokens (w_run w' fid)
        \<le> rs_tokens (w_run w fid) + GetRate (w_flows w fid) * seconds (time_sub now (rs_lastTokenRefill (w_run w fid)))
    \<and> (sentTotal w' \<noteq> sentTotal w \<longrightarrow> of_int (sentTotal w' - sentTotal w) + rs_tokens (w_run w' fid)
        \<le> max 1 (GetRate (w_flows w fid) * (5 / 1000)))"
proof -
  let ?f = "w_flows w fid" and ?r = "w_run w fid"
  have earn: "0 \<le> GetRate ?f * seconds (time_sub now (rs_lastTokenRefill ?r))"
    using assms(5,6) time_sub_nonneg by (simp add: seconds_def)
  have burst: "seconds DT_SEND_BURST_INTERVAL = 5 / 1000" by (simp add: DT_SEND_BURST_INTERVAL_def seconds_def)
  define f go where "f = (if f_Mode ?f = ModePD then fst (pdShouldSend ?f) else ?f)"
    and "go = (if f_Mode ?f = ModePD then snd (pdShouldSend ?f) else True)"
  have start: "tickStart now fid w = (if go then (setRun fid (refillTokens now (GetRate f) ?r) (setFlow fid f w), True)
      else (setRun fid (?r\<lparr>rs_lastTokenRefill := now\<rparr>) (setFlow fid f w), False))"
    by (simp add: tickStart_def f_def go_def Let_def split: prod.split)
  have f: "GetRate f = GetRate ?f" "f_Mode f = f_Mode ?f" "f_Mode ?f \<noteq> ModePD \<Longrightarrow> f = ?f"
    by (simp_all add: f_def GetRate_def pdShouldSend_def)
  show ?thesis
  proof (cases go)
    case False
    then show ?thesis using start assms(4) earn by (simp add: flowTick_def)
  next
    case True
    let ?r' = "refillTokens now (GetRate f) ?r" let ?w = "setRun fid ?r' (setFlow fid f w)"
    have bucket: "0 \<le> rs_tokens ?r'" "rs_tokens ?r' \<le> max 1 (GetRate ?f * (5 / 1000))"
      "rs_tokens ?r' \<le> rs_tokens ?r + GetRate ?f * seconds (time_sub now (rs_lastTokenRefill ?r))"
      "rs_sequenceNum ?r' = rs_sequenceNum ?r"
      using assms(4) earn time_sub_nonneg [OF assms(6)] unfolding refillTokens_def f(1) burst
      by (auto simp: Let_def)
    have "loop_ready cfg (w_flows ?w fid)" using assms(2) f by (auto simp: loop_ready_def)
    then obtain w' where w': "sendLoop cfg env 0 fid ?w = Some w'" "0 \<le> rs_tokens (w_run w' fid)"
      "of_int (sentTotal w' - sentTotal w) \<le> rs_tokens ?r' - rs_tokens (w_run w' fid)"
      using sendLoop_returns [OF assms(1), of ?w fid env 0] assms(3) bucket by auto
    then show ?thesis using start True bucket by (intro exI [of _ w']) (simp add: flowTick_def)
  qed
qed

definition demoPrefixes :: "flowId \<Rightarrow> string" where
  "demoPrefixes i = (if i = 0 then ''/pro0app'' else ''/pro1app'')"

definition demoEnv :: sendEnv where
  "demoEnv = \<lparr>se_made = True, se_sendTime = 1000000006, se_addTime = 1000000007, se_sent = True\<rparr>"

theorem flow_tick_returns_within_burst_witness:
  "\<exists>w'. flowTick demoConfig (\<lambda>_. demoEnv) 1000000005 0 (startWorld demoConfig 5 demoPrefixes) = Some w' \<and> sentTotal w' \<le> 3"
proof -
  let ?w = "startWorld demoConfig 5 demoPrefixes"
  have "flow_inv demoConfig (w_flows ?w 0)" using flow_inv_new [OF demo_cfg_ok] by (simp add: startWorld_def)
  moreover have mode: "f_Mode (w_flows ?w 0) = ModeDT" "GetRate (w_flows ?w 0) = 600"
    by (simp_all add: startWorld_def NewFlowContext_def demoConfig_def initDTState_def initRateState_def GetRate_def)
  ultimately have "dt_inv demoConfig (w_flows ?w 0)" by (simp add: flow_inv_def)
  moreover have "rs_sequenceNum (w_run ?w 0) = 0" "rs_tokens (w_run ?w 0) = 0" "rs_lastTokenRefill (w_run ?w 0) = 5" "sentTotal ?w = 0"
    by (simp_all add: startWorld_def startRun_def sentTotal_def)
  ultimately show ?thesis
    using flow_tick_returns_within_burst [OF demo_cfg_ok, of ?w 0 1000000005 "\<lambda>_. demoEnv"] mode by (auto simp: max_def)
qed

subsection \<open>The sampler conserves bytes\<close>

lemma sampleFlows_other:
  assumes "p \<notin> sn_Prefix ` set snaps"
  shows "map_of (fst (sampleFlows ps el snaps (th, sa))) p = map_of th p"
    "map_of (sa_prevBytes (snd (sampleFlows ps el snaps (th, sa)))) p = map_of (sa_prevBytes sa) p"
    "map_of (sa_prevStart (snd (sampleFlows ps el snaps (th, sa)))) p = map_of (sa_prevStart sa) p"
  using assms by (induction snaps arbitrary: th sa) auto

lemma sampleFlows_hit:
  assumes "distinct (map sn_Prefix snaps)" "s \<in> set snaps"
  shows "map_of (fst (sampleFlows ps el snaps (th, sa))) (sn_Prefix s) = Some (flowThroughput ps el sa s)"
    "map_of (sa_prevBytes (snd (sampleFlows ps el snaps (th, sa)))) (sn_Prefix s) = Some (sn_TotalBytes s)"
    "map_of (sa_prevStart (snd (sampleFlows ps el snaps (th, sa)))) (sn_Prefix s) = Some (sn_StartTime s)"
  using assms
proof (induction snaps arbitrary: th sa)
  case (Cons x xs)
  {
    case 1
    let ?sa = "sa\<lparr>sa_prevBytes := gm_put (sn_Prefix x) (sn_TotalBytes x) (sa_prevBytes sa),
          sa_prevStart := gm_put (sn_Prefix x) (sn_StartTime x) (sa_prevStart sa)\<rparr>"
    show ?case
    proof (cases "s = x")
      case True
      then show ?thesis using 1 sampleFlows_other(1) [of "sn_Prefix x" xs] by simp
    next
      case False
      then have "sn_Prefix s \<noteq> sn_Prefix x" using 1 by (auto simp: image_iff)
      then have "flowThroughput ps el ?sa s = flowThroughput ps el sa s" by (simp add: flowThroughput_def gm_get0_def)
      then show ?thesis using Cons.IH(1) 1 False by simp
    qed
  next
    case 2
    then show ?case using Cons.IH(2) sampleFlows_other(2) [of "sn_Prefix x" xs] by (cases "s = x") auto
  next
    case 3
    then show ?case using Cons.IH(3) sampleFlows_other(3) [of "sn_Prefix x" xs] by (cases "s = x") auto
  }
qed simp_all

text \<open>The bytes a series of samples accounts for, as Mbit/s times seconds.\<close>

fun sampledBytes :: "string \<Rightarrow> sampler \<Rightarrow> (gotime \<times> FlowProgressSnapshot list) list \<Rightarrow> float64" where
  "sampledBytes p sa [] = 0"
| "sampledBytes p sa ((t, snaps) # rest) =
    (let (throughputs, sa') = samplerTick t snaps sa
     in gm_get0 0 throughputs p * 1000000 / 8 * seconds (time_sub t (sa_prevSampleTime sa)) + sampledBytes p sa' rest)"

fun steady :: "string \<Rightarrow> gotime \<Rightarrow> gotime \<Rightarrow> int \<Rightarrow> (gotime \<times> FlowProgressSnapshot list) list \<Rightarrow> int \<Rightarrow> bool" where
  "steady p start t0 b0 [] b \<longleftrightarrow> b = b0"
| "steady p start t0 b0 ((t, snaps) # rest) b \<longleftrightarrow>
    t0 < t \<and> t \<noteq> 0 \<and> distinct (map sn_Prefix snaps)
    \<and> (\<exists>s \<in> set snaps. sn_Prefix s = p \<and> sn_Mode s = ModeDT \<and> sn_StartTime s = start \<and> b0 \<le> sn_TotalBytes s
         \<and> steady p start t (sn_TotalBytes s) rest b)"

text \<open>
  (C38) The throughput samples conserve bytes.  While a flow stays in the same data transfer, the
  samples of either sampler goroutine, each multiplied by the time since the one before, add up to
  the bytes the flow received between the first and the last sample, whatever the other flows do
  and however irregular the ticks are.
\<close>

theorem sampler_conserves_bytes:
  assumes "sa_prevSampleTime sa = t0" "t0 \<noteq> 0" "map_of (sa_prevStart sa) p = Some start" "start \<noteq> 0"
    and "map_of (sa_prevBytes sa) p = Some b0" "steady p start t0 b0 ticks b"
  shows "sampledBytes p sa ticks = of_int (b - b0)"
  using assms
proof (induction ticks arbitrary: sa t0 b0)
  case (Cons tick ticks)
  obtain t snaps where tick: "tick = (t, snaps)" by (cases tick)
  obtain s where s: "s \<in> set snaps" "sn_Prefix s = p" "sn_Mode s = ModeDT" "sn_StartTime s = start" "b0 \<le> sn_TotalBytes s"
    "steady p start t (sn_TotalBytes s) ticks b" and t: "t0 < t" "t \<noteq> 0" "distinct (map sn_Prefix snaps)"
    using Cons.prems(6) by (auto simp: tick)
  let ?el = "seconds (time_sub t t0)" let ?r = "sampleFlows t0 ?el snaps ([], sa)"
  have el: "0 < ?el" using t(1) by (simp add: seconds_def time_sub_def)
  note hit = sampleFlows_hit [OF t(3) s(1), of t0 ?el "[]" sa, unfolded s(2)]
  have tick_eq: "samplerTick t snaps sa = (fst ?r, (snd ?r)\<lparr>sa_prevSampleTime := t\<rparr>)"
    using Cons.prems(1,2) by (simp add: samplerTick_def isZero_def Let_def split: prod.split)
  have "flowThroughput t0 e sa s * 1000000 / 8 * e = of_int (sn_TotalBytes s - b0)" if "0 < e" for e
    using Cons.prems(2-5) s that by (simp add: flowThroughput_def Let_def isZero_def gm_get0_def)
  from this [OF el] have "flowThroughput t0 ?el sa s * 1000000 / 8 * ?el = of_int (sn_TotalBytes s - b0)" .
  moreover have "sampledBytes p ((snd ?r)\<lparr>sa_prevSampleTime := t\<rparr>) ticks = of_int (b - sn_TotalBytes s)"
    using Cons.prems(4) t(2) hit s(4,6) by (intro Cons.IH [of _ t]) simp_all
  ultimately show ?case
    unfolding tick by (simp add: tick_eq Cons.prems(1) hit(1) gm_get0_def)
qed simp

definition demoSnapshot :: "int \<Rightarrow> FlowProgressSnapshot" where
  "demoSnapshot b = \<lparr>sn_Prefix = ''/p'', sn_Mode = ModeDT, sn_StartTime = 3, sn_TotalBytes = b, sn_PktsRecv = 0, sn_IsFinished = False\<rparr>"

theorem sampler_conserves_bytes_witness:
  "sampledBytes ''/p'' (snd (samplerTick 10 [demoSnapshot 500] newSampler)) [(20, [demoSnapshot 900]), (25, [demoSnapshot 1700])] = 1200"
proof -
  let ?sa = "snd (samplerTick 10 [demoSnapshot 500] newSampler)"
  have sa: "sa_prevSampleTime ?sa = 10" "map_of (sa_prevStart ?sa) ''/p'' = Some 3" "map_of (sa_prevBytes ?sa) ''/p'' = Some 500"
    by (simp_all add: samplerTick_def newSampler_def demoSnapshot_def isZero_def)
  have "steady ''/p'' 3 10 500 [(20, [demoSnapshot 900]), (25, [demoSnapshot 1700])] 1700" by (simp add: demoSnapshot_def)
  from sampler_conserves_bytes [OF sa(1) _ sa(2) _ sa(3) this] show ?thesis by simp
qed

subsection \<open>Data transfer starts once\<close>

lemma checkAll_iterate:
  "int k \<le> n \<Longrightarrow> (checkAllPdFinished ^^ k) \<lparr>pd_finishedCount = 0, pd_totalFlows = n, pd_startDtCloses = 0\<rparr>
    = \<lparr>pd_finishedCount = int k, pd_totalFlows = n, pd_startDtCloses = (if 0 < k \<and> int k = n then 1 else 0)\<rparr>"
  by (induction k) (auto simp: checkAllPdFinished_def)

text \<open>
  (C37) Data transfer starts once, and only when every flow has finished path discovery.  Each flow
  calls \<open>checkAllPdFinished\<close> as often as its own events make it; over all flows of a consumer,
  each in a state its events reach, the channel that starts data transfer is closed exactly once
  when all of them have finished, and not before, so it is never closed twice (which would panic).
\<close>

theorem data_transfer_starts_once:
  assumes "flows \<noteq> []" "\<forall>f \<in> set flows. flow_inv cfg f"
  shows "pd_startDtCloses ((checkAllPdFinished ^^ sum_list (map f_pdFinishCalls flows))
      \<lparr>pd_finishedCount = 0, pd_totalFlows = int (length flows), pd_startDtCloses = 0\<rparr>)
    = (if \<forall>f \<in> set flows. f_PdFinished f then 1 else 0)"
proof -
  define fin where "fin = filter f_PdFinished flows"
  have calls: "sum_list (map f_pdFinishCalls flows) = length fin"
    unfolding fin_def using assms(2) by (induction flows) (auto simp: flow_inv_def)
  have len: "length fin \<le> length flows" by (simp add: fin_def)
  have full: "length fin = length flows \<longleftrightarrow> (\<forall>f \<in> set flows. f_PdFinished f)"
    unfolding fin_def by (metis filter_True length_filter_less less_irrefl)
  show ?thesis
    unfolding calls checkAll_iterate [of "length fin" "int (length flows)", simplified, OF len]
    using full assms(1) by auto
qed

theorem data_transfer_starts_once_witness:
  "pd_startDtCloses ((checkAllPdFinished ^^ sum_list (map f_pdFinishCalls [NewFlowContext demoPdConfig 5 ''/pro0app'']))
      \<lparr>pd_finishedCount = 0, pd_totalFlows = 1, pd_startDtCloses = 0\<rparr>) = 0"
proof -
  have "flow_cfg_ok demoPdConfig" using demo_cfg_ok by (simp add: demoPdConfig_def flow_cfg_ok_def cfg_ok_def)
  then have "\<forall>f \<in> set [NewFlowContext demoPdConfig 5 ''/pro0app'']. flow_inv demoPdConfig f" using flow_inv_new by simp
  moreover have "\<not> f_PdFinished (NewFlowContext demoPdConfig 5 ''/pro0app'')"
    by (simp add: NewFlowContext_def demoPdConfig_def demoConfig_def updatePDBaseName_def zeroFlow_def)
  ultimately show ?thesis using data_transfer_starts_once [of "[NewFlowContext demoPdConfig 5 ''/pro0app'']" demoPdConfig] by simp
qed

end
