(* ===== verification/Consumer_System.thy ===== *)
theory Consumer_System
  imports Consumer_Loop
begin

text \<open>
  The whole consumer as a guarded system, with the invariant of a consumer started in data transmission: ticks, iterations of the send
  loops, engine callbacks, scheduler rounds and control ticks of all flows, interleaved in any
  order.  The guards are those of the code, except that an Interest can be encoded (\<open>MakeInterest\<close>
  does not fail for these Interests), that Data answers the name it was asked for
  (the Interests do not set \<open>CanBePrefix\<close>), and that the 64-bit generation counter does not wrap.
  At the end, the same events show how path discovery counts an undecodable answer twice.
\<close>

datatype worldEvent =
    FlowTick flowId gotime
  | SendIteration flowId sendEnv
  | Callback nat expressResult
  | SchedulerRound gotime
  | ControlTick flowId gotime

fun worldStep :: "config \<Rightarrow> world \<Rightarrow> worldEvent \<Rightarrow> world" where
  "worldStep cfg w (FlowTick fid now) = fst (tickStart now fid w)"
| "worldStep cfg w (SendIteration fid env) = fst (loopIter cfg env fid w)"
| "worldStep cfg w (Callback i result) = expressCallback cfg (w_expressed w ! i) result w"
| "worldStep cfg w (SchedulerRound now) = schedulerTick cfg now w"
| "worldStep cfg w (ControlTick fid now) = controlTick cfg now fid w"

definition answers :: "string \<Rightarrow> expressResult \<Rightarrow> bool" where
  "answers nm result = (case result of InterestResultData content dataName t \<Rightarrow> dataName = nm | _ \<Rightarrow> True)"

fun worldEnabled :: "nat \<Rightarrow> world \<Rightarrow> worldEvent \<Rightarrow> bool" where
  "worldEnabled n w (FlowTick fid now) \<longleftrightarrow> fid < n"
| "worldEnabled n w (SendIteration fid env) \<longleftrightarrow>
    fid < n \<and> 1 \<le> rs_tokens (w_run w fid) \<and> se_made env \<and> rc_nextGeneration (w_rc w) \<noteq> - 1"
| "worldEnabled n w (Callback i result) \<longleftrightarrow>
    i < length (w_expressed w) \<and> answers (fst (snd (w_expressed w ! i))) result"
| "worldEnabled n w (SchedulerRound now) \<longleftrightarrow> True"
| "worldEnabled n w (ControlTick fid now) \<longleftrightarrow> fid < n"

definition account :: "config \<Rightarrow> flow \<Rightarrow> int set" where
  "account cfg f = receivedSet f \<union> pendingSet cfg f"

definition world_ok :: "config \<Rightarrow> (flowId \<Rightarrow> name) \<Rightarrow> nat \<Rightarrow> world \<Rightarrow> bool" where
  "world_ok cfg base n w \<longleftrightarrow> recoverable cfg base n (w_net w)
     \<and> (\<forall>e \<in> set (w_expressed w). fst e < n \<and> aa_Mode (snd (snd e)) = ModeDT)
     \<and> (\<forall>fid < n. 0 \<le> rs_sequenceNum (w_run w fid) \<and> {1..rs_sequenceNum (w_run w fid)} \<subseteq> account cfg (w_flows w fid))"

lemma account_transfer: "transfer f = transfer g \<Longrightarrow> account cfg f = account cfg g"
  using transfer_sets(1) [of f g cfg] transfer_sets(2) [of f g] by (simp add: account_def)

lemma nack_transfer: "transfer (snd (fst (QueueRetransmissionIfCurrent cfg nm gen s)) i) = transfer (snd s i)"
  by (auto simp: QueueRetransmissionIfCurrent_def QueueRetransmission_def queueRetransmissionLocked_def transfer_def
      case_prod_beta Let_def split: option.split)

lemma fastRepair_transfer: "transfer (snd (fst (QueueShadowFastRepairIfCurrent cfg nm c fid s)) i) = transfer (snd s i)"
  using fastRepair_effect(1) [of cfg c] books_transfer [OF books_Outcome]
  by (auto simp: QueueShadowFastRepairIfCurrent_def case_prod_beta Let_def split: option.split)

lemma scan_transfer: "transfer (snd (runShadowLossScan cfg now fid s) i) = transfer (snd s i)"
proof -
  have "transfer (snd (queueCandidates cfg fid cs s') i) = transfer (snd s' i)" for cs s'
    by (induction cs arbitrary: s') (simp_all add: fastRepair_transfer)
  then show ?thesis
    using books_transfer [OF books_scan, of now "snd s fid"] by (simp add: runShadowLossScan_def case_prod_beta Let_def)
qed

text \<open>A step that leaves the loops and the callbacks alone and forgets no sequence keeps the invariant.\<close>

lemma world_ok_net:
  assumes "world_ok cfg base n w" "recoverable cfg base n (w_net w')"
    and "w_expressed w' = w_expressed w" "\<And>fid. rs_sequenceNum (w_run w' fid) = rs_sequenceNum (w_run w fid)"
    and "\<And>fid. fid < n \<Longrightarrow> account cfg (w_flows w fid) \<subseteq> account cfg (w_flows w' fid)"
  shows "world_ok cfg base n w'"
proof -
  have "{1..rs_sequenceNum (w_run w' fid)} \<subseteq> account cfg (w_flows w' fid)" if "fid < n" for fid
    using assms(1) assms(4) [of fid] assms(5) [OF that] that by (auto simp: world_ok_def)
  then show ?thesis using assms(1-4) by (simp add: world_ok_def)
qed

lemma world_okI:
  assumes "recoverable cfg base n (w_net w)" "\<And>e. e \<in> set (w_expressed w) \<Longrightarrow> fst e < n \<and> aa_Mode (snd (snd e)) = ModeDT"
    and "\<And>i. i < n \<Longrightarrow> 0 \<le> rs_sequenceNum (w_run w i)"
    and "\<And>i. i < n \<Longrightarrow> {1..rs_sequenceNum (w_run w i)} \<subseteq> account cfg (w_flows w i)"
  shows "world_ok cfg base n w"
  using assms by (simp add: world_ok_def)

lemma world_ok_failed:
  assumes cfg: "flow_cfg_ok cfg" and ok: "world_ok cfg base n w" and dt: "aa_Mode a = ModeDT"
  shows "world_ok cfg base n (attemptFailed cfg fid nm a w)"
proof (rule world_ok_net [OF ok])
  show "recoverable cfg base n (w_net (attemptFailed cfg fid nm a w))"
    using recoverable_nack [OF cfg] ok dt by (simp add: attemptFailed_def world_ok_def)
  show "account cfg (w_flows w i) \<subseteq> account cfg (w_flows (attemptFailed cfg fid nm a w) i)" for i
    using account_transfer [OF nack_transfer] dt by (simp add: attemptFailed_def)
qed simp_all

lemma queue_transfer: "transfer (fst (QueueRetransmission cfg seq f)) = transfer f"
  by (simp add: QueueRetransmission_def queueRetransmissionLocked_def transfer_def)

lemma scheduler_transfer:
  assumes "rc_inv (fst s)"
  shows "transfer (snd (fst (schedulerRound cfg now s)) i) = transfer (snd s i)"
proof -
  have rto: "transfer (if q then fst (OnDTRTO f2) else f2) = transfer f"
    if "QueueRetransmission cfg seq (RecordShadowRTO seq now f) = (f2, q)" for q f2 f seq
    using queue_transfer [of cfg seq "RecordShadowRTO seq now f"] that
      books_transfer [OF books_OnDTRTO, of f2] books_transfer [OF books_RecordShadowRTO, of seq now f]
    by simp
  have "aa_Mode a = ModeDT" if "map_of (rc_active (fst s)) nm = Some a" for nm a
    using assms that by (simp add: rc_inv_def)
  then show ?thesis
    using rto by (auto simp: schedulerRound_def case_prod_beta Let_def split: list.split option.split)
qed

lemma world_ok_scheduler:
  assumes cfg: "flow_cfg_ok cfg" and ok: "world_ok cfg base n w"
  shows "world_ok cfg base n (schedulerTick cfg now w)"
proof (rule world_ok_net [OF ok])
  have net: "w_net (schedulerTick cfg now w) = fst (schedulerRound cfg now (w_net w))"
    by (auto simp: schedulerTick_def split: prod.split schedulerResult.split bool.split)
  show rec: "recoverable cfg base n (w_net (schedulerTick cfg now w))"
    unfolding net using ok by (intro recoverable_scheduler [OF cfg]) (simp add: world_ok_def)
  show "account cfg (w_flows w i) \<subseteq> account cfg (w_flows (schedulerTick cfg now w) i)" if "i < n" for i
    unfolding net using account_transfer [OF scheduler_transfer] ok by (simp add: world_ok_def recoverable_def)
qed (auto simp: schedulerTick_def split: prod.split schedulerResult.split bool.split)

lemma world_ok_tick:
  assumes ok: "world_ok cfg base n w" and fid: "fid < n"
  shows "world_ok cfg base n (fst (tickStart now fid w))"
proof (rule world_ok_net [OF ok])
  have dt: "f_Mode (w_flows w fid) = ModeDT" using ok fid by (simp add: world_ok_def recoverable_def dt_inv_def)
  then have net: "w_net (fst (tickStart now fid w)) = w_net w" by (simp add: tickStart_def)
  show "recoverable cfg base n (w_net (fst (tickStart now fid w)))" using ok by (simp add: net world_ok_def)
  show "account cfg (w_flows w i) \<subseteq> account cfg (w_flows (fst (tickStart now fid w)) i)" for i by (simp add: net)
  show "rs_sequenceNum (w_run (fst (tickStart now fid w)) i) = rs_sequenceNum (w_run w i)" for i
    using dt by (simp add: tickStart_def refillTokens_def Let_def)
  show "w_expressed (fst (tickStart now fid w)) = w_expressed w" using dt by (simp add: tickStart_def)
qed

lemma world_ok_control:
  assumes cfg: "flow_cfg_ok cfg" and ok: "world_ok cfg base n w"
  shows "world_ok cfg base n (controlTick cfg now fid w)"
proof -
  define w1 where "w1 = (if isZero (rs_nextShadowScan (w_run w fid)) \<or> \<not> now < rs_nextShadowScan (w_run w fid)
      then setRun fid ((w_run w fid)\<lparr>rs_nextShadowScan := now + shadowLossScanInterval\<rparr>)
             (w\<lparr>w_net := runShadowLossScan cfg now fid (w_net w)\<rparr>) else w)"
  have ok1: "world_ok cfg base n w1"
    using recoverable_scan [OF cfg] ok account_transfer [OF scan_transfer, of cfg cfg now fid "w_net w"]
    by (intro world_ok_net [OF ok]) (auto simp: w1_def world_ok_def)
  define f where "f = flowPeriodicRateControl cfg now (flowCheckNoFreshSamples cfg now (w_flows w1 fid))"
  have books: "books f = books (w_flows w1 fid)" by (simp add: f_def book_frames)
  have inv: "dt_inv cfg (w_flows w1 fid) \<Longrightarrow> dt_inv cfg f"
    unfolding f_def by (intro dt_inv_periodic dt_inv_noFresh)
  have "world_ok cfg base n (setFlow fid f w1)"
  proof (rule world_ok_net [OF ok1])
    show "recoverable cfg base n (w_net (setFlow fid f w1))"
      using recoverable_books [of cfg base n "w_rc w1" "w_flows w1" fid f] ok1 inv books by (simp add: world_ok_def)
    show "account cfg (w_flows w1 i) \<subseteq> account cfg (w_flows (setFlow fid f w1) i)" for i
      using account_transfer [OF books_transfer [OF books], of cfg] by simp
  qed simp_all
  then show ?thesis by (simp add: controlTick_def Let_def w1_def f_def)
qed

text \<open>Sending: the flow may just have popped the sequence off its queue (\<open>f1\<close>).\<close>

lemma world_ok_send:
  assumes cfg: "flow_cfg_ok cfg" and apart: "apart cfg base n" and ok: "world_ok cfg base n w" and fid: "fid < n"
    and room: "rc_nextGeneration (w_rc w) \<noteq> - 1" and made: "se_made env"
    and f1: "dt_inv cfg f1" "transfer f1 = transfer (w_flows w fid)" "send_allowed cfg seq f1"
      "retxMarked (w_flows w fid) \<inter> pendingSet cfg (w_flows w fid) \<subseteq> retxMarked f1 \<union> {seq}"
    and w1: "w_net w1 = (w_rc w, (w_flows w)(fid := f1))" "w_expressed w1 = w_expressed w"
      "\<And>i. i < n \<Longrightarrow> 0 \<le> rs_sequenceNum (w_run w1 i)"
      "\<And>i. i < n \<Longrightarrow> {1..rs_sequenceNum (w_run w1 i)} \<subseteq> account cfg (w_flows w i) \<union> (if i = fid then {seq} else {})"
  shows "world_ok cfg base n (sendSingleInterest cfg env seq fid rt w1)"
proof -
  let ?nm = "interestNameForSeq cfg (w_flows w1 fid) seq"
  have fl: "w_flows w1 fid = f1" "w_rc w1 = w_rc w" "(w_flows w1)(fid := g) = (w_flows w)(fid := g)" for g
    using w1(1) by simp_all
  obtain f2 mode recorded where send: "RecordInterestSend ?nm seq (se_sendTime env) rt (w_flows w1 fid) = (f2, mode, recorded)"
    by (rule prod_cases3)
  have rec: "recoverable cfg base n (w_rc w, w_flows w)" using ok by (simp add: world_ok_def)
  note res = recoverable_send [OF cfg rec apart fid room f1(1,2,4,3), of "se_sendTime env" rt f2 mode recorded
      "se_addTime env" "f_Prefix f2", OF send [unfolded fl]]
  show ?thesis
  proof (cases recorded)
    case False
    then have eq: "sendSingleInterest cfg env seq fid rt w1 = setFlow fid f1 w1" and
      r: "recoverable cfg base n (w_rc w, (w_flows w)(fid := f1))" "seq \<in> receivedSet f1"
      using res send_eq [OF made send] by simp_all
    have acc: "account cfg f1 = account cfg (w_flows w fid)" "seq \<in> account cfg f1"
      using account_transfer [OF f1(2), of cfg] r(2) by (auto simp: account_def)
    show ?thesis unfolding eq
    proof (rule world_okI)
      fix i assume "i < n"
      then show "0 \<le> rs_sequenceNum (w_run (setFlow fid f1 w1) i)"
        "{1..rs_sequenceNum (w_run (setFlow fid f1 w1) i)} \<subseteq> account cfg (w_flows (setFlow fid f1 w1) i)"
        using w1(3,4) [of i] acc w1(1) by (auto split: if_splits)
    qed (use r w1(1,2) ok in \<open>auto simp: world_ok_def\<close>)
  next
    case True
    then obtain s a where s: "Add cfg (se_addTime env) ?nm (f_Prefix f2) seq fid mode (w_rc w, (w_flows w)(fid := f2)) = (s, Some a)"
      "aa_Mode a = ModeDT" "recoverable cfg base n s" "pendingSet cfg (snd s fid) = insert seq (pendingSet cfg (w_flows w fid))"
      "receivedSet (snd s fid) = receivedSet (w_flows w fid)" using res fl by auto
    define w2 where "w2 = (setFlow fid f2 w1)\<lparr>w_net := s, w_stats := (if rt then IncrementRetx else IncrementSent) (w_stats w1),
        w_expressed := (fid, ?nm, a) # w_expressed w1\<rparr>"
    have eq: "sendSingleInterest cfg env seq fid rt w1 = (if se_sent env then w2 else attemptFailed cfg fid ?nm a w2)"
      using send_eq [OF made send] True s(1) by (simp add: w2_def fl)
    have other: "snd s i = w_flows w i" if "i \<noteq> fid" for i
      using s(1) that by (auto simp: Add_def Let_def split: option.splits prod.splits)
    have acc: "account cfg (w_flows w i) \<union> (if i = fid then {seq} else {}) \<subseteq> account cfg (snd s i)" for i
      using s(4,5) other [of i] by (auto simp: account_def)
    have "world_ok cfg base n w2"
    proof (rule world_okI)
      fix i assume "i < n"
      then show "0 \<le> rs_sequenceNum (w_run w2 i)" "{1..rs_sequenceNum (w_run w2 i)} \<subseteq> account cfg (w_flows w2 i)"
        using w1(3,4) [of i] acc [of i] by (auto simp: w2_def)
    qed (use s(2,3) fid ok w1(2) in \<open>auto simp: world_ok_def w2_def\<close>)
    then show ?thesis unfolding eq using world_ok_failed [OF cfg _ s(2)] by simp
  qed
qed

lemma insert_upto: "0 \<le> k \<Longrightarrow> {1..k} \<subseteq> A \<Longrightarrow> {1..k + 1} \<subseteq> A \<union> {k + 1}" for k :: int
  by (auto simp: subset_iff)

lemma world_ok_iter:
  assumes cfg: "flow_cfg_ok cfg" and apart: "apart cfg base n" and ok: "world_ok cfg base n w" and fid: "fid < n"
    and room: "rc_nextGeneration (w_rc w) \<noteq> - 1" and made: "se_made env"
  shows "world_ok cfg base n (fst (loopIter cfg env fid w))"
proof -
  let ?f = "w_flows w fid" and ?r = "w_run w fid"
  have inv: "dt_inv cfg ?f" and dt: "f_Mode ?f = ModeDT" using ok fid by (auto simp: world_ok_def recoverable_def dt_inv_def)
  have runs: "0 \<le> rs_sequenceNum (w_run w i)" "{1..rs_sequenceNum (w_run w i)} \<subseteq> account cfg (w_flows w i)" if "i < n" for i
    using ok that by (auto simp: world_ok_def)
  show ?thesis
  proof (cases "HasQueuedRetransmission ?f")
    case True
    obtain f1 res where pop: "PopRetransmission cfg ?f = (f1, res)" by fastforce
    show ?thesis
    proof (cases res)
      case None
      then have eq: "fst (loopIter cfg env fid w) = setFlow fid f1 w" using True dt pop by (simp add: loopIter_def)
      have eff: "transfer f1 = transfer ?f" "retxMarked ?f \<inter> pendingSet cfg ?f \<subseteq> retxMarked f1" "dt_inv cfg f1"
        using pop_effect [OF cfg inv] dt_inv_pop [OF inv] pop None by simp_all
      have aw: "awaited cfg (w_rc w) fid ?f" and rec: "recoverable cfg base n (w_net w)" using ok fid by (auto simp: world_ok_def recoverable_def)
      have "awaited cfg (w_rc w) fid f1"
        using aw eff(2) transfer_sets(1,4) [OF eff(1)] by (auto simp: awaited_def)
      then have "recoverable cfg base n (w_net (setFlow fid f1 w))"
        using rec eff transfer_sets(3) [OF eff(1)] by (auto simp: recoverable_def)
      then show ?thesis unfolding eq
        by (rule world_ok_net [OF ok]) (use account_transfer [OF eff(1), of cfg] in auto)
    next
      case (Some s)
      note pa = pop_allowed [OF cfg inv pop [unfolded Some]]
      have eq: "fst (loopIter cfg env fid w) = sendSingleInterest cfg env s fid True
          (setRun fid (?r\<lparr>rs_tokens := rs_tokens ?r - 1\<rparr>) (setFlow fid f1 w))"
        using True dt pop Some by (simp add: loopIter_def Let_def)
      show ?thesis unfolding eq
        by (rule world_ok_send [OF cfg apart ok fid room made pa(1,2,3,5)]) (use runs in auto)
    qed
  next
    case False
    let ?w = "setRun fid (?r\<lparr>rs_sequenceNum := rs_sequenceNum ?r + 1, rs_tokens := rs_tokens ?r - 1\<rparr>) w"
    obtain w' go where it: "loopIter cfg env fid w = (w', go)" by fastforce
    then have w': "fst (loopIter cfg env fid w) = w'" by simp
    consider "w' = w" | "w' = setRun fid (?r\<lparr>rs_tokens := 0\<rparr>) w"
      | "w' = sendSingleInterest cfg env (rs_sequenceNum ?r + 1) fid False ?w"
        "\<not> cfg_MAX_PACKETS cfg \<le> rs_sequenceNum ?r" "CanSendNewDT cfg ?f"
      using it dt False by (auto simp: loopIter_def Let_def split: if_splits)
    then show ?thesis
    proof cases
      case 3
      have "send_allowed cfg (rs_sequenceNum ?r + 1) ?f" using 3 runs(1) [OF fid] by (intro fresh_allowed) auto
      then show ?thesis unfolding w' 3(1)
        using runs insert_upto [OF runs [OF fid]] inv
        by (intro world_ok_send [OF cfg apart ok fid room made, of ?f]) auto
    next
      case 2
      show ?thesis unfolding w' 2 by (rule world_ok_net [OF ok]) (use ok in \<open>auto simp: world_ok_def\<close>)
    qed (use ok w' in simp)
  qed
qed

lemma world_ok_callback:
  assumes cfg: "flow_cfg_ok cfg" and apart: "apart cfg base n" and ok: "world_ok cfg base n w"
    and e: "e \<in> set (w_expressed w)" and ans: "answers (fst (snd e)) result"
  shows "world_ok cfg base n (expressCallback cfg e result w)"
proof -
  obtain fid nm a where e': "e = (fid, nm, a)" by (rule prod_cases3)
  have fid: "fid < n" and dt: "aa_Mode a = ModeDT" using e ok by (auto simp: world_ok_def e')
  have nack: "world_ok cfg base n (w\<lparr>w_stats := st\<rparr>)" for st
    by (rule world_ok_net [OF ok]) (use ok in \<open>auto simp: world_ok_def\<close>)
  show ?thesis
  proof (cases result)
    case (InterestResultData content dn t)
    have dn: "dn = nm" using ans InterestResultData by (simp add: answers_def e')
    obtain f1 acc where d: "OnData cfg content nm t (w_flows w fid) = (f1, acc)" by fastforce
    have rec: "recoverable cfg base n (w_rc w, w_flows w)" using ok by (simp add: world_ok_def)
    note res = recoverable_data [OF cfg rec apart fid d]
    have "recoverable cfg base n (w_net (expressCallback cfg e result w))"
      using res d dn by (simp add: e' InterestResultData Let_def)
    moreover have "account cfg (w_flows w fid) \<subseteq> account cfg f1"
      using res account_transfer [OF books_transfer, of f1 "w_flows w fid" cfg] by (cases acc) (auto simp: account_def)
    ultimately show ?thesis
      by (intro world_ok_net [OF ok]) (auto simp: e' InterestResultData Let_def d)
  qed (use world_ok_failed [OF cfg _ dt] nack ok in \<open>auto simp: e'\<close>)
qed

lemma world_ok_step:
  assumes "flow_cfg_ok cfg" "apart cfg base n" "world_ok cfg base n w" "worldEnabled n w e"
  shows "world_ok cfg base n (worldStep cfg w e)"
  using assms world_ok_tick world_ok_iter world_ok_callback world_ok_scheduler world_ok_control
  by (cases e) auto

abbreviation flowBase :: "config \<Rightarrow> gotime \<Rightarrow> (flowId \<Rightarrow> string) \<Rightarrow> flowId \<Rightarrow> name" where
  "flowBase cfg now prefixes i \<equiv> f_baseName (NewFlowContext cfg now (prefixes i))"

lemma world_ok_start:
  assumes "flow_cfg_ok cfg" "cfg_initialMode cfg = ModeDT"
  shows "world_ok cfg (flowBase cfg now prefixes) n (startWorld cfg now prefixes)"
proof -
  let ?f = "\<lambda>i. NewFlowContext cfg now (prefixes i)"
  have dt: "f_Mode (?f i) = ModeDT" "f_pendingSends (?f i) = []" for i
    using assms(2) by (simp_all add: NewFlowContext_def initDTState_def)
  have "dt_inv cfg (?f i)" for i
    using flow_inv_new [OF assms(1), of now "prefixes i"] dt(1) [of i] by (simp add: flow_inv_def)
  moreover have "pendingSet cfg (?f i) = {}" for i by (simp add: pendingSet_def pendingSeqs_def dt(2))
  ultimately show ?thesis
    using rc_inv_new by (simp add: world_ok_def startWorld_def recoverable_def awaited_def startRun_def)
qed

interpretation consumer: guarded_system
  "\<lambda>w. flow_cfg_ok cfg \<and> cfg_initialMode cfg = ModeDT \<and> w = startWorld cfg now prefixes"
  "\<lambda>w e. flow_cfg_ok cfg \<and> apart cfg (flowBase cfg now prefixes) n \<and> worldEnabled n w e"
  "worldStep cfg" "world_ok cfg (flowBase cfg now prefixes) n" for cfg now prefixes n
  by unfold_locales (auto intro: world_ok_start world_ok_step)

lemma world_reachable:
  assumes "flow_cfg_ok cfg" "cfg_initialMode cfg = ModeDT" "apart cfg (flowBase cfg now prefixes) n"
    and "enabled_run (worldEnabled n) (worldStep cfg) (startWorld cfg now prefixes) es"
  shows "world_ok cfg (flowBase cfg now prefixes) n (run (worldStep cfg) (startWorld cfg now prefixes) es)"
proof (rule consumer.run_inv)
  show "enabled_run (\<lambda>w e. flow_cfg_ok cfg \<and> apart cfg (flowBase cfg now prefixes) n \<and> worldEnabled n w e)
      (worldStep cfg) (startWorld cfg now prefixes) es"
    using assms enabled_run_conj [of "flow_cfg_ok cfg \<and> apart cfg (flowBase cfg now prefixes) n" "worldEnabled n"] by simp
qed (use assms in simp)

text \<open>
  (C2) No sequence is lost.  In every state that a consumer started in data transmission reaches, under any
  interleaving of sends, Data, Nacks, cancelled and failed Interests, scheduler rounds,
  shadow-loss scans and control ticks of all its flows, each sequence a flow has ever sent has
  either been received, or is pending and will be sent again: it is marked on the retransmission
  queue, or the timer of the current attempt of its name is on the controller's heap.
\<close>

theorem no_sequence_is_lost:
  assumes "flow_cfg_ok cfg" "cfg_initialMode cfg = ModeDT" "apart cfg (flowBase cfg now prefixes) n"
    and "enabled_run (worldEnabled n) (worldStep cfg) (startWorld cfg now prefixes) es"
    and "w = run (worldStep cfg) (startWorld cfg now prefixes) es" "fid < n"
    and "1 \<le> seq" "seq \<le> rs_sequenceNum (w_run w fid)"
  shows "seq \<in> receivedSet (w_flows w fid)
    \<or> seq \<in> pendingSet cfg (w_flows w fid)
      \<and> (seq \<in> retxMarked (w_flows w fid) \<or> timed (w_rc w) fid (interestNameForSeq cfg (w_flows w fid) seq) seq)"
proof -
  have ok: "world_ok cfg (flowBase cfg now prefixes) n w" using world_reachable [OF assms(1-4)] assms(5) by simp
  then have "{1..rs_sequenceNum (w_run w fid)} \<subseteq> account cfg (w_flows w fid)" and aw: "awaited cfg (w_rc w) fid (w_flows w fid)"
    using assms(6) by (simp_all add: world_ok_def recoverable_def)
  then have "seq \<in> account cfg (w_flows w fid)" using assms(7,8) by auto
  then show ?thesis using aw by (auto simp: account_def awaited_def)
qed

subsection \<open>Timers fire\<close>

lemma schedulerRound_pops:
  assumes "rc_pq rc \<noteq> []" "\<forall>p \<in># timers rc. pp_Expiration p < now" "rc_inv rc"
  shows "size (timers (fst (fst (schedulerRound cfg now (rc, fl))))) < size (timers rc)
    \<and> timers (fst (fst (schedulerRound cfg now (rc, fl)))) \<subseteq># timers rc"
proof -
  have heap: "ph.heap_ok (rc_pq rc)" using assms(3) by (simp add: rc_inv_def)
  obtain first rest where q: "rc_pq rc = first # rest" using assms(1) by (cases "rc_pq rc") auto
  then have "packetMark (-1) first \<in># timers rc" by (simp add: timers_def ph.contents_def)
  then have due: "pp_Expiration first < now" using assms(2) by (auto simp: packetMark_def)
  obtain item pq where pop: "heapPop (rc_pq rc) = Some (item, pq)"
    using ph.pop_correct [OF heap assms(1)] by (metis heapPop_def)
  have "timers rc = add_mset item (timers (rc\<lparr>rc_pq := pq\<rparr>))" by (rule heapPop_timers(2) [OF assms(3) pop])
  moreover have "timers (fst (fst (schedulerRound cfg now (rc, fl)))) = timers (rc\<lparr>rc_pq := pq\<rparr>)"
    using q due pop by (auto simp: schedulerRound_def Let_def timers_def split: option.split prod.split)
  ultimately show ?thesis by simp
qed

lemma schedulerTick_net: "w_net (schedulerTick cfg now w) = fst (schedulerRound cfg now (w_net w))"
  by (auto simp: schedulerTick_def split: prod.split schedulerResult.split bool.split)

lemma timers_empty: "timers rc = {#} \<longleftrightarrow> rc_pq rc = []"
  by (simp add: timers_def ph.contents_def)

lemma drain_timers:
  assumes cfg: "flow_cfg_ok cfg"
  shows "world_ok cfg base n w \<Longrightarrow> \<forall>p \<in># timers (w_rc w). pp_Expiration p < now \<Longrightarrow> size (timers (w_rc w)) \<le> k \<Longrightarrow>
    world_ok cfg base n ((schedulerTick cfg now ^^ k) w) \<and> rc_pq (w_rc ((schedulerTick cfg now ^^ k) w)) = []
    \<and> (\<forall>i. transfer (w_flows ((schedulerTick cfg now ^^ k) w) i) = transfer (w_flows w i))"
proof (induction k arbitrary: w)
  case 0
  then show ?case using timers_empty by simp
next
  case (Suc k)
  let ?w = "schedulerTick cfg now w"
  have inv: "rc_inv (w_rc w)" using Suc.prems(1) by (simp add: world_ok_def recoverable_def)
  have ok: "world_ok cfg base n ?w" by (rule world_ok_scheduler [OF cfg Suc.prems(1)])
  have tr: "transfer (w_flows ?w i) = transfer (w_flows w i)" for i
    using scheduler_transfer [OF inv] by (simp add: schedulerTick_net)
  have "timers (w_rc ?w) \<subseteq># timers (w_rc w) \<and> size (timers (w_rc ?w)) \<le> k"
  proof (cases "rc_pq (w_rc w) = []")
    case True
    then have "w_rc ?w = w_rc w" by (simp add: schedulerTick_net schedulerRound_def case_prod_beta)
    then show ?thesis using True timers_empty [of "w_rc w"] by simp
  next
    case False
    then show ?thesis
      using schedulerRound_pops [OF False Suc.prems(2) inv, of cfg "w_flows w"] Suc.prems(3) by (simp add: schedulerTick_net)
  qed
  then have "\<forall>p \<in># timers (w_rc ?w). pp_Expiration p < now" "size (timers (w_rc ?w)) \<le> k"
    using Suc.prems(2) by (auto dest: mset_subset_eqD)
  then show ?case using Suc.IH [OF ok] tr by (simp add: funpow_swap1)
qed

text \<open>
  (C5) Every timer of a data transfer fires.  From any state that a consumer started in data transmission
  (\<open>initialMode\<close> is \<open>ModeDT\<close>, not the default path discovery) reaches, once the clock has passed the
  expirations on the heap, as many scheduler rounds as there are timers empty it, and then every
  sequence that is still pending, in every flow, is marked for retransmission; the rounds
  neither drop nor add a pending sequence.
\<close>

theorem expired_timers_mark_every_pending:
  assumes "flow_cfg_ok cfg" "cfg_initialMode cfg = ModeDT" "apart cfg (flowBase cfg t0 prefixes) n"
    and "enabled_run (worldEnabled n) (worldStep cfg) (startWorld cfg t0 prefixes) es"
    and "w = run (worldStep cfg) (startWorld cfg t0 prefixes) es"
    and "\<forall>p \<in> set (rc_pq (w_rc w)). pp_Expiration p < now"
    and "w' = (schedulerTick cfg now ^^ length (rc_pq (w_rc w))) w" "fid < n"
  shows "rc_pq (w_rc w') = [] \<and> pendingSet cfg (w_flows w' fid) = pendingSet cfg (w_flows w fid)
    \<and> pendingSet cfg (w_flows w' fid) \<subseteq> retxMarked (w_flows w' fid)"
proof -
  have ok: "world_ok cfg (flowBase cfg t0 prefixes) n w" using world_reachable [OF assms(1-4)] assms(5) by simp
  have "\<forall>p \<in># timers (w_rc w). pp_Expiration p < now" "size (timers (w_rc w)) \<le> length (rc_pq (w_rc w))"
    using assms(6) by (auto simp: timers_def ph.contents_def packetMark_def)
  from drain_timers [OF assms(1) ok this] have
    w': "world_ok cfg (flowBase cfg t0 prefixes) n w'" "rc_pq (w_rc w') = []" "transfer (w_flows w' fid) = transfer (w_flows w fid)"
    unfolding assms(7) [symmetric] by blast+
  then have "awaited cfg (w_rc w') fid (w_flows w' fid)" using assms(8) by (simp add: world_ok_def recoverable_def)
  moreover have "timers (w_rc w') = {#}" using w'(2) timers_empty by blast
  ultimately have "pendingSet cfg (w_flows w' fid) \<subseteq> retxMarked (w_flows w' fid)" by (auto simp: awaited_def timed_def)
  then show ?thesis using w'(2) transfer_sets(1) [OF w'(3)] by blast
qed

subsection \<open>Names of different flows\<close>

lemma nameString_inject:
  assumes "\<forall>c \<in> set m. wf_component da c" "\<forall>c \<in> set n. wf_component da c" "nameString da m = nameString da n"
    "m \<noteq> []" "n \<noteq> []"
  shows "m = n"
proof -
  have str: "nameString da k = nameWrite da k" if "k \<noteq> []" for k
    using nameWrite_slash [OF that, of da] by (auto simp: nameString_def Let_def)
  have "nameFromStr (nameString da k) = Inr k" if "k \<noteq> []" "\<forall>c \<in> set k. wf_component da c" for k
    using str [OF that(1)] that by (simp add: nameFromStr_def split_nameWrite last_map butlast_append componentsFromStrs_map)
  then show ?thesis using assms by (metis Inr_inject)
qed

lemma apart_distinct:
  assumes "\<forall>i < n. \<forall>c \<in> set (base i). wf_component (cfg_disableAltUri cfg) c" "inj_on base {..<n}"
  shows "apart cfg base n"
proof -
  have seq: "wf_component (cfg_disableAltUri cfg) (seqComponent s)" for s
    by (simp add: seqComponent_def newStringComponent_def wf_component_def map_of_conv_generic)
  have "base i = base j" if "i < n" "j < n" "seqName cfg (base i) s = seqName cfg (base j) s'" for i j s s'
    using nameString_inject [of "base i @ [seqComponent s]" "cfg_disableAltUri cfg" "base j @ [seqComponent s']"] that assms(1) seq
    by (auto simp: seqName_def nameAppend_def)
  then show ?thesis using assms(2) by (auto simp: apart_def inj_on_def)
qed

subsection \<open>Two flows and one Interest\<close>

definition demoEvents :: "worldEvent list" where
  "demoEvents = [FlowTick 0 1000000005, SendIteration 0 demoEnv]"

lemma demo_base:
  "flowBase demoConfig 5 demoPrefixes i = [newStringComponent 8 (if i = 0 then ''pro0app'' else ''pro1app''),
     newStringComponent 8 ''c0'', newStringComponent 8 ''dt'']"
proof -
  have "flowPrefixName demoConfig ''/pro0app'' = [newStringComponent 8 ''pro0app'', newStringComponent 8 ''c0'']"
    "flowPrefixName demoConfig ''/pro1app'' = [newStringComponent 8 ''pro1app'', newStringComponent 8 ''c0'']"
    unfolding flowPrefixName_def demoConfig_def by code_simp+
  then show ?thesis by (simp add: NewFlowContext_def initDTState_def demoConfig_def zeroFlow_def demoPrefixes_def nameAppend_def)
qed

lemma demo_apart: "apart demoConfig (flowBase demoConfig 5 demoPrefixes) 2"
proof (rule apart_distinct)
  show "inj_on (flowBase demoConfig 5 demoPrefixes) {..<2}"
    unfolding demo_base by (auto simp: inj_on_def newStringComponent_def)
  show "\<forall>i<2. \<forall>c\<in>set (flowBase demoConfig 5 demoPrefixes i). wf_component (cfg_disableAltUri demoConfig) c"
    unfolding demo_base by (simp add: newStringComponent_def wf_component_def map_of_conv_generic)
qed

lemma demo_tick:
  defines "w \<equiv> fst (tickStart 1000000005 0 (startWorld demoConfig 5 demoPrefixes))"
  shows "w_net w = w_net (startWorld demoConfig 5 demoPrefixes)" "rs_tokens (w_run w 0) = 3" "rs_sequenceNum (w_run w 0) = 0"
proof -
  let ?w = "startWorld demoConfig 5 demoPrefixes"
  have "f_Mode (w_flows ?w 0) = ModeDT" "GetRate (w_flows ?w 0) = 600" "w_run ?w 0 = startRun 5"
    by (simp_all add: startWorld_def NewFlowContext_def demoConfig_def initDTState_def initRateState_def GetRate_def)
  then show "w_net w = w_net ?w" "rs_tokens (w_run w 0) = 3" "rs_sequenceNum (w_run w 0) = 0"
    by (simp_all add: w_def tickStart_def refillTokens_def startRun_def time_sub_def seconds_def DT_SEND_BURST_INTERVAL_def)
qed

lemma demo_initial_mode: "cfg_initialMode demoConfig = ModeDT"
  by (simp add: demoConfig_def)

lemma demo_run:
  shows "enabled_run (worldEnabled 2) (worldStep demoConfig) (startWorld demoConfig 5 demoPrefixes) demoEvents"
    and "rs_sequenceNum (w_run (run (worldStep demoConfig) (startWorld demoConfig 5 demoPrefixes) demoEvents) 0) = 1"
proof -
  let ?w = "fst (tickStart 1000000005 0 (startWorld demoConfig 5 demoPrefixes))"
  have f: "w_flows ?w 0 = NewFlowContext demoConfig 5 (demoPrefixes 0)" "w_rc ?w = NewRetransmissionController"
    by (simp_all add: demo_tick(1)) (simp_all add: startWorld_def)
  show "enabled_run (worldEnabled 2) (worldStep demoConfig) (startWorld demoConfig 5 demoPrefixes) demoEvents"
    by (simp add: demoEvents_def demo_tick demoEnv_def) (simp add: startWorld_def NewRetransmissionController_def)
  have "CanSendNewDT demoConfig (w_flows ?w 0)" "\<not> HasQueuedRetransmission (w_flows ?w 0)" "f_Mode (w_flows ?w 0) = ModeDT"
    unfolding f using dtInflightLimitLocked_bounds(1) [of demoConfig "f_rate (NewFlowContext demoConfig 5 (demoPrefixes 0))"]
    by (simp_all add: CanSendNewDT_def HasQueuedRetransmission_def NewFlowContext_def initDTState_def demo_initial_mode DT_INFLIGHT_MIN_PACKETS_def)
  then show "rs_sequenceNum (w_run (run (worldStep demoConfig) (startWorld demoConfig 5 demoPrefixes) demoEvents) 0) = 1"
    using demo_tick by (simp add: demoEvents_def loopIter_def Let_def demoConfig_def)
qed

abbreviation demoWorld :: world where
  "demoWorld \<equiv> run (worldStep demoConfig) (startWorld demoConfig 5 demoPrefixes) demoEvents"

theorem no_sequence_is_lost_witness:
  "1 \<in> receivedSet (w_flows demoWorld 0) \<or> 1 \<in> pendingSet demoConfig (w_flows demoWorld 0)
     \<and> (1 \<in> retxMarked (w_flows demoWorld 0)
        \<or> timed (w_rc demoWorld) 0 (interestNameForSeq demoConfig (w_flows demoWorld 0) 1) 1)"
  by (rule no_sequence_is_lost [OF demo_cfg_ok demo_initial_mode demo_apart demo_run(1) refl]) (simp_all add: demo_run(2))

theorem expired_timers_mark_every_pending_witness:
  fixes now :: gotime
  defines "now \<equiv> 1 + Max (insert 0 (pp_Expiration ` set (rc_pq (w_rc demoWorld))))"
  defines "w' \<equiv> (schedulerTick demoConfig now ^^ length (rc_pq (w_rc demoWorld))) demoWorld"
  shows "pendingSet demoConfig (w_flows w' 0) \<subseteq> retxMarked (w_flows w' 0)"
proof -
  have "\<forall>p \<in> set (rc_pq (w_rc demoWorld)). pp_Expiration p < now"
  proof
    fix p assume "p \<in> set (rc_pq (w_rc demoWorld))"
    then have "pp_Expiration p \<le> Max (insert 0 (pp_Expiration ` set (rc_pq (w_rc demoWorld))))" by (intro Max_ge) auto
    then show "pp_Expiration p < now" by (simp add: now_def)
  qed
  from expired_timers_mark_every_pending [OF demo_cfg_ok demo_initial_mode demo_apart demo_run(1) refl this refl, of 0]
  show ?thesis unfolding w'_def by fastforce
qed

subsection \<open>Path discovery losing count\<close>

abbreviation pdTimer :: "string \<Rightarrow> string \<Rightarrow> gotime \<Rightarrow> int \<Rightarrow> u64 \<Rightarrow> flowId \<Rightarrow> int \<Rightarrow> PendingPacket" where
  "pdTimer nm prefix expiration seq gen fid i \<equiv> \<lparr>pp_Name = nm, pp_Prefix = prefix, pp_Expiration = expiration,
     pp_SequenceNum = seq, pp_Generation = gen, pp_Attempt = 1, pp_RTOBackoffLevel = 0,
     pp_Timeout = 200000000, pp_FlowCtx = fid, pp_Index = i\<rparr>"

abbreviation pdAttempt :: "int \<Rightarrow> u64 \<Rightarrow> flowId \<Rightarrow> ActiveAttempt" where
  "pdAttempt seq gen fid \<equiv> \<lparr>aa_SequenceNum = seq, aa_Generation = gen, aa_Attempt = 1, aa_RTOBackoffLevel = 0,
     aa_Timeout = 200000000, aa_Mode = ModePD, aa_FlowCtx = Some fid, aa_FastRepairTriggered = False, aa_FastRepairQueued = False\<rparr>"

definition pdSent :: "string \<Rightarrow> gotime \<Rightarrow> int \<Rightarrow> flow \<Rightarrow> flow" where
  "pdSent nm t seq f = f\<lparr>f_pendingSends := gm_put nm \<lparr>p_SendTime = t, p_Retransmitted = False\<rparr> (f_pendingSends f),
     f_OutstandingPD := f_OutstandingPD f + 1, f_retxQueued := gm_del seq (f_retxQueued f)\<rparr>"

lemma pd_send:
  assumes env: "se_made env" "se_sent env" and f: "f = w_flows w fid" "f_Mode f = ModePD" "r_rto (f_rate f) = PD_INIT_RTO"
    and nm: "nm = interestNameForSeq cfg f seq" "map_of (rc_active (w_rc w)) nm = None" "map_of (f_pendingSends f) nm = None"
    and gen: "gen = rc_nextGeneration (w_rc w) + 1" "0 < seq"
  shows "sendSingleInterest cfg env seq fid False w =
    w\<lparr>w_net := ((w_rc w)\<lparr>rc_nextGeneration := gen, rc_active := gm_put nm (pdAttempt seq gen fid) (rc_active (w_rc w)),
         rc_pq := heapPush (pdTimer nm (f_Prefix f) (se_addTime env + 200000000) seq gen fid 0) (rc_pq (w_rc w)),
         rc_wakeup := True\<rparr>, (w_flows w)(fid := pdSent nm (se_sendTime env) seq f)),
      w_stats := IncrementSent (w_stats w), w_expressed := (fid, nm, pdAttempt seq gen fid) # w_expressed w\<rparr>"
proof -
  let ?f1 = "f\<lparr>f_pendingSends := gm_put nm \<lparr>p_SendTime = se_sendTime env, p_Retransmitted = False\<rparr> (f_pendingSends f),
     f_OutstandingPD := f_OutstandingPD f + 1\<rparr>"
  have rto: "go_trunc (PD_INIT_RTO * 1000000) = 200000000" by (simp add: PD_INIT_RTO_def go_trunc_def)
  have "RecordInterestSend nm seq (se_sendTime env) False f = (?f1, ModePD, True)"
    using f(2) nm(3) by (simp add: RecordInterestSend_def Let_def)
  from send_eq [OF env(1), of cfg w fid seq, folded f(1), folded nm(1), OF this] show ?thesis
    using env(2) f nm gen rto
    by (simp add: Add_def GetRTOIfPending_def installShadowAttemptAndClearQueued_def clearQueuedRetransmissionLocked_def
        setFlow_def pdSent_def Let_def)
qed

lemma pd_iter:
  assumes "f_Mode (w_flows w fid) = ModePD" "k = rs_sequenceNum (w_run w fid)" "k < cfg_MAX_PACKETS cfg"
  shows "fst (loopIter cfg env fid w) = sendSingleInterest cfg env (k + 1) fid False
    (setRun fid ((w_run w fid)\<lparr>rs_sequenceNum := k + 1, rs_tokens := rs_tokens (w_run w fid) - 1\<rparr>) w)"
  using assms by (simp add: loopIter_def Let_def)

lemma pd_start:
  assumes "cfg_initialMode cfg = ModePD" "f = NewFlowContext cfg t0 prefix"
  shows "f_Mode f = ModePD" "r_rto (f_rate f) = PD_INIT_RTO" "f_pendingSends f = []" "f_OutstandingPD f = 0" "\<not> f_StopPD f"
    "\<not> f_IsPaused f" "f_RehearsalCount f = 0" "\<not> f_isFinished f"
  using assms by (simp_all add: NewFlowContext_def updatePDBaseName_def zeroFlow_def Let_def)

lemma pd_tick:
  assumes "f_Mode (w_flows w fid) = ModePD" "\<not> f_StopPD (w_flows w fid)" "\<not> f_IsPaused (w_flows w fid)" "f_RehearsalCount (w_flows w fid) = 0"
  shows "w_net (fst (tickStart t fid w)) = w_net w" "rs_sequenceNum (w_run (fst (tickStart t fid w)) fid) = rs_sequenceNum (w_run w fid)"
    "w_expressed (fst (tickStart t fid w)) = w_expressed w"
  using assms by (simp_all add: tickStart_def pdShouldSend_def refillTokens_def Let_def)

lemma heapPush_small:
  "heapPush p [] = [packetMark 0 p]"
  "pp_Expiration p \<le> pp_Expiration q \<Longrightarrow> heapPush q [p] = [p, packetMark 1 q]"
  unfolding heapPush_def heap_push_def by (subst heap_up.simps, simp add: par_def packetMark_def)+

lemma heapPop_two: "heapPop [p, q] = Some (packetMark (-1) (packetMark 1 p), [packetMark 0 q])"
  unfolding heapPop_def heap_pop_def by (subst heap_down.simps) (simp add: heap_swap_def)

text \<open>Two probes in flight: their timers, their attempts and the flow.\<close>

definition probesInFlight :: "config \<Rightarrow> gotime \<Rightarrow> (flowId \<Rightarrow> string) \<Rightarrow> flowId \<Rightarrow> sendEnv \<Rightarrow> sendEnv \<Rightarrow> RetransmissionController \<times> flows" where
  "probesInFlight cfg t0 prefixes fid e1 e2 =
    (let f = NewFlowContext cfg t0 (prefixes fid); nm = interestNameForSeq cfg f
     in (\<lparr>rc_pq = [pdTimer (nm 1) (f_Prefix f) (se_addTime e1 + 200000000) 1 1 fid 0,
                   pdTimer (nm 2) (f_Prefix f) (se_addTime e2 + 200000000) 2 2 fid 1],
          rc_active = [(nm 1, pdAttempt 1 1 fid), (nm 2, pdAttempt 2 2 fid)], rc_nextGeneration = 2, rc_wakeup = True\<rparr>,
         (\<lambda>i. NewFlowContext cfg t0 (prefixes i))(fid := pdSent (nm 2) (se_sendTime e2) 2 (pdSent (nm 1) (se_sendTime e1) 1 f))))"

lemma pd_two_probes:
  fixes cfg t0 prefixes fid t1 e1 e2
  defines "f \<equiv> NewFlowContext cfg t0 (prefixes fid)"
  defines "nm \<equiv> interestNameForSeq cfg f"
    and "w \<equiv> run (worldStep cfg) (startWorld cfg t0 prefixes) [FlowTick fid t1, SendIteration fid e1, SendIteration fid e2]"
  assumes pd: "cfg_initialMode cfg = ModePD" "2 \<le> cfg_MAX_PACKETS cfg"
    and env: "se_made e1" "se_sent e1" "se_made e2" "se_sent e2" "se_addTime e1 \<le> se_addTime e2"
  shows "w_net w = probesInFlight cfg t0 prefixes fid e1 e2"
    and "w_expressed w = [(fid, nm 2, pdAttempt 2 2 fid), (fid, nm 1, pdAttempt 1 1 fid)]"
proof -
  note f = pd_start [OF pd(1) refl, of t0 "prefixes fid", folded f_def]
  define w0 where "w0 = fst (tickStart t1 fid (startWorld cfg t0 prefixes))"
  have w0: "w_net w0 = (NewRetransmissionController, \<lambda>i. NewFlowContext cfg t0 (prefixes i))" "rs_sequenceNum (w_run w0 fid) = 0" "w_expressed w0 = []"
    using pd_tick [of "startWorld cfg t0 prefixes" fid t1] f by (simp_all add: w0_def f_def startWorld_def startRun_def)
  define w1 where "w1 = fst (loopIter cfg e1 fid w0)"
  have w1: "w_net w1 = (\<lparr>rc_pq = [pdTimer (nm 1) (f_Prefix f) (se_addTime e1 + 200000000) 1 1 fid 0],
      rc_active = [(nm 1, pdAttempt 1 1 fid)], rc_nextGeneration = 1, rc_wakeup = True\<rparr>,
      (\<lambda>i. NewFlowContext cfg t0 (prefixes i))(fid := pdSent (nm 1) (se_sendTime e1) 1 f))"
    "w_expressed w1 = [(fid, nm 1, pdAttempt 1 1 fid)]" "rs_sequenceNum (w_run w1 fid) = 1"
    using pd_iter [of w0 fid 0 cfg e1] pd_send [OF env(1,2) refl, of _ fid "nm 1" cfg 1 1] pd(2) f w0
    by (simp_all add: w1_def f_def [symmetric] nm_def NewRetransmissionController_def heapPush_small packetMark_def gm_put_def)
  have w: "w = fst (loopIter cfg e2 fid w1)" by (simp add: w_def w0_def w1_def)
  have "nm 1 \<noteq> nm 2" by (simp add: nm_def interestNameForSeq_def)
  then show "w_net w = probesInFlight cfg t0 prefixes fid e1 e2"
    "w_expressed w = [(fid, nm 2, pdAttempt 2 2 fid), (fid, nm 1, pdAttempt 1 1 fid)]"
    using pd_iter [of w1 fid 1 cfg e2] pd_send [OF env(3,4) refl, of _ fid "nm 2" cfg 2 2] pd(2) f w1 env(5)
    by (simp_all add: w probesInFlight_def f_def [symmetric] nm_def pdSent_def interestNameForSeq_def Let_def heapPush_small
        packetMark_def gm_put_def)
qed

lemma schedulerRound_pd:
  assumes "rc_pq rc = [p, q]" "pp_Expiration p < now" "map_of (rc_active rc) (pp_Name p) = Some a" "aa_Generation a = pp_Generation p" "aa_Mode a = ModePD"
  shows "schedulerRound cfg now (rc, fl) = ((rc\<lparr>rc_pq := [packetMark 0 q], rc_active := gm_del (pp_Name p) (rc_active rc)\<rparr>,
     fl(pp_FlowCtx p := OnTimeout cfg (pp_Name p) (fl (pp_FlowCtx p)))), Again True)"
  using assms by (simp add: schedulerRound_def heapPop_two Let_def packetMark_def)

lemma callback_undecodable:
  assumes "f_Mode (w_flows w fid) = ModePD" "\<not> f_isFinished (w_flows w fid)" "map_of (f_pendingSends (w_flows w fid)) nm = Some p" "deserializeDiscovery payload = None"
  shows "w_net (expressCallback cfg (fid, nm, a) (InterestResultData payload dn t) w) =
    (w_rc w, (w_flows w)(fid := decOutstandingPD ((w_flows w fid)\<lparr>f_pendingSends := gm_del nm (f_pendingSends (w_flows w fid))\<rparr>)))"
  using assms by (simp add: OnData_def onDataPD_def Let_def)

text \<open>
  (C31) Undecodable discovery Data is counted twice.  A flow in path discovery has two probes in flight when
  Data that does not decode answers the first one.  The callback takes the probe off the outstanding
  count but, since the handler reports failure, leaves its attempt current and its timer on the heap.  When that
  timer expires the scheduler takes another one off: the count is zero while the
  second probe is still pending, with its own timer running.
\<close>

theorem pd_undecodable_data_counted_twice:
  fixes cfg t0 prefixes fid
  defines "nm \<equiv> interestNameForSeq cfg (NewFlowContext cfg t0 (prefixes fid))"
  assumes "cfg_initialMode cfg = ModePD" "2 \<le> cfg_MAX_PACKETS cfg" "deserializeDiscovery payload = None"
    and "se_sent e1" "se_sent e2" "se_addTime e1 \<le> se_addTime e2" "se_addTime e1 + 200000000 < t3"
    and "es = [FlowTick fid t1, SendIteration fid e1, SendIteration fid e2]"
      "data = Callback 1 (InterestResultData payload (nm 1) t2)"
    and "enabled_run (worldEnabled n) (worldStep cfg) (startWorld cfg t0 prefixes) (es @ [data, SchedulerRound t3])"
    and "w = run (worldStep cfg) (startWorld cfg t0 prefixes) es" "w' = worldStep cfg w data" "w'' = worldStep cfg w' (SchedulerRound t3)"
  shows "f_OutstandingPD (w_flows w fid) = 2
    \<and> f_OutstandingPD (w_flows w' fid) = 1 \<and> map_of (f_pendingSends (w_flows w' fid)) (nm 1) = None \<and> timed (w_rc w') fid (nm 1) 1
    \<and> f_OutstandingPD (w_flows w'' fid) = 0 \<and> map_of (f_pendingSends (w_flows w'' fid)) (nm 2) \<noteq> None \<and> timed (w_rc w'') fid (nm 2) 2"
proof -
  let ?f = "NewFlowContext cfg t0 (prefixes fid)"
  have made: "se_made e1" "se_made e2" using assms(9,11) by simp_all
  note f = pd_start [OF assms(2) refl, of t0 "prefixes fid"]
  have w: "w_net w = probesInFlight cfg t0 prefixes fid e1 e2"
    "w_expressed w = [(fid, nm 2, pdAttempt 2 2 fid), (fid, nm 1, pdAttempt 1 1 fid)]"
    using pd_two_probes [OF assms(2,3) made(1) assms(5) made(2) assms(6,7)] unfolding assms(9,12) nm_def by blast+
  have ne: "nm 1 \<noteq> nm 2" by (simp add: nm_def interestNameForSeq_def)
  have g: "w_flows w fid = pdSent (nm 2) (se_sendTime e2) 2 (pdSent (nm 1) (se_sendTime e1) 1 ?f)"
    "rc_pq (w_rc w) = [pdTimer (nm 1) (f_Prefix ?f) (se_addTime e1 + 200000000) 1 1 fid 0,
                       pdTimer (nm 2) (f_Prefix ?f) (se_addTime e2 + 200000000) 2 2 fid 1]"
    "rc_active (w_rc w) = [(nm 1, pdAttempt 1 1 fid), (nm 2, pdAttempt 2 2 fid)]"
    by (simp_all add: w(1) probesInFlight_def nm_def Let_def)
  have pre: "f_Mode (w_flows w fid) = ModePD" "\<not> f_isFinished (w_flows w fid)"
    "map_of (f_pendingSends (w_flows w fid)) (nm 1) = Some \<lparr>p_SendTime = se_sendTime e1, p_Retransmitted = False\<rparr>"
    using f ne by (simp_all add: g(1) pdSent_def)
  have "w' = expressCallback cfg (fid, nm 1, pdAttempt 1 1 fid) (InterestResultData payload (nm 1) t2) w"
    by (simp only: assms(10,13) worldStep.simps w(2)) (simp del: expressCallback.simps)
  then have w': "w_net w' = (w_rc w, (w_flows w)(fid :=
      decOutstandingPD ((w_flows w fid)\<lparr>f_pendingSends := gm_del (nm 1) (f_pendingSends (w_flows w fid))\<rparr>)))"
    using callback_undecodable [OF pre assms(4)] by simp
  have "w_net w'' = fst (schedulerRound cfg t3 (w_net w'))" by (simp only: assms(14) worldStep.simps schedulerTick_net)
  also have "schedulerRound cfg t3 (w_net w') = (((w_rc w)\<lparr>rc_pq := [packetMark 0 (rc_pq (w_rc w) ! 1)],
      rc_active := gm_del (nm 1) (rc_active (w_rc w))\<rparr>, (w_flows w')(fid := OnTimeout cfg (nm 1) (w_flows w' fid))), Again True)"
    using schedulerRound_pd [OF g(2), of t3 "pdAttempt 1 1 fid" cfg "w_flows w'"] assms(8) by (simp add: w' g(2,3))
  finally have w'': "w_net w'' = ((w_rc w)\<lparr>rc_pq := [packetMark 0 (rc_pq (w_rc w) ! 1)], rc_active := gm_del (nm 1) (rc_active (w_rc w))\<rparr>,
      (w_flows w')(fid := OnTimeout cfg (nm 1) (w_flows w' fid)))" by simp
  show ?thesis
    using f ne
    by (simp add: g w' w'' timed_def timers_def ph.contents_def timer_of_def packetMark_def pdSent_def gm_put_def gm_del_def
        decOutstandingPD_def OnTimeout_def checkPdState_def)
qed

text \<open>One tick earns the tokens for both probes; the first is answered by an empty payload.\<close>

definition demoEnv2 :: sendEnv where
  "demoEnv2 = demoEnv\<lparr>se_addTime := 1000000009\<rparr>"

definition demoProbes :: "worldEvent list" where
  "demoProbes = [FlowTick 0 1000000005, SendIteration 0 demoEnv, SendIteration 0 demoEnv2]"

abbreviation demoProbeName :: string where
  "demoProbeName \<equiv> interestNameForSeq demoPdConfig (NewFlowContext demoPdConfig 5 (demoPrefixes 0)) 1"

lemma demo_probes:
  "enabled_run (worldEnabled 2) (worldStep demoPdConfig) (startWorld demoPdConfig 5 demoPrefixes)
     (demoProbes @ [Callback 1 (InterestResultData [] demoProbeName 1000000010), SchedulerRound 2000000000])"
proof -
  let ?w0 = "startWorld demoPdConfig 5 demoPrefixes"
  define w1 w2 where "w1 = fst (tickStart 1000000005 0 ?w0)" and "w2 = fst (loopIter demoPdConfig demoEnv 0 w1)"
  have cfg: "cfg_initialMode demoPdConfig = ModePD" "2 \<le> cfg_MAX_PACKETS demoPdConfig" by (simp_all add: demoPdConfig_def demoConfig_def)
  have env: "se_made demoEnv" "se_sent demoEnv" "se_made demoEnv2" "se_sent demoEnv2" "se_addTime demoEnv \<le> se_addTime demoEnv2"
    by (simp_all add: demoEnv_def demoEnv2_def)
  have f: "f_Mode (w_flows ?w0 0) = ModePD" "\<not> f_StopPD (w_flows ?w0 0)" "\<not> f_IsPaused (w_flows ?w0 0)" "f_RehearsalCount (w_flows ?w0 0) = 0"
    "GetRate (w_flows ?w0 0) = 1000" "r_rto (f_rate (w_flows ?w0 0)) = PD_INIT_RTO" "f_pendingSends (w_flows ?w0 0) = []"
    using cfg(1) by (simp_all add: startWorld_def NewFlowContext_def updatePDBaseName_def zeroFlow_def GetRate_def PD_INIT_RATE_def Let_def)
  have w1: "w_net w1 = w_net ?w0" "rs_sequenceNum (w_run w1 0) = 0" "2 \<le> rs_tokens (w_run w1 0)" "rc_nextGeneration (w_rc w1) = 0"
    using pd_tick [OF f(1-4), of 1000000005] f(1-5)
    by (simp_all add: w1_def startWorld_def startRun_def NewRetransmissionController_def tickStart_def pdShouldSend_def refillTokens_def
        time_sub_def seconds_def DT_SEND_BURST_INTERVAL_def Let_def)
  have w2: "1 \<le> rs_tokens (w_run w2 0)" "rc_nextGeneration (w_rc w2) = 1"
    using pd_iter [of w1 0 0 demoPdConfig demoEnv] pd_send [OF env(1,2) refl, of _ 0 _ demoPdConfig 1 1] cfg(2) f w1
    by (simp_all add: w2_def) (simp add: startWorld_def NewRetransmissionController_def)
  show ?thesis
    using pd_two_probes(2) [OF cfg env, of 5 demoPrefixes 0 1000000005] w1 w2 env
    by (simp add: demoProbes_def w1_def [symmetric] w2_def [symmetric] answers_def)
qed

theorem pd_undecodable_data_counted_twice_witness:
  "f_OutstandingPD (w_flows (run (worldStep demoPdConfig) (startWorld demoPdConfig 5 demoPrefixes)
     (demoProbes @ [Callback 1 (InterestResultData [] demoProbeName 1000000010), SchedulerRound 2000000000])) 0) = 0"
proof -
  have "cfg_initialMode demoPdConfig = ModePD" "2 \<le> cfg_MAX_PACKETS demoPdConfig" "deserializeDiscovery [] = None"
    "se_sent demoEnv" "se_sent demoEnv2" "se_addTime demoEnv \<le> se_addTime demoEnv2" "se_addTime demoEnv + 200000000 < 2000000000"
    by (simp_all add: demoPdConfig_def demoConfig_def demoEnv_def demoEnv2_def deserializeDiscovery_def)
  from pd_undecodable_data_counted_twice [OF this demoProbes_def refl demo_probes refl refl refl] show ?thesis
    by (simp add: run_append)
qed

end
