(* ===== verification/Priority_Queue.thy ===== *)
theory Priority_Queue
  imports Go_Heap
begin

text \<open>
  The generic priority queue of \<open>std/types/priority_queue/priority-queue.go\<close>, which the dead
  nonce list and the PIT use for expiry.  \<open>wrapper\<close> is a list of \<open>Item\<close>s under the heap
  algorithms; an \<open>Item\<close> that the caller holds is identified by its stored position, which is
  what \<open>Update\<close> and \<open>UpdatePriority\<close> use.  \<open>Peek\<close>, \<open>PeekPriority\<close> and \<open>Pop\<close> of an empty queue
  index out of range and panic: they are \<open>None\<close>.  The locale \<open>min_queue\<close> is the contract of a
  queue with minimum priority; the interpretation \<open>pq\<close> shows the heap implements it.
\<close>

subsection \<open>The queue\<close>

record ('v, 'p) Item =
  it_object :: 'v
  it_priority :: 'p
  it_index :: int

type_synonym ('v, 'p) Queue = "('v, 'p) Item list"

definition itemMark :: "int \<Rightarrow> ('v, 'p) Item \<Rightarrow> ('v, 'p) Item" where
  "itemMark i x = x\<lparr>it_index := i\<rparr>"

definition pqNew :: "('v, 'p) Queue" where
  "pqNew = []"

definition pqLen :: "('v, 'p) Queue \<Rightarrow> nat" where
  "pqLen q = length q"

definition pqPush :: "'v \<Rightarrow> 'p :: linorder \<Rightarrow> ('v, 'p) Queue \<Rightarrow> ('v, 'p) Queue" where
  "pqPush v p q = heap_push itemMark it_priority \<lparr>it_object = v, it_priority = p, it_index = 0\<rparr> q"

definition pqPeek :: "('v, 'p) Queue \<Rightarrow> 'v option" where
  "pqPeek q = (if q = [] then None else Some (it_object (q ! 0)))"

definition pqPeekPriority :: "('v, 'p) Queue \<Rightarrow> 'p option" where
  "pqPeekPriority q = (if q = [] then None else Some (it_priority (q ! 0)))"

definition pqPop :: "('v, 'p :: linorder) Queue \<Rightarrow> ('v \<times> ('v, 'p) Queue) option" where
  "pqPop q = (case heap_pop itemMark it_priority q of
      None \<Rightarrow> None | Some (item, q') \<Rightarrow> Some (it_object item, q'))"

text \<open>
  \<open>heap.Fix\<close> with a negative index leaves the slice alone (the item was popped before, its index
  is \<open>-1\<close>); with an index inside the slice the stored item gets the new value and priority.
\<close>

definition pqUpdate :: "int \<Rightarrow> 'v \<Rightarrow> 'p :: linorder \<Rightarrow> ('v, 'p) Queue \<Rightarrow> ('v, 'p) Queue" where
  "pqUpdate i v p q =
    (if i < 0 \<or> int (length q) \<le> i then q
     else heap_fix itemMark it_priority (nat i)
            (q[nat i := (q ! nat i)\<lparr>it_object := v, it_priority := p\<rparr>]))"

definition pqUpdatePriority :: "int \<Rightarrow> 'p :: linorder \<Rightarrow> ('v, 'p) Queue \<Rightarrow> ('v, 'p) Queue" where
  "pqUpdatePriority i p q =
    (if i < 0 \<or> int (length q) \<le> i then q
     else heap_fix itemMark it_priority (nat i) (q[nat i := (q ! nat i)\<lparr>it_priority := p\<rparr>]))"

subsection \<open>The contract of a minimum-priority queue\<close>

locale min_queue =
  fixes new :: 'q
    and len :: "'q \<Rightarrow> nat"
    and push :: "'v \<Rightarrow> 'p :: linorder \<Rightarrow> 'q \<Rightarrow> 'q"
    and peek :: "'q \<Rightarrow> 'p option"
    and pop :: "'q \<Rightarrow> ('v \<times> 'q) option"
    and invar :: "'q \<Rightarrow> bool"
    and items :: "'q \<Rightarrow> ('v \<times> 'p) multiset"
  assumes invar_new: "invar new" and items_new: "items new = {#}"
    and len_items: "invar q \<Longrightarrow> len q = size (items q)"
    and invar_push: "invar q \<Longrightarrow> invar (push v p q)"
    and items_push: "invar q \<Longrightarrow> items (push v p q) = add_mset (v, p) (items q)"
    and peek_none: "invar q \<Longrightarrow> peek q = None \<longleftrightarrow> items q = {#}"
    and pop_none: "invar q \<Longrightarrow> pop q = None \<longleftrightarrow> items q = {#}"
    and pop_some: "invar q \<Longrightarrow> pop q = Some (v, q') \<Longrightarrow>
      invar q' \<and> (\<exists>p. peek q = Some p \<and> items q = add_mset (v, p) (items q') \<and> (\<forall>x \<in># items q. p \<le> snd x))"
begin

lemma pop_len: "invar q \<Longrightarrow> pop q = Some (v, q') \<Longrightarrow> len q = Suc (len q')"
  using pop_some [of q v q'] by (auto simp: len_items)

lemma pop_total: "invar q \<Longrightarrow> items q \<noteq> {#} \<Longrightarrow> \<exists>v q'. pop q = Some (v, q')"
  using pop_none [of q] by (cases "pop q") auto

text \<open>
  Expiry loops of the clients: pop while the smallest priority is due, at most \<open>n\<close> times.  What
  is due may change from one iteration to the next, since the clients read the clock in each of
  them: \<open>due i\<close> is the test of iteration \<open>i\<close>.  The items leave in order of their priority, and what
  stays is not due or was beyond the limit.
\<close>

fun popDue :: "(nat \<Rightarrow> 'p \<Rightarrow> bool) \<Rightarrow> nat \<Rightarrow> nat \<Rightarrow> 'q \<Rightarrow> ('v \<times> 'p) list \<times> 'q" where
  "popDue due k 0 q = ([], q)"
| "popDue due k (Suc n) q =
    (case (peek q, pop q) of
       (Some p, Some (v, q')) \<Rightarrow>
         if due k p then (let (vs, q'') = popDue due (Suc k) n q' in ((v, p) # vs, q'')) else ([], q)
     | _ \<Rightarrow> ([], q))"

definition popDue_ok :: "(nat \<Rightarrow> 'p \<Rightarrow> bool) \<Rightarrow> nat \<Rightarrow> nat \<Rightarrow> 'q \<Rightarrow> ('v \<times> 'p) list \<times> 'q \<Rightarrow> bool" where
  "popDue_ok due k n q r \<longleftrightarrow> invar (snd r) \<and> items q = mset (fst r) + items (snd r) \<and> sorted (map snd (fst r))
    \<and> (\<forall>i < length (fst r). due (k + i) (snd (fst r ! i))) \<and> length (fst r) \<le> n
    \<and> (\<forall>x \<in> set (fst r). \<forall>y \<in># items (snd r). snd x \<le> snd y)
    \<and> (length (fst r) < n \<longrightarrow> (\<forall>p. peek (snd r) = Some p \<longrightarrow> \<not> due (k + length (fst r)) p))"

lemma popDue_ok_stop: "invar q \<Longrightarrow> (n = 0 \<or> (\<forall>p. peek q = Some p \<longrightarrow> \<not> due k p)) \<Longrightarrow> popDue_ok due k n q ([], q)"
  by (auto simp: popDue_ok_def)

lemma popDue_ok_step:
  assumes "invar q" "pop q = Some (v, q1)" "peek q = Some p" "due k p" "popDue_ok due (Suc k) n q1 (vs, q')"
  shows "popDue_ok due k (Suc n) q ((v, p) # vs, q')"
proof -
  have q: "items q = add_mset (v, p) (items q1)" "\<forall>x \<in># items q. p \<le> snd x"
    using pop_some [OF assms(1,2)] assms(3) by auto
  have "items q1 = mset vs + items q'" using assms(5) by (simp add: popDue_ok_def)
  then have "p \<le> snd x" if "x \<in> set vs \<or> x \<in># items q'" for x using q that by auto
  then show ?thesis
    using assms(4,5) q(1) unfolding popDue_ok_def by (auto simp: nth_Cons split: nat.splits)
qed

lemma popDue_spec: "invar q \<Longrightarrow> popDue_ok due k n q (popDue due k n q)"
proof (induction n arbitrary: k q)
  case 0
  then show ?case by (simp add: popDue_ok_stop)
next
  case (Suc n)
  show ?case
  proof (cases "pop q")
    case None
    then have "peek q = None" using peek_none pop_none Suc.prems by blast
    then show ?thesis using Suc.prems by (simp add: popDue_ok_stop)
  next
    case (Some r)
    obtain v q1 where r: "pop q = Some (v, q1)" using Some by (cases r) auto
    obtain p where p: "invar q1" "peek q = Some p" using pop_some [OF Suc.prems r] by blast
    obtain vs q' where q': "popDue due (Suc k) n q1 = (vs, q')" by fastforce
    show ?thesis
      using popDue_ok_step [OF Suc.prems r p(2), of due k n vs q'] popDue_ok_stop [OF Suc.prems, of "Suc n" due k]
        Suc.IH [OF p(1), of "Suc k"] p r q' by auto
  qed
qed

end

subsection \<open>The heap implements the contract\<close>

interpretation pqh: indexed_heap itemMark it_priority it_index
  by unfold_locales (simp_all add: itemMark_def)

definition pqOk :: "('v, 'p :: linorder) Queue \<Rightarrow> bool" where
  "pqOk q = pqh.heap_ok q"

definition pqItems :: "('v, 'p) Queue \<Rightarrow> ('v \<times> 'p) multiset" where
  "pqItems q = image_mset (\<lambda>x. (it_object x, it_priority x)) (mset q)"

lemma pqItems_contents: "pqItems q = image_mset (\<lambda>x. (it_object x, it_priority x)) (pqh.contents q)"
  by (simp add: pqItems_def pqh.contents_def image_mset.compositionality comp_def itemMark_def)

lemma pqPop_cases:
  assumes "pqOk q" "q \<noteq> []"
  obtains q' where "pqPop q = Some (it_object (q ! 0), q')" "pqOk q'"
    "pqItems q = add_mset (it_object (q ! 0), it_priority (q ! 0)) (pqItems q')"
proof (rule pqh.pop_correct)
  show "pqh.heap_ok q" "q \<noteq> []" using assms by (simp_all add: pqOk_def)
next
  fix x h
  assume x: "heap_pop itemMark it_priority q = Some (x, h)" "pqh.heap_ok h" "x = itemMark (- 1) (q ! 0)"
    "pqh.contents q = add_mset x (pqh.contents h)"
  show thesis
    by (rule that [of h]) (use x in \<open>simp_all add: pqPop_def pqOk_def pqItems_contents itemMark_def\<close>)
qed

interpretation pq: min_queue pqNew pqLen pqPush pqPeekPriority pqPop pqOk pqItems
proof unfold_locales
  fix q :: "('v, 'p :: linorder) Queue" and v p
  assume q: "pqOk q"
  show "pqOk (pqPush v p q)" "pqItems (pqPush v p q) = add_mset (v, p) (pqItems q)"
    using pqh.push_correct [of q "\<lparr>it_object = v, it_priority = p, it_index = 0\<rparr>"] q
    by (simp_all add: pqOk_def pqPush_def pqItems_contents itemMark_def)
  show "pqPop q = None \<longleftrightarrow> pqItems q = {#}"
    by (auto simp: pqPop_def heap_pop_def pqItems_def Let_def)
  fix q'
  assume pop: "pqPop q = Some (v, q')"
  then have "q \<noteq> []" by (auto simp: pqPop_def heap_pop_def)
  then obtain q1 where q1: "pqPop q = Some (it_object (q ! 0), q1)" "pqOk q1"
    "pqItems q = add_mset (it_object (q ! 0), it_priority (q ! 0)) (pqItems q1)"
    using pqPop_cases q by blast
  have "\<forall>x \<in># pqItems q. it_priority (q ! 0) \<le> snd x"
    using pqh.heap_root_least q by (auto simp: pqOk_def pqItems_def)
  then show "pqOk q' \<and> (\<exists>p. pqPeekPriority q = Some p \<and> pqItems q = add_mset (v, p) (pqItems q')
      \<and> (\<forall>x \<in># pqItems q. p \<le> snd x))"
    using q1 pop \<open>q \<noteq> []\<close> by (simp add: pqPeekPriority_def)
qed (simp_all add: pqOk_def pqNew_def pqItems_def pqLen_def pqPeekPriority_def)

lemma pqUpdate_items:
  assumes "pqOk q" "0 \<le> i" "i < int (length q)"
  shows "pqOk (pqUpdate i v p q)"
    and "pqItems (pqUpdate i v p q)
      = add_mset (v, p) (pqItems q - {#(it_object (q ! nat i), it_priority (q ! nat i))#})"
proof -
  let ?x = "(q ! nat i)\<lparr>it_object := v, it_priority := p\<rparr>"
  have i: "nat i < length q" using assms by simp
  then have x: "it_index ?x = int (nat i)" using assms(1) by (simp add: pqOk_def pqh.heap_ok_def pqh.indexed_def)
  note fixed = pqh.fix_correct [OF assms(1) [unfolded pqOk_def] i x]
  have mem: "itemMark (-1) (q ! nat i) \<in># pqh.contents q" using i by (simp add: pqh.contents_def)
  show "pqOk (pqUpdate i v p q)" using fixed(1) assms(2,3) by (simp add: pqUpdate_def pqOk_def)
  show "pqItems (pqUpdate i v p q)
      = add_mset (v, p) (pqItems q - {#(it_object (q ! nat i), it_priority (q ! nat i))#})"
    using fixed(2) assms(2,3) mem
    by (simp add: pqUpdate_def pqItems_contents image_mset_Diff) (simp add: itemMark_def)
qed

lemma pqUpdatePriority_eq:
  "pqUpdatePriority i p q = pqUpdate i (it_object (q ! nat i)) p q"
  by (simp add: pqUpdatePriority_def pqUpdate_def)

subsection \<open>Properties\<close>

text \<open>
  (C33) The priority queue is a multiset of values with priorities.  \<open>Push\<close> adds one, \<open>Pop\<close> takes
  one of minimum priority out and fails only on the empty queue, \<open>Update\<close> replaces exactly the
  item it is given, and each keeps the queue well formed.
\<close>

theorem queue_refines_multiset:
  fixes q :: "('v, 'p :: linorder) Queue"
  assumes ok: "pqOk q"
  shows "pqOk (pqPush v p q) \<and> pqItems (pqPush v p q) = add_mset (v, p) (pqItems q)
    \<and> (case pqPop q of
          None \<Rightarrow> pqItems q = {#}
        | Some (u, q') \<Rightarrow> pqOk q' \<and> (\<exists>r. pqItems q = add_mset (u, r) (pqItems q') \<and> (\<forall>x \<in># pqItems q. r \<le> snd x)))
    \<and> (0 \<le> i \<and> i < int (pqLen q) \<longrightarrow> pqOk (pqUpdate i v p q)
        \<and> pqItems (pqUpdate i v p q)
          = add_mset (v, p) (pqItems q - {#(it_object (q ! nat i), it_priority (q ! nat i))#}))"
proof (intro conjI)
  show "case pqPop q of None \<Rightarrow> pqItems q = {#}
      | Some (u, q') \<Rightarrow> pqOk q' \<and> (\<exists>r. pqItems q = add_mset (u, r) (pqItems q') \<and> (\<forall>x \<in># pqItems q. r \<le> snd x))"
    using pq.pop_none [OF ok] pq.pop_some [OF ok] by (fastforce split: option.split)
qed (use pq.invar_push [OF ok] pq.items_push [OF ok] pqUpdate_items [OF ok] in \<open>simp_all add: pqLen_def\<close>)

theorem queue_refines_multiset_witness:
  "pqItems (pqPush (CHR ''b'') 3 (pqPush (CHR ''a'') (7 :: int) pqNew)) = {#(CHR ''b'', 3), (CHR ''a'', 7)#}"
proof -
  have q0: "pqOk (pqNew :: (char, int) Queue)" by (rule pq.invar_new)
  have "pqOk (pqPush (CHR ''a'') (7 :: int) pqNew)
      \<and> pqItems (pqPush (CHR ''a'') (7 :: int) pqNew) = {#(CHR ''a'', 7)#}"
    using queue_refines_multiset [OF q0, of "CHR ''a''" 7] by (simp add: pq.items_new)
  then show ?thesis
    using queue_refines_multiset [of "pqPush (CHR ''a'') (7 :: int) pqNew" "CHR ''b''" 3] by simp
qed

text \<open>
  (C34) Popping a queue until it is empty sorts: the values that were pushed come out, all of
  them, in order of their priorities, and the loop ends after one \<open>Pop\<close> per value.
\<close>

theorem queue_drains_sorted:
  fixes xs :: "('v \<times> 'p :: linorder) list"
  defines "q \<equiv> foldl (\<lambda>q (v, p). pqPush v p q) pqNew xs"
  shows "\<exists>vs. pq.popDue (\<lambda>_ _. True) 0 (length xs) q = (vs, []) \<and> mset vs = mset xs \<and> sorted (map snd vs)"
proof -
  have "pqOk (foldl (\<lambda>q (v, p). pqPush v p q) q0 xs) \<and>
      pqItems (foldl (\<lambda>q (v, p). pqPush v p q) q0 xs) = mset xs + pqItems q0" if "pqOk q0" for q0 :: "('v, 'p) Queue"
    using that
    by (induction xs arbitrary: q0) (auto simp: pq.invar_push pq.items_push)
  from this [OF pq.invar_new] have q: "pqOk q" "pqItems q = mset xs"
    unfolding q_def by (simp_all add: pq.items_new)
  obtain vs q' where r: "pq.popDue (\<lambda>_ _. True) 0 (length xs) q = (vs, q')" by fastforce
  have spec: "pq.popDue_ok (\<lambda>_ _. True) 0 (length xs) q (vs, q')"
    using pq.popDue_spec [OF q(1), of "\<lambda>_ _. True" 0 "length xs"] by (simp add: r)
  have "size (mset xs) = size (mset vs + pqItems q')" using spec q(2) by (simp add: pq.popDue_ok_def)
  then have len: "length xs = length vs + length q'" by (simp add: pqItems_def)
  then have "q' = []" using spec by (cases "q' = []") (auto simp: pqPeekPriority_def pq.popDue_ok_def)
  then show ?thesis using r spec q(2) by (simp add: pq.popDue_ok_def pqItems_def)
qed

end
