(* ===== verification/Dead_Nonce_List.thy ===== *)
theory Dead_Nonce_List
  imports Priority_Queue Ndn_Name
begin

text \<open>
  The dead nonce list of a forwarding thread (\<open>fw/table/dead-nonce-list.go\<close>): a set of hashes with
  an expiry queue beside it.  \<open>Name.Hash\<close> is computed by a third-party hash function and is the
  parameter \<open>hash\<close>; \<open>now\<close> and \<open>clock\<close> stand for the readings of \<open>time.Now().UnixNano()\<close>, one per
  iteration of the expiry loop, and \<open>lifetime\<close> for the configured lifetime.
\<close>

record DeadNonceList =
  dnl_list :: "(u64, bool) gomap"
  dnl_expirationQueue :: "(u64, int) Queue"

definition NewDeadNonceList :: DeadNonceList where
  "NewDeadNonceList = \<lparr>dnl_list = [], dnl_expirationQueue = pqNew\<rparr>"

definition nonceHash :: "(name \<Rightarrow> u64) \<Rightarrow> name \<Rightarrow> 32 word \<Rightarrow> u64" where
  "nonceHash hash name nonce = hash name + ucast nonce"

definition dnlFind :: "(name \<Rightarrow> u64) \<Rightarrow> name \<Rightarrow> 32 word \<Rightarrow> DeadNonceList \<Rightarrow> bool" where
  "dnlFind hash name nonce d \<longleftrightarrow> map_of (dnl_list d) (nonceHash hash name nonce) \<noteq> None"

definition dnlInsert ::
  "(name \<Rightarrow> u64) \<Rightarrow> duration \<Rightarrow> gotime \<Rightarrow> name \<Rightarrow> 32 word \<Rightarrow> DeadNonceList \<Rightarrow> DeadNonceList \<times> bool" where
  "dnlInsert hash lifetime now name nonce d =
    (let h = nonceHash hash name nonce;
         exists = (map_of (dnl_list d) h \<noteq> None)
     in (if \<not> exists
         then d\<lparr>dnl_list := gm_put h True (dnl_list d),
                dnl_expirationQueue := pqPush h (now + lifetime) (dnl_expirationQueue d)\<rparr>
         else d, exists))"

function removeExpired :: "(nat \<Rightarrow> gotime) \<Rightarrow> nat \<Rightarrow> DeadNonceList \<Rightarrow> DeadNonceList" where
  "removeExpired clock evicted d =
    (case (pqPeekPriority (dnl_expirationQueue d), pqPop (dnl_expirationQueue d)) of
       (Some p, Some (h, q)) \<Rightarrow>
         if p < clock evicted then
           let d' = d\<lparr>dnl_expirationQueue := q, dnl_list := gm_del h (dnl_list d)\<rparr>;
               evicted' = evicted + 1
           in if evicted' \<ge> 100 then d' else removeExpired clock evicted' d'
         else d
     | _ \<Rightarrow> d)"
  by pat_completeness auto
termination by (relation "measure (\<lambda>(_, evicted, _). 100 - evicted)") auto

definition RemoveExpiredEntries :: "(nat \<Rightarrow> gotime) \<Rightarrow> DeadNonceList \<Rightarrow> DeadNonceList" where
  "RemoveExpiredEntries clock d = removeExpired clock 0 d"

subsection \<open>The list and the queue agree\<close>

text \<open>\<open>deadNonces d\<close>: the hashes on the list with their expiry times, as the queue stores them.\<close>

definition deadNonces :: "DeadNonceList \<Rightarrow> (u64 \<times> int) multiset" where
  "deadNonces d = pqItems (dnl_expirationQueue d)"

definition dnl_inv :: "DeadNonceList \<Rightarrow> bool" where
  "dnl_inv d \<longleftrightarrow> gm_ok (dnl_list d) \<and> pqOk (dnl_expirationQueue d)
     \<and> image_mset fst (deadNonces d) = mset (map fst (dnl_list d))"

lemma dnl_inv_new: "dnl_inv NewDeadNonceList" "deadNonces NewDeadNonceList = {#}"
  using pq.invar_new pq.items_new by (simp_all add: dnl_inv_def deadNonces_def NewDeadNonceList_def)

lemma find_deadNonces: "dnl_inv d \<Longrightarrow> dnlFind hash name nonce d \<longleftrightarrow> nonceHash hash name nonce \<in> fst ` set_mset (deadNonces d)"
proof -
  assume "dnl_inv d"
  then have "set_mset (image_mset fst (deadNonces d)) = fst ` set (dnl_list d)"
    unfolding dnl_inv_def by (metis set_mset_mset list.set_map)
  then show ?thesis by (simp add: dnlFind_def map_of_eq_None_iff)
qed

lemma mset_keys_put: "map_of m k = None \<Longrightarrow> mset (map fst (gm_put k v m)) = add_mset k (mset (map fst m))"
  unfolding gm_put_def by (induction m) auto

lemma mset_keys_del: "gm_ok m \<Longrightarrow> mset (map fst (gm_del k m)) = mset (map fst m) - {#k#}"
proof -
  assume "gm_ok m"
  then have "distinct (map fst m)" by (simp add: gm_ok_def)
  then show ?thesis
    by (simp add: gm_del_def AList.delete_keys distinct_remove1_removeAll [symmetric])
qed

lemma dnl_insert:
  assumes "dnl_inv d" "dnlInsert hash lifetime now name nonce d = (d', b)"
  shows "dnl_inv d'" "b \<longleftrightarrow> dnlFind hash name nonce d"
    "deadNonces d' = (if b then deadNonces d else add_mset (nonceHash hash name nonce, now + lifetime) (deadNonces d))"
  using assms pq.invar_push [of "dnl_expirationQueue d"] pq.items_push [of "dnl_expirationQueue d"]
    mset_keys_put [of "dnl_list d" "nonceHash hash name nonce" True]
  by (auto simp: dnlInsert_def dnlFind_def dnl_inv_def deadNonces_def Let_def split: if_splits)

declare removeExpired.simps [simp del]

text \<open>The loop is the expiry loop of the queue, with a deletion from the list per popped hash.\<close>

lemma removeExpired_popDue:
  assumes "evicted < 100"
  shows "removeExpired clock evicted d =
    (let (vs, q) = pq.popDue (\<lambda>i p. p < clock i) evicted (100 - evicted) (dnl_expirationQueue d)
     in d\<lparr>dnl_list := fold (\<lambda>x. gm_del (fst x)) vs (dnl_list d), dnl_expirationQueue := q\<rparr>)"
  using assms
proof (induction "100 - evicted" arbitrary: evicted d)
  case (Suc n)
  have n: "100 - evicted = Suc n" "n = 100 - Suc evicted" using Suc.hyps(2) by simp_all
  show ?case
  proof (cases "Suc evicted < 100")
    case True
    then show ?thesis
      using Suc.hyps(1) [of "Suc evicted"] n(2)
      unfolding n(1) removeExpired.simps [of clock evicted d]
      by (auto simp: Let_def split: option.split prod.split)
  next
    case False
    then have "n = 0" using n by simp
    then show ?thesis
      using False unfolding n(1) removeExpired.simps [of clock evicted d]
      by (auto simp: Let_def split: option.split prod.split)
  qed
qed simp

lemma fold_del_keys:
  "gm_ok m \<Longrightarrow> gm_ok (fold (\<lambda>x. gm_del (fst x)) vs m)
    \<and> (mset (map fst vs) \<subseteq># mset (map fst m) \<longrightarrow>
       mset (map fst (fold (\<lambda>x. gm_del (fst x)) vs m)) = mset (map fst m) - mset (map fst vs))"
proof (induction vs arbitrary: m)
  case (Cons x vs)
  have "mset (map fst vs) \<subseteq># mset (map fst m) - {#fst x#}" if "mset (map fst (x # vs)) \<subseteq># mset (map fst m)"
    using that by (metis insert_subset_eq_iff list.simps(9) mset.simps(2))
  then show ?case
    using Cons.IH [of "gm_del (fst x) m"] Cons.prems mset_keys_del [of m "fst x"] by (auto simp: gm_intros)
qed simp

subsection \<open>Properties\<close>

text \<open>
  (C35) Expiry of dead nonces.  One call of \<open>RemoveExpiredEntries\<close> removes at most 100 entries, although
  the comment of the function promises to remove all expired ones.  Each removed entry is expired at the
  clock reading of its iteration, and none expires later than an entry that stays; when fewer than 100
  are removed, no entry that stays was expired at the last reading; and the list still holds exactly
  the entries of the queue.
\<close>

theorem dead_nonce_expiry:
  fixes d :: DeadNonceList and clock :: "nat \<Rightarrow> gotime"
  assumes inv: "dnl_inv d"
  defines "d' \<equiv> RemoveExpiredEntries clock d"
  shows "dnl_inv d' \<and> (\<exists>vs. deadNonces d = mset vs + deadNonces d' \<and> length vs \<le> 100
     \<and> (\<forall>i < length vs. snd (vs ! i) < clock i)
     \<and> (\<forall>x \<in> set vs. \<forall>y \<in># deadNonces d'. snd x \<le> snd y)
     \<and> (length vs < 100 \<longrightarrow> (\<forall>y \<in># deadNonces d'. clock (length vs) \<le> snd y)))"
proof -
  let ?q = "dnl_expirationQueue d"
  obtain vs q where r: "pq.popDue (\<lambda>i p. p < clock i) 0 100 ?q = (vs, q)" by fastforce
  have d': "d' = d\<lparr>dnl_list := fold (\<lambda>x. gm_del (fst x)) vs (dnl_list d), dnl_expirationQueue := q\<rparr>"
    using removeExpired_popDue [of 0 clock d] by (simp add: d'_def RemoveExpiredEntries_def r)
  have ok: "pqOk ?q" using inv by (simp add: dnl_inv_def)
  have spec: "pq.popDue_ok (\<lambda>i p. p < clock i) 0 100 ?q (vs, q)"
    using pq.popDue_spec [OF ok, of "\<lambda>i p. p < clock i" 0 100] by (simp add: r)
  then have items: "deadNonces d = mset vs + deadNonces d'" and q: "pqOk q"
    by (simp_all add: pq.popDue_ok_def deadNonces_def d')
  have keys: "mset (map fst (dnl_list d)) = mset (map fst vs) + image_mset fst (deadNonces d')"
    using inv items by (simp add: dnl_inv_def)
  have "dnl_inv d'"
    using inv fold_del_keys [of "dnl_list d" vs] q keys by (simp add: dnl_inv_def d' deadNonces_def)
  moreover have "clock (length vs) \<le> snd y" if few: "length vs < 100" and y: "y \<in># deadNonces d'" for y
  proof -
    have "q \<noteq> []" using y by (auto simp: deadNonces_def d' pqItems_def)
    then obtain v q' where "pqPop q = Some (v, q')" using pqPop_cases [OF q] by blast
    then obtain p where "pqPeekPriority q = Some p" "p \<le> snd y"
      using pq.pop_some [OF q] y by (fastforce simp: deadNonces_def d')
    then show ?thesis using spec few by (fastforce simp: pq.popDue_ok_def)
  qed
  ultimately show ?thesis
    using spec items by (intro conjI exI [of _ vs]) (auto simp: pq.popDue_ok_def deadNonces_def d')
qed

theorem dead_nonce_expiry_witness:
  "deadNonces (RemoveExpiredEntries (\<lambda>i. 50) (fst (dnlInsert (\<lambda>_. 4) 10 20 [] 7 NewDeadNonceList))) = {#}"
proof -
  let ?d = "fst (dnlInsert (\<lambda>_. 4) 10 20 [] 7 NewDeadNonceList)"
  have "dnlInsert (\<lambda>_. 4) 10 20 [] 7 NewDeadNonceList = (?d, False)"
    by (simp add: dnlInsert_def NewDeadNonceList_def Let_def)
  note ins = dnl_insert [OF dnl_inv_new(1) this]
  have dn: "deadNonces ?d = {#(nonceHash (\<lambda>_. 4) [] 7, 30)#}" using ins(3) by (simp add: dnl_inv_new)
  obtain vs where vs: "deadNonces ?d = mset vs + deadNonces (RemoveExpiredEntries (\<lambda>i. 50) ?d)"
    "length vs < 100 \<longrightarrow> (\<forall>y \<in># deadNonces (RemoveExpiredEntries (\<lambda>i. 50) ?d). 50 \<le> snd y)"
    using dead_nonce_expiry [OF ins(1), of "\<lambda>i. 50"] by blast
  define R where "R = deadNonces (RemoveExpiredEntries (\<lambda>i. 50) ?d)"
  have "{#(nonceHash (\<lambda>_. 4) [] 7, 30)#} = mset vs + R" "length vs < 100 \<longrightarrow> (\<forall>y \<in># R. 50 \<le> snd y)"
    using vs unfolding dn R_def [symmetric] by simp_all
  then have "R = {#}" by (cases vs) (auto dest!: sym [of "{#_#}"])
  then show ?thesis by (simp add: R_def)
qed

end
