(* ===== verification/Fw_Types.thy ===== *)
theory Fw_Types
  imports Dead_Nonce_List Data_Packet
begin

text \<open>
  Packets, faces and pending Interests of the forwarder (\<open>fw/defn\<close>, \<open>fw/dispatch/face.go\<close>,
  \<open>fw/table/pit-cs.go\<close>) and the outgoing pipelines of a forwarding thread (\<open>fw/fw/thread.go\<close>,
  \<open>fw/fw/strategy.go\<close>).  The packet struct is split by what it carries, an Interest or a Data, so the
  panics of the pipelines on the other kind have no counterpart.  A PIT entry is a reference into
  the thread's store of entries.  The wire of a Data packet is represented by what decoding it
  gives: nothing, or its content.  An event reads the clock once (\<open>now\<close>).
\<close>

type_synonym faceId = u64
type_synonym u32 = "32 word"

subsection \<open>Faces\<close>

datatype Scope = UnknownScope | NonLocal | LocalScope

datatype LinkType = PointToPoint | MultiAccess | AdHoc

record fwFace =
  ff_Scope :: Scope
  ff_LinkType :: LinkType
  ff_SendQueueSize :: u64
  ff_LinkSendQueueLen :: u64
  ff_LinkBacklogPackets :: u64

type_synonym FaceDispatch = "(faceId, fwFace) gomap"

definition GetFace :: "FaceDispatch \<Rightarrow> faceId \<Rightarrow> fwFace option" where
  "GetFace faces fid = map_of faces fid"

record FibNextHopEntry =
  nh_Nexthop :: faceId
  nh_Cost :: u64

subsection \<open>Packets\<close>

record FwInterest =
  fi_NameV :: name
  fi_CanBePrefixV :: bool
  fi_MustBeFreshV :: bool
  fi_ForwardingHintV :: "name list"
  fi_NonceV :: "u32 option"
  fi_LifetimeV :: "duration option"
  fi_HopLimitV :: "8 word option"

record FwData =
  fd_NameV :: name
  fd_FreshnessPeriod :: "duration option"

text \<open>The content of a decodable Data packet: a data transmission packet, or any other bytes.\<close>

datatype content = DtContent float64 float64 "u64 list" | BytesContent string

record InterestPkt =
  ip_Name :: name
  ip_Interest :: FwInterest
  ip_PitToken :: string
  ip_IncomingFaceID :: faceId
  ip_NextHopFaceID :: "faceId option"
  ip_NackReason :: "u64 option"

record DataPkt =
  dk_Name :: name
  dk_Data :: FwData
  dk_Raw :: "content option"
  dk_PitToken :: string
  dk_IncomingFaceID :: faceId

datatype outBody = OutInterest InterestPkt | OutData DataPkt

record OutPkt =
  op_Face :: faceId
  op_Pkt :: outBody
  op_PitToken :: string
  op_InFace :: faceId

definition LOCALHOST :: component where
  "LOCALHOST = newStringComponent TypeGenericNameComponent ''localhost''"

definition LOCALHOP :: component where
  "LOCALHOP = newStringComponent TypeGenericNameComponent ''localhop''"

text \<open>\<open>Lifetime().GetOr\<close> and \<open>NonceV.Unwrap\<close>; Interests without a nonce are dropped on arrival.\<close>

definition interestLifetime :: "FwInterest \<Rightarrow> duration" where
  "interestLifetime interest = (case fi_LifetimeV interest of Some l \<Rightarrow> l | None \<Rightarrow> 4000 * millisecond)"

definition interestNonce :: "FwInterest \<Rightarrow> u32" where
  "interestNonce interest = (case fi_NonceV interest of Some n \<Rightarrow> n | None \<Rightarrow> 0)"

subsection \<open>PIT entries\<close>

record PitInRecord =
  ir_Face :: faceId
  ir_LatestTimestamp :: gotime
  ir_LatestNonce :: u32
  ir_ExpirationTime :: gotime
  ir_PitToken :: string

record PitOutRecord =
  or_Face :: faceId
  or_LatestTimestamp :: gotime
  or_LatestNonce :: u32
  or_ExpirationTime :: gotime

record basePitEntry =
  pe_encname :: "name option"
  pe_canBePrefix :: bool
  pe_mustBeFresh :: bool
  pe_forwardingHint :: "name option"
  pe_inRecords :: "(faceId, PitInRecord) gomap"
  pe_outRecords :: "(faceId, PitOutRecord) gomap"
  pe_expirationTime :: gotime
  pe_satisfied :: bool
  pe_token :: u32

definition emptyPitEntry :: basePitEntry where
  "emptyPitEntry = \<lparr>pe_encname = None, pe_canBePrefix = False, pe_mustBeFresh = False, pe_forwardingHint = None,
     pe_inRecords = [], pe_outRecords = [], pe_expirationTime = 0, pe_satisfied = False, pe_token = 0\<rparr>"

definition InsertInRecord ::
  "gotime \<Rightarrow> FwInterest \<Rightarrow> faceId \<Rightarrow> string \<Rightarrow> basePitEntry \<Rightarrow> basePitEntry \<times> PitInRecord \<times> bool \<times> u32" where
  "InsertInRecord now interest face incomingPitToken e =
    (let lifetime = interestLifetime interest
     in case map_of (pe_inRecords e) face of
          None \<Rightarrow>
            let r = \<lparr>ir_Face = face, ir_LatestTimestamp = now, ir_LatestNonce = interestNonce interest,
                     ir_ExpirationTime = now + lifetime, ir_PitToken = incomingPitToken\<rparr>
            in (e\<lparr>pe_inRecords := gm_put face r (pe_inRecords e)\<rparr>, r, False, 0)
        | Some old \<Rightarrow>
            let r = old\<lparr>ir_LatestNonce := interestNonce interest, ir_LatestTimestamp := now,
                     ir_ExpirationTime := now + lifetime\<rparr>
            in (e\<lparr>pe_inRecords := gm_put face r (pe_inRecords e)\<rparr>, r, True, ir_LatestNonce old))"

definition InsertOutRecord :: "gotime \<Rightarrow> FwInterest \<Rightarrow> faceId \<Rightarrow> basePitEntry \<Rightarrow> basePitEntry" where
  "InsertOutRecord now interest face e =
    (let r = (case map_of (pe_outRecords e) face of
                None \<Rightarrow> \<lparr>or_Face = face, or_LatestTimestamp = now, or_LatestNonce = interestNonce interest,
                         or_ExpirationTime = now + interestLifetime interest\<rparr>
              | Some old \<Rightarrow> old\<lparr>or_LatestNonce := interestNonce interest, or_LatestTimestamp := now,
                         or_ExpirationTime := now + interestLifetime interest\<rparr>)
     in e\<lparr>pe_outRecords := gm_put face r (pe_outRecords e)\<rparr>)"

definition RemoveInRecord :: "faceId \<Rightarrow> basePitEntry \<Rightarrow> basePitEntry" where
  "RemoveInRecord face e = e\<lparr>pe_inRecords := gm_del face (pe_inRecords e)\<rparr>"

definition RemoveOutRecord :: "faceId \<Rightarrow> basePitEntry \<Rightarrow> basePitEntry" where
  "RemoveOutRecord face e = e\<lparr>pe_outRecords := gm_del face (pe_outRecords e)\<rparr>"

definition ClearInRecords :: "basePitEntry \<Rightarrow> basePitEntry" where
  "ClearInRecords e = e\<lparr>pe_inRecords := []\<rparr>"

definition ClearOutRecords :: "basePitEntry \<Rightarrow> basePitEntry" where
  "ClearOutRecords e = e\<lparr>pe_outRecords := []\<rparr>"

subsection \<open>Outgoing pipelines\<close>

text \<open>
  The part of a forwarding thread that the pipelines change: the store of PIT entries, what was
  handed to the faces, and the counters.
\<close>

record fwThread =
  ft_threadID :: int
  ft_entries :: "(nat, basePitEntry) gomap"
  ft_out :: "OutPkt list"
  ft_nInInterests :: u64
  ft_nInData :: u64
  ft_nOutInterests :: u64
  ft_nOutData :: u64
  ft_nInNacks :: u64
  ft_nOutNacks :: u64
  ft_nSatisfiedInterests :: u64
  ft_nUnsatisfiedInterests :: u64
  ft_nCsHits :: u64
  ft_nCsMisses :: u64

definition newFwThread :: "int \<Rightarrow> fwThread" where
  "newFwThread i = \<lparr>ft_threadID = i, ft_entries = [], ft_out = [], ft_nInInterests = 0, ft_nInData = 0,
     ft_nOutInterests = 0, ft_nOutData = 0, ft_nInNacks = 0, ft_nOutNacks = 0, ft_nSatisfiedInterests = 0,
     ft_nUnsatisfiedInterests = 0, ft_nCsHits = 0, ft_nCsMisses = 0\<rparr>"

definition pitEntryOf :: "fwThread \<Rightarrow> nat \<Rightarrow> basePitEntry" where
  "pitEntryOf t pe = gm_get0 emptyPitEntry (ft_entries t) pe"

definition onPitEntry :: "(basePitEntry \<Rightarrow> basePitEntry) \<Rightarrow> nat \<Rightarrow> fwThread \<Rightarrow> fwThread" where
  "onPitEntry f pe t = t\<lparr>ft_entries := gm_put pe (f (pitEntryOf t pe)) (ft_entries t)\<rparr>"

definition sendPacket :: "faceId \<Rightarrow> outBody \<Rightarrow> string \<Rightarrow> faceId \<Rightarrow> fwThread \<Rightarrow> fwThread" where
  "sendPacket face body pitToken inFace t =
    t\<lparr>ft_out := ft_out t @ [\<lparr>op_Face = face, op_Pkt = body, op_PitToken = pitToken, op_InFace = inFace\<rparr>]\<rparr>"

text \<open>Thread number and entry token, big-endian.\<close>

definition makePitToken :: "int \<Rightarrow> u32 \<Rightarrow> string" where
  "makePitToken threadID token = beBytes 2 (nat (threadID mod 2 ^ 16)) @ beBytes 4 (unat token)"

definition isLocalhostName :: "name \<Rightarrow> bool" where
  "isLocalhostName n \<longleftrightarrow> (case n of [] \<Rightarrow> False | c # _ \<Rightarrow> c = LOCALHOST)"

definition processOutgoingInterest ::
  "FaceDispatch \<Rightarrow> gotime \<Rightarrow> InterestPkt \<Rightarrow> nat \<Rightarrow> faceId \<Rightarrow> faceId \<Rightarrow> fwThread \<Rightarrow> fwThread \<times> bool" where
  "processOutgoingInterest faces now packet pe nexthop inFace t =
    (case GetFace faces nexthop of
       None \<Rightarrow> (t, False)
     | Some outgoingFace \<Rightarrow>
         if nexthop = inFace \<and> ff_LinkType outgoingFace \<noteq> AdHoc then (t, True)
         else if fi_HopLimitV (ip_Interest packet) = Some 0 \<and> ff_Scope outgoingFace = NonLocal then (t, False)
         else
           let t1 = onPitEntry (InsertOutRecord now (ip_Interest packet) nexthop) pe t;
               t2 = t1\<lparr>ft_nOutInterests := ft_nOutInterests t1 + 1\<rparr>;
               pitToken = makePitToken (ft_threadID t2) (pe_token (pitEntryOf t2 pe))
           in (sendPacket nexthop (OutInterest packet) pitToken inFace t2, True))"

definition processOutgoingData ::
  "FaceDispatch \<Rightarrow> DataPkt \<Rightarrow> faceId \<Rightarrow> string \<Rightarrow> faceId \<Rightarrow> fwThread \<Rightarrow> fwThread" where
  "processOutgoingData faces packet nexthop pitToken inFace t =
    (case GetFace faces nexthop of
       None \<Rightarrow> t
     | Some outgoingFace \<Rightarrow>
         if ff_Scope outgoingFace = NonLocal \<and> isLocalhostName (dk_Name packet) then t
         else sendPacket nexthop (OutData packet) pitToken inFace
                (t\<lparr>ft_nOutData := ft_nOutData t + 1, ft_nSatisfiedInterests := ft_nSatisfiedInterests t + 1\<rparr>))"

definition processOutgoingNack ::
  "FaceDispatch \<Rightarrow> InterestPkt \<Rightarrow> nat \<Rightarrow> faceId \<Rightarrow> faceId \<Rightarrow> u64 \<Rightarrow> fwThread \<Rightarrow> fwThread \<times> bool" where
  "processOutgoingNack faces packet pe nexthop inFace reason t =
    (case GetFace faces nexthop of
       None \<Rightarrow> (t, False)
     | Some outgoingFace \<Rightarrow>
         if ff_Scope outgoingFace = NonLocal \<and> isLocalhostName (ip_Name packet) then (t, False)
         else
           let t1 = t\<lparr>ft_nOutNacks := ft_nOutNacks t + 1\<rparr>;
               pitToken = (case map_of (pe_inRecords (pitEntryOf t1 pe)) nexthop of
                             Some r \<Rightarrow> if length (ir_PitToken r) > 0 then ir_PitToken r
                                      else makePitToken (ft_threadID t1) (pe_token (pitEntryOf t1 pe))
                           | None \<Rightarrow> makePitToken (ft_threadID t1) (pe_token (pitEntryOf t1 pe)))
           in (sendPacket nexthop (OutInterest (packet\<lparr>ip_NackReason := Some reason\<rparr>)) pitToken inFace t1, True))"

subsection \<open>What a strategy may send\<close>

definition SendInterest ::
  "FaceDispatch \<Rightarrow> gotime \<Rightarrow> InterestPkt \<Rightarrow> nat \<Rightarrow> faceId \<Rightarrow> faceId \<Rightarrow> fwThread \<Rightarrow> fwThread \<times> bool" where
  "SendInterest faces now packet pe nexthop inFace t = processOutgoingInterest faces now packet pe nexthop inFace t"

definition SendData :: "FaceDispatch \<Rightarrow> DataPkt \<Rightarrow> nat \<Rightarrow> faceId \<Rightarrow> faceId \<Rightarrow> fwThread \<Rightarrow> fwThread" where
  "SendData faces packet pe nexthop inFace t =
    (case map_of (pe_inRecords (pitEntryOf t pe)) nexthop of
       Some r \<Rightarrow> processOutgoingData faces packet nexthop (ir_PitToken r) inFace (onPitEntry (RemoveInRecord nexthop) pe t)
     | None \<Rightarrow> processOutgoingData faces packet nexthop [] inFace t)"

definition SendNack ::
  "FaceDispatch \<Rightarrow> InterestPkt \<Rightarrow> nat \<Rightarrow> faceId \<Rightarrow> faceId \<Rightarrow> u64 \<Rightarrow> fwThread \<Rightarrow> fwThread \<times> bool" where
  "SendNack faces packet pe nexthop inFace reason t = processOutgoingNack faces packet pe nexthop inFace reason t"

text \<open>
  Every strategy ends a Data packet by sending it to all in-records, and a Nack by sending it to all
  in-records except the ingress.  The faces are those recorded when the loop starts.
\<close>

definition inFaces :: "fwThread \<Rightarrow> nat \<Rightarrow> faceId list" where
  "inFaces t pe = map fst (pe_inRecords (pitEntryOf t pe))"

definition sendDataToAll :: "FaceDispatch \<Rightarrow> DataPkt \<Rightarrow> nat \<Rightarrow> faceId \<Rightarrow> fwThread \<Rightarrow> fwThread" where
  "sendDataToAll faces packet pe inFace t = foldl (\<lambda>t f. SendData faces packet pe f inFace t) t (inFaces t pe)"

definition sendNackToAll :: "FaceDispatch \<Rightarrow> InterestPkt \<Rightarrow> nat \<Rightarrow> faceId \<Rightarrow> u64 \<Rightarrow> fwThread \<Rightarrow> fwThread" where
  "sendNackToAll faces packet pe inFace reason t =
    foldl (\<lambda>t f. if f \<noteq> inFace then fst (SendNack faces packet pe f inFace reason t) else t) t (inFaces t pe)"

subsection \<open>What the pipelines send\<close>

lemma send_frames [simp]:
  "ft_entries (sendPacket f b tok i t) = ft_entries t" "ft_out (onPitEntry g pe t) = ft_out t"
  "ft_threadID (sendPacket f b tok i t) = ft_threadID t" "ft_threadID (onPitEntry g pe t) = ft_threadID t"
  by (simp_all add: sendPacket_def onPitEntry_def)

lemma pitEntryOf_sendPacket [simp]: "pitEntryOf (sendPacket f b tok i t) pe = pitEntryOf t pe"
  by (simp add: pitEntryOf_def)

lemma pitEntryOf_onPitEntry [simp]:
  "pitEntryOf (onPitEntry g pe t) pe' = (if pe' = pe then g (pitEntryOf t pe) else pitEntryOf t pe')"
  by (simp add: pitEntryOf_def onPitEntry_def)

lemma ft_out_sendPacket [simp]:
  "ft_out (sendPacket f b tok i t) = ft_out t @ [\<lparr>op_Face = f, op_Pkt = b, op_PitToken = tok, op_InFace = i\<rparr>]"
  by (simp add: sendPacket_def)

definition dataAllowed :: "FaceDispatch \<Rightarrow> name \<Rightarrow> faceId \<Rightarrow> bool" where
  "dataAllowed faces n f \<longleftrightarrow> (case GetFace faces f of None \<Rightarrow> False | Some face \<Rightarrow> \<not> (ff_Scope face = NonLocal \<and> isLocalhostName n))"

lemma processOutgoingData_effect:
  "ft_out (processOutgoingData faces packet f tok i t) = ft_out t @
     (if dataAllowed faces (dk_Name packet) f then [\<lparr>op_Face = f, op_Pkt = OutData packet, op_PitToken = tok, op_InFace = i\<rparr>] else [])"
  "ft_entries (processOutgoingData faces packet f tok i t) = ft_entries t"
  by (auto simp: processOutgoingData_def dataAllowed_def split: option.split)

lemma SendData_effect:
  assumes "map_of (pe_inRecords (pitEntryOf t pe)) f = Some r"
  shows "ft_out (SendData faces packet pe f i t) = ft_out t @
      (if dataAllowed faces (dk_Name packet) f then [\<lparr>op_Face = f, op_Pkt = OutData packet, op_PitToken = ir_PitToken r, op_InFace = i\<rparr>] else [])"
    "pitEntryOf (SendData faces packet pe f i t) pe = RemoveInRecord f (pitEntryOf t pe)"
  using assms by (simp_all add: SendData_def processOutgoingData_effect pitEntryOf_def [of "processOutgoingData _ _ _ _ _ _"])
    (simp add: pitEntryOf_def [symmetric])

end
