(* ===== verification/Mp_Types.thy ===== *)
theory Mp_Types
  imports Fw_Types
begin

text \<open>
  Constants, parameters, data types and pure helpers of the multipath forwarding strategy
  (\<open>fw/fw/multipath.go\<close>), the forwarder's half of the system.  A face is its 64-bit identifier,
  0 meaning no face.  \<open>float64\<close> is modelled by the reals, so the guards against NaN and infinities have no counterpart.  The number of
  forwarding threads is an argument.  The mutexes and the CSV sink of the control state are left out.
\<close>

subsection \<open>Constants\<close>

record DtRateControlParams =
  rp_MaxFwdQueueSize :: float64
  rp_FwdQueueAlpha :: float64
  rp_FwdQueueBeta :: float64
  rp_FwdMDFactor :: float64
  rp_FwdRPFactor :: float64
  rp_FwdGDFactor :: float64
  rp_FwdCIFactor :: float64
  rp_FwdSlopeThreshold :: float64
  rp_MaxBWSafetyRatio :: float64
  rp_MinBWSafetyRatio :: float64
  rp_FwdMinRate :: float64
  rp_FwdMaxRate :: float64

definition dtRateControlParams :: DtRateControlParams where
  "dtRateControlParams = \<lparr>rp_MaxFwdQueueSize = 1, rp_FwdQueueAlpha = 5 / 10, rp_FwdQueueBeta = 8 / 10,
     rp_FwdMDFactor = 9 / 10, rp_FwdRPFactor = 105 / 100, rp_FwdGDFactor = 95 / 100,
     rp_FwdCIFactor = 102 / 100, rp_FwdSlopeThreshold = 1 / 10, rp_MaxBWSafetyRatio = 13 / 10,
     rp_MinBWSafetyRatio = 5 / 10, rp_FwdMinRate = 1, rp_FwdMaxRate = 0\<rparr>"

definition multipathFallbackSuppressionTime :: duration where "multipathFallbackSuppressionTime = 20 * millisecond"
definition dtBaseThroughputWindow :: duration where "dtBaseThroughputWindow = 20 * millisecond"
definition dtMinThroughputWindow :: duration where "dtMinThroughputWindow = 1 * millisecond"
definition dtMaxExpectedPps :: float64 where "dtMaxExpectedPps = 100000"
definition dtWindowSafetyFactor :: float64 where "dtWindowSafetyFactor = 2"
definition dtSlopeTauRatio :: float64 where "dtSlopeTauRatio = 1 / 3"
definition dtUseStaticControlPeriod :: bool where "dtUseStaticControlPeriod = True"
definition dtStaticControlPeriod :: duration where "dtStaticControlPeriod = 20 * millisecond"
definition dtUseQsfBiasRemoval :: bool where "dtUseQsfBiasRemoval = False"
definition dtControlRttInitSamples :: int where "dtControlRttInitSamples = 10"
definition dtControlPeriodRttScale :: float64 where "dtControlPeriodRttScale = 1"
definition dtControlPeriodMin :: duration where "dtControlPeriodMin = 10 * millisecond"
definition dtControlPeriodMax :: duration where "dtControlPeriodMax = 30 * millisecond"
definition dtPartialBootstrapProbeEvery :: int where "dtPartialBootstrapProbeEvery = 8"
definition dtSchedulerDebugEveryTicks :: u64 where "dtSchedulerDebugEveryTicks = 200"
definition dtSchedulerMaxFacesPerTick :: nat where "dtSchedulerMaxFacesPerTick = 16"
definition dtSchedulerMaxSendPerTick :: int where "dtSchedulerMaxSendPerTick = 64"
definition dtThreadQuotaCapPackets :: int where "dtThreadQuotaCapPackets = 512"
definition dtThreadActiveBaseWeight :: float64 where "dtThreadActiveBaseWeight = 1"
definition dtThreadQuotaCarryCapPackets :: float64 where "dtThreadQuotaCarryCapPackets = 1"
definition dtLivenessForcedPacketsPerStarvedRound :: int where "dtLivenessForcedPacketsPerStarvedRound = 2"
definition dtLivenessForcedPacketsMax :: int where "dtLivenessForcedPacketsMax = 32"
definition referenceDtFaceInitRatePps :: float64 where "referenceDtFaceInitRatePps = 500"
definition referenceDtPacketBytes :: float64 where "referenceDtPacketBytes = 16 + (750 * 8)"
definition targetDtFaceInitMbps :: float64 where
  "targetDtFaceInitMbps = (referenceDtFaceInitRatePps * referenceDtPacketBytes * 8) / 1000000"
definition dtFaceTokenBurstCapPackets :: float64 where "dtFaceTokenBurstCapPackets = 64"
definition dtRetainedBudgetCapPackets :: float64 where "dtRetainedBudgetCapPackets = 1"
definition dtBandwidthNoSampleWarnInterval :: duration where "dtBandwidthNoSampleWarnInterval = 500 * millisecond"
definition dtInterestQueueCapacityPackets :: float64 where "dtInterestQueueCapacityPackets = 20"
definition dtQsfSampleLimit :: nat where "dtQsfSampleLimit = 3"
definition dtBwSampleMin :: nat where "dtBwSampleMin = 2"
definition dtBwObsLimit :: nat where "dtBwObsLimit = 3"
definition dtBwAlphaUp :: float64 where "dtBwAlphaUp = 25 / 100"
definition dtBwAlphaDown :: float64 where "dtBwAlphaDown = 25 / 100"
definition dtBwAlphaSmall :: float64 where "dtBwAlphaSmall = 10 / 100"
definition dtQdiscQueueCapacityPackets :: float64 where "dtQdiscQueueCapacityPackets = 1000"
definition strategyTickInterval :: duration where "strategyTickInterval = 2 * millisecond"

datatype DtRateControlAction =
    DtActionNone
  | DtActionEmergencyDecrease
  | DtActionHoldDraining
  | DtActionGentleDecrease
  | DtActionCautiousIncrease
  | DtActionAggressiveProbe
  | DtActionBWCapped
  | DtActionBWBoosted
  | DtActionGlobalMinCapped
  | DtActionGlobalMaxCapped

text \<open>\<open>DtActionNone\<close> is the zero value of the type, which no constant names.\<close>

subsection \<open>Units and queue signals\<close>

definition dtDataPacketSizeBytes :: int where
  "dtDataPacketSizeBytes = (if int (getSize newDataPacket) > 0 then int (getSize newDataPacket) else 0)"

definition dtPacketBytes :: int where
  "dtPacketBytes = (if dtDataPacketSizeBytes \<le> 0 then int (getSize newDataPacket) else dtDataPacketSizeBytes)"

definition dtRatePpsToMbps :: "float64 \<Rightarrow> float64" where
  "dtRatePpsToMbps ratePps =
    (if ratePps \<le> 0 then 0 else if dtPacketBytes \<le> 0 then 0 else (ratePps * of_int dtPacketBytes * 8) / 1000000)"

definition dtRateMbpsToPps :: "float64 \<Rightarrow> float64" where
  "dtRateMbpsToPps rateMbps =
    (if rateMbps \<le> 0 then 0 else if dtPacketBytes \<le> 0 then 0 else (rateMbps * 1000000) / (of_int dtPacketBytes * 8))"

definition dtFaceInitRate :: float64 where
  "dtFaceInitRate = max 1 (dtRateMbpsToPps targetDtFaceInitMbps)"

definition dtThroughputWindowDur :: duration where
  "dtThroughputWindowDur = (if dtBaseThroughputWindow < dtMinThroughputWindow then dtMinThroughputWindow else dtBaseThroughputWindow)"

definition dtMaxSamplesPerFace :: nat where
  "dtMaxSamplesPerFace =
    (let n = go_trunc (dtMaxExpectedPps * seconds dtThroughputWindowDur * dtWindowSafetyFactor)
     in if n < 1 then 1 else nat n)"

definition dtSendLimitReason :: "float64 \<Rightarrow> float64 \<Rightarrow> int \<Rightarrow> string" where
  "dtSendLimitReason ratePps measuredPps pending =
    (let gap = ratePps - measuredPps; tolerance = max 1 (ratePps * (1 / 10))
     in if gap \<le> - tolerance then ''send-burst''
        else if \<bar>gap\<bar> \<le> tolerance then ''rate-matched''
        else if pending \<le> 0 then ''iq-empty'' else ''scheduler-limited'')"

definition dtFaceBandwidthCapLimit :: "float64 \<Rightarrow> float64" where
  "dtFaceBandwidthCapLimit estimatedPps =
    (if estimatedPps \<le> 0 then 0
     else let maxSafeRate = estimatedPps * rp_MaxBWSafetyRatio dtRateControlParams
          in if maxSafeRate < dtFaceInitRate then dtFaceInitRate else maxSafeRate)"

definition dtFaceBandwidthCapReady :: "bool \<Rightarrow> float64 \<Rightarrow> bool" where
  "dtFaceBandwidthCapReady bootstrapReady estimatedPps \<longleftrightarrow>
    bootstrapReady \<and> dtFaceBandwidthCapLimit estimatedPps > 0"

fun dtRateActionString :: "DtRateControlAction \<Rightarrow> string" where
  "dtRateActionString DtActionEmergencyDecrease = ''emergency-decrease''"
| "dtRateActionString DtActionHoldDraining = ''hold-draining''"
| "dtRateActionString DtActionGentleDecrease = ''gentle-decrease''"
| "dtRateActionString DtActionCautiousIncrease = ''cautious-increase''"
| "dtRateActionString DtActionAggressiveProbe = ''aggressive-probe''"
| "dtRateActionString DtActionBWCapped = ''bw-capped''"
| "dtRateActionString DtActionBWBoosted = ''bw-boosted''"
| "dtRateActionString DtActionGlobalMinCapped = ''global-min-capped''"
| "dtRateActionString DtActionGlobalMaxCapped = ''global-max-capped''"
| "dtRateActionString DtActionNone = ''unknown''"

definition conditionDtDataQsf :: "float64 \<Rightarrow> float64" where
  "conditionDtDataQsf raw = (if raw < 0 then 0 else if raw > 1 then 1 else raw)"

definition normalizeDtQueueSignal :: "float64 \<Rightarrow> float64 \<Rightarrow> float64" where
  "normalizeDtQueueSignal raw capacity =
    (if raw \<le> 0 \<or> capacity \<le> 0 then 0 else conditionDtDataQsf (raw / capacity))"

definition correctedDtQsf :: "float64 \<Rightarrow> float64 \<Rightarrow> float64" where
  "correctedDtQsf raw bias =
    (if \<not> dtUseQsfBiasRemoval then raw else let corrected = raw - bias in if corrected < 0 then 0 else corrected)"

definition dtGlobalInterestQueueCapacityPackets :: "int \<Rightarrow> float64" where
  "dtGlobalInterestQueueCapacityPackets numThreads =
    dtInterestQueueCapacityPackets * of_int (if numThreads < 1 then 1 else numThreads)"

subsection \<open>State\<close>

record hopSnapshot =
  hs_Nexthop :: faceId
  hs_Cost :: u64

record DtUpstreamSample =
  us_Timestamp :: gotime
  us_SizeBytes :: int
  us_InterestQsf :: float64
  us_DataQsf :: float64

record dtRttBootstrapState =
  rb_count :: int
  rb_sum :: duration
  rb_ready :: bool
  rb_period :: duration

record dtPrefixInterestSignal =
  ps_InterestQ :: float64
  ps_InterestSlope :: float64
  ps_DataQ :: float64
  ps_DataSlope :: float64
  ps_SampleCount :: int
  ps_LastUpdated :: gotime

record dtFaceControlState =
  fc_activated :: bool
  fc_rateControlActive :: bool
  fc_bwCapActive :: bool
  fc_period :: duration
  fc_nextRun :: gotime
  fc_rate :: float64
  fc_action :: DtRateControlAction
  fc_tokens :: float64
  fc_lastRefill :: gotime
  fc_dataQsfBias :: float64
  fc_dataQsfBiasReady :: bool
  fc_sentCounter :: u64
  fc_lastRateSampleCount :: u64
  fc_lastRateSampleTime :: gotime
  fc_lastInterestQ :: float64
  fc_lastInterestSlope :: float64
  fc_lastDataQ :: float64
  fc_lastDataSlope :: float64
  fc_lastSignalPrefixes :: int
  fc_lastSignalReady :: bool
  fc_lastRoundReady :: bool
  fc_lastRoundSignalQ :: float64
  fc_lastRoundSignalSlope :: float64
  fc_lastRoundSignalType :: string
  fc_lastRoundInterestQ :: float64
  fc_lastRoundInterestSlope :: float64
  fc_lastRoundDataQ :: float64
  fc_lastRoundDataSlope :: float64
  fc_lastRoundEstimatedBW :: float64
  fc_lastRoundMeasuredBW :: float64
  fc_lastRoundBwSamples :: int
  fc_lastRoundBwRule :: string
  fc_lastRoundMeasuredSendPps :: float64
  fc_lastRoundPrevRate :: float64
  fc_lastRoundNewRate :: float64
  fc_lastRoundAction :: DtRateControlAction
  fc_starvationZeroSendRounds :: u64
  fc_livenessForcedPackets :: int
  fc_demandByThread :: "int list"
  fc_budgetByThread :: "int list"
  fc_carryByThread :: "float64 list"
  fc_roundGrantedByThread :: "u64 list"
  fc_roundUsedByThread :: "u64 list"
  fc_roundZeroBudgetByThread :: "u64 list"
  fc_roundEmptyBudgetByThread :: "u64 list"
  fc_roundSendFailByThread :: "u64 list"
  fc_roundPendingSumByThread :: "u64 list"
  fc_roundPendingMaxByThread :: "int list"
  fc_roundVisitsByThread :: "u64 list"
  fc_roundMintedTokens :: float64
  fc_budgetRR :: nat
  fc_budgetRounds :: u64

definition zeroControl :: dtFaceControlState where
  "zeroControl = \<lparr>fc_activated = False, fc_rateControlActive = False, fc_bwCapActive = False, fc_period = 0,
     fc_nextRun = 0, fc_rate = 0, fc_action = DtActionNone, fc_tokens = 0, fc_lastRefill = 0,
     fc_dataQsfBias = 0, fc_dataQsfBiasReady = False, fc_sentCounter = 0, fc_lastRateSampleCount = 0,
     fc_lastRateSampleTime = 0, fc_lastInterestQ = 0, fc_lastInterestSlope = 0, fc_lastDataQ = 0,
     fc_lastDataSlope = 0, fc_lastSignalPrefixes = 0, fc_lastSignalReady = False, fc_lastRoundReady = False,
     fc_lastRoundSignalQ = 0, fc_lastRoundSignalSlope = 0, fc_lastRoundSignalType = [],
     fc_lastRoundInterestQ = 0, fc_lastRoundInterestSlope = 0, fc_lastRoundDataQ = 0,
     fc_lastRoundDataSlope = 0, fc_lastRoundEstimatedBW = 0, fc_lastRoundMeasuredBW = 0,
     fc_lastRoundBwSamples = 0, fc_lastRoundBwRule = [], fc_lastRoundMeasuredSendPps = 0,
     fc_lastRoundPrevRate = 0, fc_lastRoundNewRate = 0, fc_lastRoundAction = DtActionNone,
     fc_starvationZeroSendRounds = 0, fc_livenessForcedPackets = 0, fc_demandByThread = [],
     fc_budgetByThread = [], fc_carryByThread = [], fc_roundGrantedByThread = [],
     fc_roundUsedByThread = [], fc_roundZeroBudgetByThread = [], fc_roundEmptyBudgetByThread = [],
     fc_roundSendFailByThread = [], fc_roundPendingSumByThread = [], fc_roundPendingMaxByThread = [],
     fc_roundVisitsByThread = [], fc_roundMintedTokens = 0, fc_budgetRR = 0, fc_budgetRounds = 0\<rparr>"

record dtFaceBandwidthState =
  bw_samples :: "gotime list"
  bw_observations :: "float64 list"
  bw_estimatedPps :: float64
  bw_lastUpdated :: gotime
  bw_lastNoSampleWarn :: gotime
  bw_lastUpdateRule :: string
  bw_lastMeasuredPps :: float64
  bw_lastObsTime :: gotime
  bw_bootstrapReady :: bool

definition zeroBandwidth :: dtFaceBandwidthState where
  "zeroBandwidth = \<lparr>bw_samples = [], bw_observations = [], bw_estimatedPps = 0, bw_lastUpdated = 0,
     bw_lastNoSampleWarn = 0, bw_lastUpdateRule = [], bw_lastMeasuredPps = 0, bw_lastObsTime = 0,
     bw_bootstrapReady = False\<rparr>"

text \<open>The state of a prefix, without its mutex and the ticker that nothing starts.\<close>

record PathDiscoveryInfo =
  pi_Prefix :: string
  pi_IsInitialized :: bool
  pi_TierList :: "hopSnapshot list list"
  pi_TierCostList :: "u64 list"
  pi_CurrentTier :: nat
  pi_ProbeIndex :: int
  pi_WaitList :: "hopSnapshot list list"
  pi_ProbedUpstreams :: "faceId list"
  pi_ProbedSchedulerIndex :: nat
  pi_ConvergedUpstreamTier :: "(faceId, bool) gomap"
  pi_ConvergedUpstreamNode :: "(faceId, bool) gomap"
  pi_IsNodeConverged :: bool
  pi_ValidUpstreams :: "(faceId, bool) gomap"
  pi_IsInvalidNode :: bool
  pi_IsPdFrozen :: bool
  pi_FrozenFaces :: "(faceId, bool) gomap"
  pi_FrozenRecoverFaces :: "(faceId, bool) gomap"
  pi_ActiveFaces :: "faceId list"
  pi_ActiveFaceIndex :: nat
  pi_DtValidFaces :: "faceId list"
  pi_DtFaceRateControlEnabled :: bool
  pi_DtBootstrapFaceRR :: int
  pi_DtBootstrapProbeCounter :: int
  pi_UpstreamQsfInterest :: "(faceId, float64) gomap"
  pi_UpstreamQsfData :: "(faceId, float64) gomap"
  pi_UpstreamQsfInterestSlope :: "(faceId, float64) gomap"
  pi_UpstreamQsfDataSlope :: "(faceId, float64) gomap"
  pi_UpstreamInterestQsfBias :: "(faceId, float64) gomap"
  pi_UpstreamInterestQsfBiasReady :: "(faceId, bool) gomap"
  pi_UpstreamSamples :: "(faceId, DtUpstreamSample list) gomap"

definition newPathDiscoveryInfo :: "string \<Rightarrow> PathDiscoveryInfo" where
  "newPathDiscoveryInfo prefix = \<lparr>pi_Prefix = prefix, pi_IsInitialized = False, pi_TierList = [],
     pi_TierCostList = [], pi_CurrentTier = 0, pi_ProbeIndex = 0, pi_WaitList = [], pi_ProbedUpstreams = [],
     pi_ProbedSchedulerIndex = 0, pi_ConvergedUpstreamTier = [], pi_ConvergedUpstreamNode = [],
     pi_IsNodeConverged = False, pi_ValidUpstreams = [], pi_IsInvalidNode = False, pi_IsPdFrozen = False,
     pi_FrozenFaces = [], pi_FrozenRecoverFaces = [], pi_ActiveFaces = [], pi_ActiveFaceIndex = 0,
     pi_DtValidFaces = [], pi_DtFaceRateControlEnabled = False, pi_DtBootstrapFaceRR = 0,
     pi_DtBootstrapProbeCounter = 0, pi_UpstreamQsfInterest = [], pi_UpstreamQsfData = [],
     pi_UpstreamQsfInterestSlope = [], pi_UpstreamQsfDataSlope = [], pi_UpstreamInterestQsfBias = [],
     pi_UpstreamInterestQsfBiasReady = [], pi_UpstreamSamples = []\<rparr>"

end
