(* ===== verification/Mp_Rate.thy ===== *)
theory Mp_Rate
  imports Mp_Types
begin

text \<open>
  The measurements and the rate controller of one upstream face (\<open>fw/fw/multipath.go\<close>): the
  bandwidth estimator over arrival times, the queue signals with their slopes, and one control
  round.  Each reading of the clock is an argument.
\<close>

subsection \<open>Bandwidth estimator\<close>

datatype dtBwTrend = dtBwTrendUnknown | dtBwTrendIncreasing | dtBwTrendDecreasing | dtBwTrendFluctuating

definition dtBwObservationSpacing :: "duration \<Rightarrow> duration" where
  "dtBwObservationSpacing period =
    (let p = (if period \<le> 0 then dtStaticControlPeriod else period);
         spacing = go_quot p 3
     in if spacing \<le> 0 then millisecond else spacing)"

definition dtAverageFloat64 :: "float64 list \<Rightarrow> float64" where
  "dtAverageFloat64 values = (if values = [] then 0 else foldl (+) 0 values / of_nat (length values))"

definition dtClassifyBwTrend :: "float64 list \<Rightarrow> dtBwTrend" where
  "dtClassifyBwTrend observations =
    (if length observations < 2 then dtBwTrendUnknown
     else
       let steps = zip observations (tl observations);
           increasing = list_all (\<lambda>(prev, cur). \<not> cur \<le> prev) steps;
           decreasing = list_all (\<lambda>(prev, cur). \<not> cur \<ge> prev) steps
       in if increasing then dtBwTrendIncreasing
          else if decreasing then dtBwTrendDecreasing else dtBwTrendFluctuating)"

definition lastN :: "nat \<Rightarrow> 'a list \<Rightarrow> 'a list" where
  "lastN n xs = (if length xs > n then drop (length xs - n) xs else xs)"

definition trimDtFaceBandwidthSamples :: "gotime list \<Rightarrow> gotime \<Rightarrow> gotime list" where
  "trimDtFaceBandwidthSamples samples now =
    lastN dtMaxSamplesPerFace (dropWhile (\<lambda>t. t < now - dtThroughputWindowDur) samples)"

definition trimDtUpstreamQsfSamples :: "DtUpstreamSample list \<Rightarrow> gotime \<Rightarrow> DtUpstreamSample list" where
  "trimDtUpstreamQsfSamples samples now =
    lastN dtQsfSampleLimit (dropWhile (\<lambda>s. us_Timestamp s < now - dtThroughputWindowDur) samples)"

definition measuredPps :: "nat \<Rightarrow> float64" where
  "measuredPps sampleCount =
    (if sampleCount > 0 \<and> seconds dtThroughputWindowDur > 0
     then of_nat sampleCount / seconds dtThroughputWindowDur else 0)"

definition noteDtFaceBandwidthSample :: "gotime \<Rightarrow> dtFaceBandwidthState \<Rightarrow> dtFaceBandwidthState \<times> float64 \<times> nat" where
  "noteDtFaceBandwidthSample now state =
    (let samples = trimDtFaceBandwidthSamples (bw_samples state @ [now]) now;
         measured = measuredPps (length samples)
     in (state\<lparr>bw_samples := samples, bw_lastMeasuredPps := measured\<rparr>, measured, length samples))"

definition applyDtFaceBandwidthEstimateLocked ::
  "float64 \<Rightarrow> float64 \<Rightarrow> dtFaceBandwidthState \<Rightarrow> dtFaceBandwidthState" where
  "applyDtFaceBandwidthEstimateLocked measuredPPS queuePressureQsf state =
    (let prevBW = bw_estimatedPps state;
         qthLow = rp_MaxFwdQueueSize dtRateControlParams * rp_FwdQueueAlpha dtRateControlParams;
         latest = last (bw_observations state);
         avgRecent = dtAverageFloat64 (bw_observations state);
         trend = dtClassifyBwTrend (bw_observations state);
         triggerUp = measuredPPS > prevBW;
         triggerPressure = queuePressureQsf > qthLow;
         (candidate, alpha, updateRule) =
           (if triggerUp \<and> trend = dtBwTrendIncreasing
            then (avgRecent, dtBwAlphaUp, ''throughput-high-monotonic'')
            else if triggerUp then (latest, dtBwAlphaSmall, ''throughput-high-fluctuating'')
            else if triggerPressure \<and> trend = dtBwTrendDecreasing
            then (latest, dtBwAlphaDown, ''queue-pressure-monotonic'')
            else if triggerPressure then (latest, dtBwAlphaSmall, ''queue-pressure-fluctuating'')
            else (prevBW, 0, ''retain''))
     in state\<lparr>bw_estimatedPps := (if alpha > 0 then prevBW + alpha * (candidate - prevBW) else prevBW),
              bw_lastUpdateRule := updateRule, bw_lastMeasuredPps := measuredPPS\<rparr>)"

definition updateDtFaceBandwidthEstimate ::
  "gotime \<Rightarrow> float64 \<Rightarrow> duration \<Rightarrow> dtFaceBandwidthState \<Rightarrow> dtFaceBandwidthState" where
  "updateDtFaceBandwidthEstimate now queuePressureQsf controlPeriod state0 =
    (let samples = trimDtFaceBandwidthSamples (bw_samples state0) now;
         sampleCount = length samples;
         measured = measuredPps sampleCount;
         state = state0\<lparr>bw_samples := samples, bw_lastMeasuredPps := measured\<rparr>
     in if sampleCount < dtBwSampleMin then
          state\<lparr>bw_lastUpdateRule := (if sampleCount = 0 then ''no-sample-retain''
                  else if bw_estimatedPps state > 0 then ''insufficient-sample-retain''
                  else ''insufficient-sample-skip''),
                bw_lastUpdated := now\<rparr>
        else if \<not> isZero (bw_lastObsTime state)
             \<and> time_sub now (bw_lastObsTime state) < dtBwObservationSpacing controlPeriod then
          state\<lparr>bw_lastUpdateRule := ''cadence-wait''\<rparr>
        else
          let state1 = state\<lparr>bw_lastObsTime := now,
                bw_observations := lastN dtBwObsLimit (bw_observations state @ [measured])\<rparr>
          in if \<not> bw_bootstrapReady state1 then
               (if length (bw_observations state1) < dtBwObsLimit
                then state1\<lparr>bw_lastUpdated := now, bw_lastUpdateRule := ''bootstrap-collecting''\<rparr>
                else state1\<lparr>bw_estimatedPps := dtAverageFloat64 (bw_observations state1),
                       bw_bootstrapReady := True, bw_lastUpdated := now, bw_lastUpdateRule := ''bootstrap-ready''\<rparr>)
             else (applyDtFaceBandwidthEstimateLocked measured queuePressureQsf state1)\<lparr>bw_lastUpdated := now\<rparr>)"

text \<open>The reading of the estimate: estimated and measured rate, number of samples, rule.\<close>

definition getDtFaceBandwidthEstimate ::
  "gotime \<Rightarrow> dtFaceBandwidthState \<Rightarrow> dtFaceBandwidthState \<times> float64 \<times> float64 \<times> nat \<times> string" where
  "getDtFaceBandwidthEstimate now state0 =
    (let samples = trimDtFaceBandwidthSamples (bw_samples state0) now;
         sampleCount = length samples;
         state = state0\<lparr>bw_samples := samples\<rparr>;
         warned = state\<lparr>bw_lastNoSampleWarn :=
           (if bw_estimatedPps state > 0
               \<and> time_sub now (bw_lastNoSampleWarn state) \<ge> dtBandwidthNoSampleWarnInterval
            then now else bw_lastNoSampleWarn state)\<rparr>
     in if sampleCount < dtBwSampleMin then
          let state1 = (if sampleCount = 0 then warned else state)
          in if bw_estimatedPps state1 > 0
             then (state1, bw_estimatedPps state1, bw_lastMeasuredPps state1, sampleCount, bw_lastUpdateRule state1)
             else (state1, 0, 0, sampleCount, ''insufficient-sample-skip'')
        else if sampleCount > 0 then
          let measured = measuredPps sampleCount
          in (state\<lparr>bw_lastMeasuredPps := measured\<rparr>, bw_estimatedPps state, measured, sampleCount, bw_lastUpdateRule state)
        else (warned, bw_estimatedPps warned, 0, 0, ''no-sample-retain''))"

subsection \<open>Control period\<close>

definition clampDtControlPeriod :: "duration \<Rightarrow> duration" where
  "clampDtControlPeriod p =
    (if p < dtControlPeriodMin then dtControlPeriodMin else if p > dtControlPeriodMax then dtControlPeriodMax else p)"

definition getDtRttBootstrapPeriod :: "dtRttBootstrapState \<Rightarrow> bool \<times> duration \<times> int" where
  "getDtRttBootstrapPeriod state =
    (if dtUseStaticControlPeriod then (True, dtStaticControlPeriod, 0) else (rb_ready state, rb_period state, rb_count state))"

definition recordDtRttBootstrapSample ::
  "duration \<Rightarrow> dtRttBootstrapState \<Rightarrow> dtRttBootstrapState \<times> bool \<times> duration \<times> int" where
  "recordDtRttBootstrapSample rtt state =
    (if dtUseStaticControlPeriod then (state, True, dtStaticControlPeriod, 0)
     else if rtt \<le> 0 then (state, False, 0, 0)
     else if rb_ready state then (state, True, rb_period state, rb_count state)
     else
       let state1 = state\<lparr>rb_count := rb_count state + 1, rb_sum := rb_sum state + rtt\<rparr>
       in if rb_count state1 < dtControlRttInitSamples then (state1, False, 0, rb_count state1)
          else
            let avg = go_quot (rb_sum state1) (rb_count state1);
                scaled = go_trunc (of_int avg * dtControlPeriodRttScale);
                state2 = state1\<lparr>rb_period := clampDtControlPeriod scaled, rb_ready := True\<rparr>
            in (state2, True, rb_period state2, rb_count state2))"

subsection \<open>Queue signals\<close>

record slopeSums =
  ss_W :: float64
  ss_WX :: float64
  ss_WXX :: float64
  ss_WI :: float64
  ss_WD :: float64
  ss_WXI :: float64
  ss_WXD :: float64
  ss_I :: float64
  ss_D :: float64

definition slopeAdd :: "gotime \<Rightarrow> float64 \<Rightarrow> slopeSums \<Rightarrow> DtUpstreamSample \<Rightarrow> slopeSums" where
  "slopeAdd now tauSec ss sample =
    (let x0 = seconds (time_sub (us_Timestamp sample) now);
         x = (if x0 > 0 then 0 else x0);
         w = exp (x / tauSec)
     in \<lparr>ss_W = ss_W ss + w, ss_WX = ss_WX ss + w * x, ss_WXX = ss_WXX ss + w * x * x,
         ss_WI = ss_WI ss + w * us_InterestQsf sample, ss_WD = ss_WD ss + w * us_DataQsf sample,
         ss_WXI = ss_WXI ss + w * x * us_InterestQsf sample, ss_WXD = ss_WXD ss + w * x * us_DataQsf sample,
         ss_I = ss_I ss + us_InterestQsf sample, ss_D = ss_D ss + us_DataQsf sample\<rparr>)"

definition tauSeconds :: float64 where
  "tauSeconds =
    (let tauSec = seconds dtThroughputWindowDur * dtSlopeTauRatio
     in if tauSec \<le> 0 then 1 / 1000000 else tauSec)"

text \<open>The averages and the slopes over the samples in the window.\<close>

definition dtQueueSlopes :: "gotime \<Rightarrow> DtUpstreamSample list \<Rightarrow> float64 \<times> float64 \<times> float64 \<times> float64" where
  "dtQueueSlopes now samples =
    (let ss = foldl (slopeAdd now tauSeconds)
           \<lparr>ss_W = 0, ss_WX = 0, ss_WXX = 0, ss_WI = 0, ss_WD = 0, ss_WXI = 0, ss_WXD = 0, ss_I = 0, ss_D = 0\<rparr> samples;
         den = ss_W ss * ss_WXX ss - ss_WX ss * ss_WX ss;
         (interestSlope, dataSlope) =
           (if length samples \<ge> 2 \<and> \<bar>den\<bar> > 1 / 10 ^ 12
            then ((ss_W ss * ss_WXI ss - ss_WX ss * ss_WI ss) / den, (ss_W ss * ss_WXD ss - ss_WX ss * ss_WD ss) / den)
            else (0, 0))
     in (ss_I ss / of_nat (length samples), ss_D ss / of_nat (length samples), interestSlope, dataSlope))"

record faceState =
  fs_control :: dtFaceControlState
  fs_bandwidth :: dtFaceBandwidthState
  fs_signals :: "(string, dtPrefixInterestSignal) gomap"
  fs_bootstrap :: dtRttBootstrapState

definition zeroFace :: faceState where
  "zeroFace = \<lparr>fs_control = zeroControl, fs_bandwidth = zeroBandwidth, fs_signals = [],
     fs_bootstrap = \<lparr>rb_count = 0, rb_sum = 0, rb_ready = False, rb_period = 0\<rparr>\<rparr>"

definition updateDtFaceInterestSignal ::
  "string \<Rightarrow> float64 \<Rightarrow> float64 \<Rightarrow> float64 \<Rightarrow> float64 \<Rightarrow> int \<Rightarrow> gotime \<Rightarrow> faceState \<Rightarrow> faceState" where
  "updateDtFaceInterestSignal prefix interestQ interestSlope dataQ dataSlope sampleCount sampleTime s =
    s\<lparr>fs_signals := gm_put prefix \<lparr>ps_InterestQ = interestQ, ps_InterestSlope = interestSlope, ps_DataQ = dataQ,
        ps_DataSlope = dataSlope, ps_SampleCount = sampleCount, ps_LastUpdated = sampleTime\<rparr> (fs_signals s)\<rparr>"

definition updateDtUpstreamMeasurements ::
  "string \<Rightarrow> faceId \<Rightarrow> gotime \<Rightarrow> int \<Rightarrow> float64 \<Rightarrow> float64 \<Rightarrow> PathDiscoveryInfo \<times> faceState
   \<Rightarrow> PathDiscoveryInfo \<times> faceState" where
  "updateDtUpstreamMeasurements prefix upstreamFace now payloadSize interestQsf0 dataQsf0 s =
    (let (info0, face0) = s;
         info1 = (if dtUseQsfBiasRemoval \<and> \<not> gm_bool (pi_UpstreamInterestQsfBiasReady info0) upstreamFace
                  then info0\<lparr>pi_UpstreamInterestQsfBias := gm_put upstreamFace interestQsf0 (pi_UpstreamInterestQsfBias info0),
                         pi_UpstreamInterestQsfBiasReady := gm_put upstreamFace True (pi_UpstreamInterestQsfBiasReady info0)\<rparr>
                  else info0);
         interestQsf = correctedDtQsf interestQsf0 (gm_get0 0 (pi_UpstreamInterestQsfBias info1) upstreamFace);
         control0 = fs_control face0;
         control = (if dtUseQsfBiasRemoval \<and> \<not> fc_dataQsfBiasReady control0
                    then control0\<lparr>fc_dataQsfBias := dataQsf0, fc_dataQsfBiasReady := True\<rparr> else control0);
         dataQsf = correctedDtQsf dataQsf0 (fc_dataQsfBias control);
         samples = trimDtUpstreamQsfSamples (gm_get0 [] (pi_UpstreamSamples info1) upstreamFace
                     @ [\<lparr>us_Timestamp = now, us_SizeBytes = payloadSize, us_InterestQsf = interestQsf, us_DataQsf = dataQsf\<rparr>]) now;
         (avgI, avgD, interestSlope, dataSlope) = dtQueueSlopes now samples;
         info2 = info1\<lparr>pi_UpstreamSamples := gm_put upstreamFace samples (pi_UpstreamSamples info1),
                   pi_UpstreamQsfInterest := gm_put upstreamFace avgI (pi_UpstreamQsfInterest info1),
                   pi_UpstreamQsfData := gm_put upstreamFace avgD (pi_UpstreamQsfData info1),
                   pi_UpstreamQsfInterestSlope := gm_put upstreamFace interestSlope (pi_UpstreamQsfInterestSlope info1),
                   pi_UpstreamQsfDataSlope := gm_put upstreamFace dataSlope (pi_UpstreamQsfDataSlope info1)\<rparr>;
         face1 = updateDtFaceInterestSignal prefix avgI interestSlope avgD dataSlope (int (length samples)) now
                   (face0\<lparr>fs_control := control\<rparr>);
         bw1 = fst (noteDtFaceBandwidthSample now (fs_bandwidth face1));
         bw2 = updateDtFaceBandwidthEstimate now (max interestQsf dataQsf) (fc_period control) bw1
     in (info2, face1\<lparr>fs_bandwidth := bw2\<rparr>))"

text \<open>Weighted averages over the prefixes with samples; prefixes without samples are dropped.\<close>

definition getAveragedDtFaceQueueSignal ::
  "(string, dtPrefixInterestSignal) gomap
   \<Rightarrow> (string, dtPrefixInterestSignal) gomap \<times> float64 \<times> float64 \<times> float64 \<times> float64 \<times> nat" where
  "getAveragedDtFaceQueueSignal byPref =
    (let live = filter (\<lambda>(_, signal). \<not> (of_int (ps_SampleCount signal) :: float64) \<le> 0) byPref;
         sum = (\<lambda>g. foldl (\<lambda>acc (_, signal). acc + of_int (ps_SampleCount signal) * g signal) 0 live);
         sumW = sum (\<lambda>_. 1)
     in if live = [] \<or> sumW \<le> 0 then (live, 0, 0, 0, 0, length live)
        else (live, sum ps_InterestQ / sumW, sum ps_InterestSlope / sumW, sum ps_DataQ / sumW,
              sum ps_DataSlope / sumW, length live))"

subsection \<open>One control round\<close>

definition padTo :: "nat \<Rightarrow> 'a \<Rightarrow> 'a list \<Rightarrow> 'a list" where
  "padTo n z xs = (if length xs < n then xs @ replicate (n - length xs) z else xs)"

definition ensureDtControlThreadSlotsLocked :: "int \<Rightarrow> dtFaceControlState \<Rightarrow> dtFaceControlState" where
  "ensureDtControlThreadSlotsLocked numThreads c =
    (let n = nat (if numThreads \<le> 0 then 1 else numThreads)
     in c\<lparr>fc_demandByThread := padTo n 0 (fc_demandByThread c),
          fc_budgetByThread := padTo n 0 (fc_budgetByThread c),
          fc_carryByThread := padTo n 0 (fc_carryByThread c),
          fc_roundGrantedByThread := padTo n 0 (fc_roundGrantedByThread c),
          fc_roundUsedByThread := padTo n 0 (fc_roundUsedByThread c),
          fc_roundZeroBudgetByThread := padTo n 0 (fc_roundZeroBudgetByThread c),
          fc_roundEmptyBudgetByThread := padTo n 0 (fc_roundEmptyBudgetByThread c),
          fc_roundSendFailByThread := padTo n 0 (fc_roundSendFailByThread c),
          fc_roundPendingSumByThread := padTo n 0 (fc_roundPendingSumByThread c),
          fc_roundPendingMaxByThread := padTo n 0 (fc_roundPendingMaxByThread c),
          fc_roundVisitsByThread := padTo n 0 (fc_roundVisitsByThread c),
          fc_budgetRR := (if fc_budgetRR c \<ge> n then 0 else fc_budgetRR c)\<rparr>)"

definition pendingDtInterestsForFace :: "int \<Rightarrow> dtFaceControlState \<Rightarrow> dtFaceControlState \<times> int" where
  "pendingDtInterestsForFace numThreads c =
    (let c1 = ensureDtControlThreadSlotsLocked numThreads c in (c1, sum_list (fc_demandByThread c1)))"

text \<open>The state machine of the controller, its bandwidth guard and the global bounds (steps 3 to 6).\<close>

definition dtPrimaryRate :: "float64 \<Rightarrow> float64 \<Rightarrow> float64 \<Rightarrow> float64 \<times> DtRateControlAction" where
  "dtPrimaryRate currentQ queueSlope currentRate =
    (let p = dtRateControlParams;
         qthHigh = rp_MaxFwdQueueSize p * rp_FwdQueueBeta p;
         qthLow = rp_MaxFwdQueueSize p * rp_FwdQueueAlpha p;
         slopeThreshold = rp_FwdSlopeThreshold p
     in if currentQ \<ge> qthHigh then
          (if queueSlope > slopeThreshold then (currentRate * rp_FwdMDFactor p, DtActionEmergencyDecrease)
           else if queueSlope < - slopeThreshold then (currentRate, DtActionHoldDraining)
           else (currentRate * rp_FwdGDFactor p, DtActionGentleDecrease))
        else if currentQ \<ge> qthLow then (currentRate, DtActionHoldDraining)
        else if queueSlope > slopeThreshold then (currentRate * rp_FwdCIFactor p, DtActionCautiousIncrease)
        else (currentRate * rp_FwdRPFactor p, DtActionAggressiveProbe))"

definition dtBandwidthGuard ::
  "bool \<Rightarrow> float64 \<Rightarrow> float64 \<Rightarrow> float64 \<times> DtRateControlAction \<Rightarrow> float64 \<times> DtRateControlAction" where
  "dtBandwidthGuard bwCapActive estimatedBW currentQ ra =
    (if bwCapActive \<and> estimatedBW > 0 then
       let maxSafeRate = dtFaceBandwidthCapLimit estimatedBW;
           ra1 = (if fst ra > maxSafeRate then (maxSafeRate, DtActionBWCapped) else ra);
           minSafeRate = estimatedBW * rp_MinBWSafetyRatio dtRateControlParams
       in if currentQ < rp_MaxFwdQueueSize dtRateControlParams * rp_FwdQueueAlpha dtRateControlParams
             \<and> fst ra1 < minSafeRate
          then (minSafeRate, DtActionBWBoosted) else ra1
     else ra)"

definition dtGlobalBounds :: "float64 \<times> DtRateControlAction \<Rightarrow> float64 \<times> DtRateControlAction" where
  "dtGlobalBounds ra =
    (let p = dtRateControlParams;
         ra1 = (if fst ra < rp_FwdMinRate p then (rp_FwdMinRate p, DtActionGlobalMinCapped) else ra)
     in if rp_FwdMaxRate p > 0 \<and> fst ra1 > rp_FwdMaxRate p then (rp_FwdMaxRate p, DtActionGlobalMaxCapped) else ra1)"

definition livenessGuard :: "bool \<Rightarrow> int \<Rightarrow> float64 \<Rightarrow> dtFaceControlState \<Rightarrow> dtFaceControlState" where
  "livenessGuard hadPrevRateSample pendingFace measuredSendPps c =
    (if hadPrevRateSample \<and> pendingFace > 0 \<and> measuredSendPps \<le> 0 then
       let forced = fc_livenessForcedPackets c + dtLivenessForcedPacketsPerStarvedRound
       in c\<lparr>fc_starvationZeroSendRounds := fc_starvationZeroSendRounds c + 1,
            fc_livenessForcedPackets := (if forced > dtLivenessForcedPacketsMax then dtLivenessForcedPacketsMax else forced)\<rparr>
     else if pendingFace = 0 \<or> measuredSendPps > 0 then c\<lparr>fc_starvationZeroSendRounds := 0\<rparr>
     else c)"

definition clearRoundCounters :: "dtFaceControlState \<Rightarrow> dtFaceControlState" where
  "clearRoundCounters c =
    c\<lparr>fc_roundGrantedByThread := map (\<lambda>_. 0) (fc_roundGrantedByThread c),
      fc_roundUsedByThread := map (\<lambda>_. 0) (fc_roundUsedByThread c),
      fc_roundZeroBudgetByThread := map (\<lambda>_. 0) (fc_roundZeroBudgetByThread c),
      fc_roundEmptyBudgetByThread := map (\<lambda>_. 0) (fc_roundEmptyBudgetByThread c),
      fc_roundSendFailByThread := map (\<lambda>_. 0) (fc_roundSendFailByThread c),
      fc_roundPendingSumByThread := map (\<lambda>_. 0) (fc_roundPendingSumByThread c),
      fc_roundPendingMaxByThread := map (\<lambda>_. 0) (fc_roundPendingMaxByThread c),
      fc_roundVisitsByThread := map (\<lambda>_. 0) (fc_roundVisitsByThread c),
      fc_roundMintedTokens := 0\<rparr>"

text \<open>\<open>now\<close> is the first reading of the clock (for the averaged signal), \<open>roundNow\<close> the second.\<close>

definition faceSendRateEstimationCore :: "int \<Rightarrow> gotime \<Rightarrow> gotime \<Rightarrow> faceState \<Rightarrow> faceState" where
  "faceSendRateEstimationCore numThreads now roundNow s =
    (let (signals, interestQ0, interestSlope0, dataQ0, dataSlope0, livePrefixes) = getAveragedDtFaceQueueSignal (fs_signals s);
         (bw1, _) = getDtFaceBandwidthEstimate now (fs_bandwidth s);
         c0 = fs_control s
     in if livePrefixes = 0 \<and> \<not> fc_lastSignalReady c0 then s\<lparr>fs_signals := signals, fs_bandwidth := bw1\<rparr>
        else
          let (interestQ, interestSlope, dataQ, dataSlope) =
                (if livePrefixes = 0
                 then (fc_lastInterestQ c0, fc_lastInterestSlope c0, fc_lastDataQ c0, fc_lastDataSlope c0)
                 else (interestQ0, interestSlope0, dataQ0, dataSlope0));
              c1 = (if livePrefixes = 0 then c0
                    else c0\<lparr>fc_lastInterestQ := interestQ, fc_lastInterestSlope := interestSlope, fc_lastDataQ := dataQ,
                           fc_lastDataSlope := dataSlope, fc_lastSignalPrefixes := int livePrefixes, fc_lastSignalReady := True\<rparr>);
              (currentQ, queueSlope, selectedSignal) =
                (if interestQ > dataQ then (interestQ, interestSlope, ''interest'') else (dataQ, dataSlope, ''data''));
              (bw2, estimatedBW, measuredBW, bwSamples, bwRule) = getDtFaceBandwidthEstimate roundNow bw1;
              (c2, pendingFace) = pendingDtInterestsForFace numThreads c1;
              c3 = ensureDtControlThreadSlotsLocked numThreads c2;
              prevRate = fc_rate c3;
              hadPrevRateSample = (\<not> isZero (fc_lastRateSampleTime c3));
              elapsed = seconds (time_sub roundNow (fc_lastRateSampleTime c3));
              measuredSendPps = (if hadPrevRateSample \<and> elapsed > 0
                                 then of_nat (unat (fc_sentCounter c3 - fc_lastRateSampleCount c3)) / elapsed else 0);
              c4 = clearRoundCounters c3;
              frozenRound = (fc_lastSignalReady c4 \<and> livePrefixes = 0);
              currentRate = (if frozenRound then prevRate
                             else if prevRate \<le> 0 then rp_FwdMinRate dtRateControlParams else prevRate);
              c5 = (if \<not> fc_bwCapActive c4 \<and> dtFaceBandwidthCapReady (bw_bootstrapReady bw2) estimatedBW
                    then c4\<lparr>fc_bwCapActive := True\<rparr> else c4);
              (newRate, finalAction) =
                dtGlobalBounds (if frozenRound then (currentRate, fc_action c5)
                  else dtBandwidthGuard (fc_bwCapActive c5) estimatedBW currentQ
                         (dtPrimaryRate currentQ queueSlope currentRate));
              c6 = (livenessGuard hadPrevRateSample pendingFace measuredSendPps c5)
                     \<lparr>fc_lastRateSampleTime := roundNow, fc_lastRateSampleCount := fc_sentCounter c5,
                      fc_lastRoundMeasuredSendPps := measuredSendPps\<rparr>;
              c7 = (if frozenRound then c6
                    else c6\<lparr>fc_rate := newRate, fc_action := finalAction, fc_lastRoundSignalQ := currentQ,
                           fc_lastRoundSignalSlope := queueSlope, fc_lastRoundSignalType := selectedSignal,
                           fc_lastRoundInterestQ := interestQ, fc_lastRoundInterestSlope := interestSlope,
                           fc_lastRoundDataQ := dataQ, fc_lastRoundDataSlope := dataSlope,
                           fc_lastRoundEstimatedBW := estimatedBW, fc_lastRoundMeasuredBW := measuredBW,
                           fc_lastRoundBwSamples := int bwSamples, fc_lastRoundBwRule := bwRule,
                           fc_lastRoundPrevRate := prevRate, fc_lastRoundNewRate := newRate,
                           fc_lastRoundAction := finalAction, fc_lastRoundReady := True\<rparr>)
          in s\<lparr>fs_control := c7, fs_bandwidth := bw2, fs_signals := signals\<rparr>)"

subsection \<open>The controller stays within its bounds\<close>

lemmas rate_params = dtRateControlParams_def

lemma dtFaceInitRate_ge: "1 \<le> dtFaceInitRate"
  by (simp add: dtFaceInitRate_def)

lemma capLimit_ge:
  assumes "0 < est"
  shows "1 \<le> dtFaceBandwidthCapLimit est" "est * (13 / 10) \<le> dtFaceBandwidthCapLimit est"
  using assms dtFaceInitRate_ge by (auto simp: dtFaceBandwidthCapLimit_def rate_params Let_def)

definition round_ok :: "bool \<Rightarrow> float64 \<Rightarrow> float64 \<Rightarrow> float64 \<Rightarrow> float64 \<Rightarrow> float64 \<Rightarrow> bool" where
  "round_ok cap est q slope old new \<longleftrightarrow>
     1 \<le> new
     \<and> (cap \<and> 0 < est \<longrightarrow> new \<le> dtFaceBandwidthCapLimit est)
     \<and> new \<le> max 1 (max (old * (105 / 100)) (if cap then est / 2 else 0))
     \<and> (8 / 10 \<le> q \<and> - (1 / 10) \<le> slope \<longrightarrow> new \<le> max 1 (old * (95 / 100)))
     \<and> (1 / 2 \<le> q \<longrightarrow> new \<le> max 1 old)
     \<and> (cap \<and> 0 < est \<and> q < 1 / 2 \<longrightarrow> est / 2 \<le> new)"

lemma primary_rate:
  assumes "0 < old"
  shows "0 \<le> fst (dtPrimaryRate q slope old)" "fst (dtPrimaryRate q slope old) \<le> old * (105 / 100)"
    "8 / 10 \<le> q \<Longrightarrow> - (1 / 10) \<le> slope \<Longrightarrow> fst (dtPrimaryRate q slope old) \<le> old * (95 / 100)"
    "1 / 2 \<le> q \<Longrightarrow> fst (dtPrimaryRate q slope old) \<le> old"
  using assms by (auto simp: dtPrimaryRate_def rate_params Let_def)

lemma guarded_rate:
  fixes cap :: bool and est q slope old :: float64
  defines "r \<equiv> dtBandwidthGuard cap est q (dtPrimaryRate q slope old)"
  assumes "0 < old"
  shows "cap \<Longrightarrow> 0 < est \<Longrightarrow> fst r \<le> dtFaceBandwidthCapLimit est"
    "fst r \<le> max (old * (105 / 100)) (if cap then est / 2 else 0)"
    "8 / 10 \<le> q \<Longrightarrow> - (1 / 10) \<le> slope \<Longrightarrow> fst r \<le> old * (95 / 100)"
    "1 / 2 \<le> q \<Longrightarrow> fst r \<le> old"
    "cap \<Longrightarrow> 0 < est \<Longrightarrow> q < 1 / 2 \<Longrightarrow> est / 2 \<le> fst r"
  using primary_rate [OF assms(2), of q slope] capLimit_ge [of est]
  unfolding r_def by (auto simp: dtBandwidthGuard_def rate_params Let_def)

lemma target_rate_ok:
  assumes "0 < old"
  shows "round_ok cap est q slope old (fst (dtGlobalBounds (dtBandwidthGuard cap est q (dtPrimaryRate q slope old))))"
  using guarded_rate [where cap = cap and est = est and q = q and slope = slope, OF assms] capLimit_ge [of est]
  by (auto simp: round_ok_def dtGlobalBounds_def rate_params Let_def)

lemma slots_frame [simp]:
  "fc_rate (ensureDtControlThreadSlotsLocked n c) = fc_rate c" "fc_action (ensureDtControlThreadSlotsLocked n c) = fc_action c"
  "fc_bwCapActive (ensureDtControlThreadSlotsLocked n c) = fc_bwCapActive c"
  "fc_lastSignalReady (ensureDtControlThreadSlotsLocked n c) = fc_lastSignalReady c"
  by (simp_all add: ensureDtControlThreadSlotsLocked_def Let_def)

lemma clear_frame [simp]:
  "fc_rate (clearRoundCounters c) = fc_rate c" "fc_action (clearRoundCounters c) = fc_action c"
  "fc_bwCapActive (clearRoundCounters c) = fc_bwCapActive c" "fc_lastSignalReady (clearRoundCounters c) = fc_lastSignalReady c"
  by (simp_all add: clearRoundCounters_def)

lemma liveness_frame [simp]:
  "fc_rate (livenessGuard h p m c) = fc_rate c" "fc_bwCapActive (livenessGuard h p m c) = fc_bwCapActive c"
  by (simp_all add: livenessGuard_def Let_def)

text \<open>
  (C12) One control round of a forwarder face.  Without a live queue signal the rate does not change.
  With one, the new rate is at least one Interest per second, and up to that floor: it grows by at most
  five percent, or to half the estimated bandwidth; with a queue at or above the low threshold it does not
  grow; at or above the high threshold and not draining it shrinks by at least five percent.  So a rate
  at the floor stays there.  Once the bandwidth guard is active the rate never exceeds the guard's
  limit, and with a short queue the guard keeps it at half the estimated bandwidth or above.
\<close>

theorem face_rate_round_bounds:
  assumes "s' = faceSendRateEstimationCore numThreads now roundNow s" "0 < fc_rate (fs_control s)"
  shows "if fs_signals s' = [] then fc_rate (fs_control s') = fc_rate (fs_control s)
    else round_ok (fc_bwCapActive (fs_control s')) (fc_lastRoundEstimatedBW (fs_control s'))
           (fc_lastRoundSignalQ (fs_control s')) (fc_lastRoundSignalSlope (fs_control s'))
           (fc_rate (fs_control s)) (fc_rate (fs_control s'))"
proof -
  obtain sg iq isl dq ds n where avg: "getAveragedDtFaceQueueSignal (fs_signals s) = (sg, iq, isl, dq, ds, n)"
    by (metis prod_cases6)
  have n: "n = length sg" using avg by (auto simp: getAveragedDtFaceQueueSignal_def Let_def split: if_splits)
  obtain b1 x1 where bw1: "getDtFaceBandwidthEstimate now (fs_bandwidth s) = (b1, x1)" by (meson surj_pair)
  obtain b2 est m k rule where bw2: "getDtFaceBandwidthEstimate roundNow b1 = (b2, est, m, k, rule)"
    by (metis prod_cases5)
  show ?thesis
    unfolding assms(1) faceSendRateEstimationCore_def avg bw1 Let_def prod.case bw2 n pendingDtInterestsForFace_def
    using target_rate_ok [OF assms(2)] assms(2)
    by (auto simp: case_prod_beta)
qed

text \<open>A face at 100 Interests per second whose queue is at nine tenths and growing.\<close>

definition demoFace :: faceState where
  "demoFace = zeroFace\<lparr>fs_control := zeroControl\<lparr>fc_rate := 100\<rparr>,
     fs_signals := [(''/p'', \<lparr>ps_InterestQ = 0, ps_InterestSlope = 0, ps_DataQ = 9 / 10, ps_DataSlope = 2 / 10,
       ps_SampleCount = 2, ps_LastUpdated = 5\<rparr>)]\<rparr>"

theorem face_rate_round_bounds_witness:
  "fc_rate (fs_control (faceSendRateEstimationCore 1 7 8 demoFace)) \<le> 95"
proof -
  let ?s = "faceSendRateEstimationCore 1 7 8 demoFace"
  have s: "fs_signals ?s \<noteq> []" "fc_lastRoundSignalQ (fs_control ?s) = 9 / 10" "fc_lastRoundSignalSlope (fs_control ?s) = 2 / 10"
    by (simp_all add: faceSendRateEstimationCore_def demoFace_def zeroFace_def zeroControl_def zeroBandwidth_def Let_def
        getAveragedDtFaceQueueSignal_def getDtFaceBandwidthEstimate_def trimDtFaceBandwidthSamples_def lastN_def
        dtBwSampleMin_def pendingDtInterestsForFace_def case_prod_beta)
  have "fc_rate (fs_control demoFace) = 100" by (simp add: demoFace_def)
  then show ?thesis
    using face_rate_round_bounds [OF refl, of demoFace 1 7 8] s by (simp add: round_ok_def max_def)
qed

end
