(* ===== verification/Mp_Budget.thy ===== *)
theory Mp_Budget
  imports Mp_Rate
begin

text \<open>
  The send budget of an upstream face (\<open>fw/fw/multipath.go\<close>): a token bucket filled at the face's
  rate, shared out to the forwarding threads in proportion to their queued demand, with the
  fractional part of a thread's share carried over.
\<close>

subsection \<open>Demand and tokens\<close>

definition noteDtThreadDemand :: "int \<Rightarrow> int \<Rightarrow> int \<Rightarrow> dtFaceControlState \<Rightarrow> dtFaceControlState" where
  "noteDtThreadDemand numThreads threadID delta c0 =
    (if threadID < 0 then c0
     else
       let c = ensureDtControlThreadSlotsLocked numThreads c0; tid = nat threadID
       in if tid < length (fc_demandByThread c) then
            let d0 = fc_demandByThread c ! tid + delta; d = (if d0 < 0 then 0 else d0);
                c1 = c\<lparr>fc_demandByThread := (fc_demandByThread c)[tid := d]\<rparr>;
                c2 = (if d = 0 \<and> tid < length (fc_budgetByThread c1)
                      then c1\<lparr>fc_budgetByThread := (fc_budgetByThread c1)[tid := 0]\<rparr> else c1)
            in if d = 0 \<and> tid < length (fc_carryByThread c2)
               then c2\<lparr>fc_carryByThread := (fc_carryByThread c2)[tid := 0]\<rparr> else c2
          else c)"

definition takeDtThreadBudget :: "int \<Rightarrow> int \<Rightarrow> int \<Rightarrow> dtFaceControlState \<Rightarrow> dtFaceControlState \<times> int" where
  "takeDtThreadBudget numThreads threadID maxPackets c0 =
    (if threadID < 0 \<or> maxPackets \<le> 0 then (c0, 0)
     else
       let c = ensureDtControlThreadSlotsLocked numThreads c0; tid = nat threadID
       in if tid \<ge> length (fc_budgetByThread c) then (c, 0)
          else
            let grant0 = fc_budgetByThread c ! tid
            in if grant0 \<le> 0 then (c, 0)
               else let grant = (if grant0 > maxPackets then maxPackets else grant0)
                    in (c\<lparr>fc_budgetByThread := (fc_budgetByThread c)[tid := grant0 - grant]\<rparr>, grant))"

definition refillDtFaceTokensLocked :: "gotime \<Rightarrow> dtFaceControlState \<Rightarrow> dtFaceControlState" where
  "refillDtFaceTokensLocked now c0 =
    (let c = (if isZero (fc_lastRefill c0) then c0\<lparr>fc_lastRefill := now\<rparr> else c0);
         elapsed0 = seconds (time_sub now (fc_lastRefill c));
         elapsed = (if elapsed0 < 0 then 0 else elapsed0);
         minted = elapsed * fc_rate c;
         tokens = fc_tokens c + minted
     in c\<lparr>fc_tokens := (if tokens > dtFaceTokenBurstCapPackets then dtFaceTokenBurstCapPackets else tokens),
          fc_roundMintedTokens := fc_roundMintedTokens c + minted, fc_lastRefill := now\<rparr>)"

definition totalDtThreadBudgetLocked :: "dtFaceControlState \<Rightarrow> int" where
  "totalDtThreadBudgetLocked c = foldl (+) 0 (fc_budgetByThread c)"

definition clampDtRetainedBudgetLocked :: "dtFaceControlState \<Rightarrow> dtFaceControlState" where
  "clampDtRetainedBudgetLocked c =
    (if fc_tokens c > dtRetainedBudgetCapPackets then c\<lparr>fc_tokens := dtRetainedBudgetCapPackets\<rparr> else c)"

definition reclaimDtThreadBudgetLocked :: "dtFaceControlState \<Rightarrow> dtFaceControlState \<times> int" where
  "reclaimDtThreadBudgetLocked c =
    (let leftover = foldl (+) 0 (fc_budgetByThread c);
         c1 = c\<lparr>fc_budgetByThread := map (\<lambda>_. 0) (fc_budgetByThread c)\<rparr>
     in (if leftover > 0 then clampDtRetainedBudgetLocked (c1\<lparr>fc_tokens := fc_tokens c1 + of_int leftover\<rparr>) else c1,
         leftover))"

subsection \<open>Sharing out the budget\<close>

definition rotation :: "nat \<Rightarrow> nat \<Rightarrow> nat list" where
  "rotation start n = map (\<lambda>i. (start + i) mod n) [0..<n]"

definition dtThreadWeights :: "int list \<Rightarrow> nat \<Rightarrow> float64 list" where
  "dtThreadWeights demands n =
    map (\<lambda>tid. if demands ! tid \<le> 0 then 0 else dtThreadActiveBaseWeight + of_int (demands ! tid)) [0..<n]"

record quota =
  q_budget :: "int list"
  q_carry :: "float64 list"
  q_assigned :: int
  q_remaining :: int

definition grantShare :: "int \<Rightarrow> float64 list \<Rightarrow> float64 \<Rightarrow> quota \<Rightarrow> nat \<Rightarrow> quota" where
  "grantShare availablePackets weights totalWeight q tid =
    (let weight = weights ! tid
     in if weight \<le> 0 then q
        else
          let share = of_int availablePackets * (weight / totalWeight) + q_carry q ! tid;
              grant0 = \<lfloor>share\<rfloor>;
              carry0 = share - of_int grant0;
              carry = (if carry0 > dtThreadQuotaCarryCapPackets then dtThreadQuotaCarryCapPackets else carry0);
              q1 = q\<lparr>q_carry := (q_carry q)[tid := carry]\<rparr>;
              room = dtThreadQuotaCapPackets - q_budget q1 ! tid
          in if room \<le> 0 \<or> grant0 \<le> 0 then q1
             else let grant = (if grant0 > room then room else grant0)
                  in q1\<lparr>q_budget := (q_budget q1)[tid := q_budget q1 ! tid + grant],
                        q_assigned := q_assigned q1 + grant, q_remaining := q_remaining q1 - grant\<rparr>)"

definition bestCarryStep :: "float64 list \<Rightarrow> quota \<Rightarrow> nat option \<times> float64 \<Rightarrow> nat \<Rightarrow> nat option \<times> float64" where
  "bestCarryStep weights q best tid =
    (if weights ! tid \<le> 0 \<or> q_budget q ! tid \<ge> dtThreadQuotaCapPackets then best
     else if q_carry q ! tid > snd best then (Some tid, q_carry q ! tid) else best)"

text \<open>Each pass of the second loop hands out one packet or breaks, so the remaining packets bound it.\<close>

fun grantLeftover :: "float64 list \<Rightarrow> nat list \<Rightarrow> nat \<Rightarrow> quota \<Rightarrow> quota" where
  "grantLeftover weights order 0 q = q"
| "grantLeftover weights order (Suc remaining) q =
    (case fst (foldl (bestCarryStep weights q) (None, - 1) order) of
       None \<Rightarrow> q
     | Some tid \<Rightarrow>
         grantLeftover weights order remaining
           (q\<lparr>q_budget := (q_budget q)[tid := q_budget q ! tid + 1], q_carry := (q_carry q)[tid := 0],
              q_assigned := q_assigned q + 1, q_remaining := q_remaining q - 1\<rparr>))"

definition assignDtWeightedThreadBudgetLocked ::
  "int \<Rightarrow> nat \<Rightarrow> nat \<Rightarrow> dtFaceControlState \<Rightarrow> dtFaceControlState \<times> int" where
  "assignDtWeightedThreadBudgetLocked availablePackets nThreads start c =
    (if availablePackets \<le> 0 \<or> nThreads = 0 then (c, 0)
     else
       let order = rotation start nThreads;
           weights = dtThreadWeights (fc_demandByThread c) nThreads;
           totalWeight = foldl (\<lambda>total tid. total + weights ! tid) 0 order
       in if totalWeight \<le> 0 then (c, 0)
          else
            let q1 = foldl (grantShare availablePackets weights totalWeight)
                  \<lparr>q_budget = fc_budgetByThread c, q_carry = fc_carryByThread c, q_assigned = 0,
                   q_remaining = availablePackets\<rparr> order;
                q2 = grantLeftover weights order (nat (q_remaining q1)) q1
            in (c\<lparr>fc_budgetByThread := q_budget q2, fc_carryByThread := q_carry q2\<rparr>, q_assigned q2))"

definition distributeDtFaceBudgetLocked :: "dtFaceControlState \<Rightarrow> dtFaceControlState" where
  "distributeDtFaceBudgetLocked c0 =
    (let (c1, reclaimedBudget) = reclaimDtThreadBudgetLocked c0;
         grant0 = go_trunc (fc_tokens c1);
         c2 = (if grant0 > 0 then c1\<lparr>fc_tokens := fc_tokens c1 - of_int grant0\<rparr> else c1);
         (c3, grant) = (if grant0 < 1 \<and> fc_livenessForcedPackets c2 > 0
                        then (c2\<lparr>fc_livenessForcedPackets := fc_livenessForcedPackets c2 - 1\<rparr>, 1) else (c2, grant0))
     in if grant \<le> 0 then c3
        else if list_all (\<lambda>demand. demand \<le> 0) (fc_demandByThread c3) then
          clampDtRetainedBudgetLocked (c3\<lparr>fc_tokens := fc_tokens c3 + of_int grant\<rparr>)
        else
          let nThreads = length (fc_demandByThread c3); start = fc_budgetRR c3;
              (c4, assignedPackets) = assignDtWeightedThreadBudgetLocked grant nThreads start c3;
              remaining = grant - assignedPackets;
              c5 = (if remaining > 0 then clampDtRetainedBudgetLocked (c4\<lparr>fc_tokens := fc_tokens c4 + of_int remaining\<rparr>) else c4)
          in c5\<lparr>fc_budgetRR := (start + 1) mod nThreads, fc_budgetRounds := fc_budgetRounds c5 + 1\<rparr>)"

definition clearDtFaceBlockedStateLocked :: "gotime \<Rightarrow> dtFaceControlState \<Rightarrow> dtFaceControlState" where
  "clearDtFaceBlockedStateLocked now c =
    c\<lparr>fc_tokens := 0, fc_lastRefill := now, fc_livenessForcedPackets := 0, fc_starvationZeroSendRounds := 0,
      fc_roundMintedTokens := 0, fc_budgetByThread := map (\<lambda>_. 0) (fc_budgetByThread c),
      fc_carryByThread := map (\<lambda>_. 0) (fc_carryByThread c)\<rparr>"

text \<open>\<open>blocked\<close> is the answer of \<open>dtBlockedFace\<close> for the face.\<close>

definition allocateDtFaceBudgets :: "int \<Rightarrow> bool \<Rightarrow> gotime \<Rightarrow> dtFaceControlState \<Rightarrow> dtFaceControlState" where
  "allocateDtFaceBudgets numThreads blocked now c0 =
    (if \<not> fc_activated c0 \<or> fc_rate c0 \<le> 0 then c0
     else if blocked then clearDtFaceBlockedStateLocked now (ensureDtControlThreadSlotsLocked numThreads c0)
     else
       let c = ensureDtControlThreadSlotsLocked numThreads c0
       in if foldl (+) 0 (fc_demandByThread c) \<le> 0 then
            (clampDtRetainedBudgetLocked (fst (reclaimDtThreadBudgetLocked c)))\<lparr>fc_lastRefill := now\<rparr>
          else distributeDtFaceBudgetLocked (refillDtFaceTokensLocked now c))"

subsection \<open>Bookkeeping\<close>

definition noteDtRoundSchedulerEvent ::
  "int \<Rightarrow> int \<Rightarrow> int \<Rightarrow> int \<Rightarrow> int \<Rightarrow> bool \<Rightarrow> int \<Rightarrow> int \<Rightarrow> dtFaceControlState \<Rightarrow> dtFaceControlState" where
  "noteDtRoundSchedulerEvent numThreads threadID pending granted used zeroBudget emptyBudget sendFail c0 =
    (if threadID < 0 then c0
     else
       let c = ensureDtControlThreadSlotsLocked numThreads c0; tid = nat threadID;
           bump = (\<lambda>b (n :: int) xs. if b then xs[tid := xs ! tid + (of_int n :: u64)] else xs)
       in if tid \<ge> length (fc_roundVisitsByThread c) then c
          else c\<lparr>fc_roundVisitsByThread := bump True 1 (fc_roundVisitsByThread c),
                 fc_roundPendingSumByThread := bump (pending > 0) pending (fc_roundPendingSumByThread c),
                 fc_roundPendingMaxByThread := (if pending > 0 \<and> pending > fc_roundPendingMaxByThread c ! tid
                   then (fc_roundPendingMaxByThread c)[tid := pending] else fc_roundPendingMaxByThread c),
                 fc_roundGrantedByThread := bump (granted > 0) granted (fc_roundGrantedByThread c),
                 fc_roundUsedByThread := bump (used > 0) used (fc_roundUsedByThread c),
                 fc_roundZeroBudgetByThread := bump zeroBudget 1 (fc_roundZeroBudgetByThread c),
                 fc_roundEmptyBudgetByThread := bump (emptyBudget > 0) emptyBudget (fc_roundEmptyBudgetByThread c),
                 fc_roundSendFailByThread := bump (sendFail > 0) sendFail (fc_roundSendFailByThread c)\<rparr>)"

definition noteDtFaceSentPackets :: "int \<Rightarrow> dtFaceControlState \<Rightarrow> dtFaceControlState" where
  "noteDtFaceSentPackets sent c =
    (if sent \<le> 0 then c else c\<lparr>fc_sentCounter := fc_sentCounter c + of_int sent\<rparr>)"

definition activateFace :: "gotime \<Rightarrow> dtFaceControlState \<Rightarrow> dtFaceControlState" where
  "activateFace now control =
    (if \<not> fc_activated control
     then control\<lparr>fc_activated := True, fc_rate := dtFaceInitRate, fc_action := DtActionHoldDraining,
            fc_lastRefill := now, fc_nextRun := 0\<rparr>
     else control)"

definition activateDtFaceRateControl :: "gotime \<Rightarrow> dtFaceControlState \<Rightarrow> dtFaceControlState" where
  "activateDtFaceRateControl now control =
    (if \<not> fc_activated control \<or> fc_rateControlActive control \<or> fc_period control \<le> 0 then control
     else control\<lparr>fc_rateControlActive := True, fc_nextRun := now + fc_period control\<rparr>)"

text \<open>\<open>outTime\<close> is the latest timestamp of the out-record of the face, if the PIT entry has one.\<close>

definition maybeInitDtControlPeriodFromRtt :: "gotime option \<Rightarrow> gotime \<Rightarrow> faceState \<Rightarrow> faceState" where
  "maybeInitDtControlPeriodFromRtt outTime now s =
    (let control = fs_control s
     in if \<not> fc_activated control \<or> fc_rateControlActive control then s
        else case outTime of
               None \<Rightarrow> s
             | Some t \<Rightarrow>
                 let (boot, ready, period, samples) = recordDtRttBootstrapSample (time_sub now t) (fs_bootstrap s);
                     s1 = s\<lparr>fs_bootstrap := boot\<rparr>
                 in if \<not> ready then s1
                    else
                      let s2 = s1\<lparr>fs_control := control\<lparr>fc_period := period\<rparr>\<rparr>
                      in if bw_bootstrapReady (fs_bandwidth s2)
                         then s2\<lparr>fs_control := activateDtFaceRateControl now (fs_control s2)\<rparr> else s2)"

subsection \<open>What a round hands out\<close>

definition quota_ok :: "nat \<Rightarrow> quota \<Rightarrow> bool" where
  "quota_ok n q \<longleftrightarrow> length (q_budget q) = n \<and> length (q_carry q) = n
     \<and> (\<forall>i < n. 0 \<le> q_budget q ! i \<and> q_budget q ! i \<le> 512 \<and> 0 \<le> q_carry q ! i \<and> q_carry q ! i \<le> 1)"

text \<open>The quotas move from \<open>q\<close> to \<open>q'\<close>, spending at most \<open>x\<close>, on threads in \<open>A\<close> only.\<close>

definition spends :: "nat \<Rightarrow> nat set \<Rightarrow> float64 \<Rightarrow> quota \<Rightarrow> quota \<Rightarrow> bool" where
  "spends n A x q q' \<longleftrightarrow> quota_ok n q'
     \<and> q_assigned q \<le> q_assigned q'
     \<and> sum_list (q_budget q') - q_assigned q' = sum_list (q_budget q) - q_assigned q
     \<and> q_assigned q' + q_remaining q' = q_assigned q + q_remaining q
     \<and> of_int (q_assigned q') + sum_list (q_carry q') \<le> of_int (q_assigned q) + sum_list (q_carry q) + x
     \<and> (\<forall>i < n. i \<notin> A \<longrightarrow> q_budget q' ! i = q_budget q ! i)"

lemma spends_trans: "spends n A x q q' \<Longrightarrow> spends n A y q' q'' \<Longrightarrow> spends n A (x + y) q q''"
  by (auto simp: spends_def)

lemma spends_refl: "quota_ok n q \<Longrightarrow> 0 \<le> x \<Longrightarrow> spends n A x q q"
  by (simp add: spends_def)

lemma sum_list_put: "i < length xs \<Longrightarrow> sum_list (xs[i := v]) = sum_list xs - xs ! i + v" for v :: "'a :: ab_group_add"
  by (induction xs arbitrary: i) (auto simp: nth_Cons algebra_simps split: nat.split)

lemma quota_ok_put:
  assumes "quota_ok n q" "tid < n" "0 \<le> b" "b \<le> 512" "0 \<le> x" "x \<le> 1"
  shows "quota_ok n (q\<lparr>q_budget := (q_budget q)[tid := b], q_carry := (q_carry q)[tid := x], q_assigned := a, q_remaining := r\<rparr>)"
  using assms by (auto simp: quota_ok_def nth_list_update)

lemma spends_put:
  assumes "quota_ok n q" "tid < n" "tid \<in> A" "0 \<le> g" "q_budget q ! tid + g \<le> 512" "0 \<le> x" "x \<le> 1"
    and "of_int g + x \<le> q_carry q ! tid + y"
  shows "spends n A y q (q\<lparr>q_budget := (q_budget q)[tid := q_budget q ! tid + g], q_carry := (q_carry q)[tid := x],
      q_assigned := q_assigned q + g, q_remaining := q_remaining q - g\<rparr>)"
proof -
  have q: "0 \<le> q_budget q ! tid" "tid < length (q_budget q)" "tid < length (q_carry q)"
    using assms(1,2) by (auto simp: quota_ok_def)
  have "quota_ok n (q\<lparr>q_budget := (q_budget q)[tid := q_budget q ! tid + g], q_carry := (q_carry q)[tid := x],
      q_assigned := q_assigned q + g, q_remaining := q_remaining q - g\<rparr>)"
    using assms q by (intro quota_ok_put) auto
  then show ?thesis using assms(3,4,8) q by (auto simp: spends_def sum_list_put nth_list_update)
qed

lemma grantShare_spends:
  assumes ok: "quota_ok n q" and tid: "tid < n" "0 \<le> weights ! tid" and "0 < available" "0 < totalWeight"
  shows "spends n {i. 0 < weights ! i} (of_int available * (weights ! tid / totalWeight)) q
    (grantShare available weights totalWeight q tid)"
proof (cases "weights ! tid \<le> 0")
  case True
  then show ?thesis using ok tid by (simp add: grantShare_def spends_refl)
next
  case False
  define y where "y = of_int available * (weights ! tid / totalWeight)"
  define share where "share = y + q_carry q ! tid"
  have c: "0 \<le> q_carry q ! tid" "0 \<le> q_budget q ! tid" "q_budget q ! tid \<le> 512" using ok tid by (auto simp: quota_ok_def)
  have "0 \<le> y" using assms False by (simp add: y_def)
  then have share: "0 \<le> share" "0 \<le> \<lfloor>share\<rfloor>" using c by (simp_all add: share_def)
  have f: "0 \<le> share - of_int \<lfloor>share\<rfloor>" "share - of_int \<lfloor>share\<rfloor> \<le> 1" "\<not> 1 < share - of_int \<lfloor>share\<rfloor>" by linarith+
  let ?put = "\<lambda>g. q\<lparr>q_budget := (q_budget q)[tid := q_budget q ! tid + g], q_carry := (q_carry q)[tid := share - of_int \<lfloor>share\<rfloor>],
      q_assigned := q_assigned q + g, q_remaining := q_remaining q - g\<rparr>"
  obtain g where g: "grantShare available weights totalWeight q tid = ?put g" "0 \<le> g" "g \<le> \<lfloor>share\<rfloor>" "q_budget q ! tid + g \<le> 512"
  proof
    let ?g = "if 512 - q_budget q ! tid \<le> 0 \<or> \<lfloor>share\<rfloor> \<le> 0 then 0 else min \<lfloor>share\<rfloor> (512 - q_budget q ! tid)"
    show "grantShare available weights totalWeight q tid = ?put ?g"
      unfolding grantShare_def Let_def y_def [symmetric] share_def [symmetric] using False f(3)
      by (auto simp: dtThreadQuotaCapPackets_def dtThreadQuotaCarryCapPackets_def min_def)
  qed (use share(2) c in auto)
  have "spends n {i. 0 < weights ! i} y q (?put g)"
    using ok tid False g(2-4) f by (intro spends_put) (auto simp: share_def)
  then show ?thesis using g(1) by (simp add: y_def)
qed

lemma foldl_spends:
  assumes "0 < available" "0 < totalWeight"
  shows "quota_ok n q \<Longrightarrow> \<forall>tid \<in> set order. tid < n \<and> 0 \<le> weights ! tid \<Longrightarrow>
    spends n {i. 0 < weights ! i} (of_int available * (sum_list (map (\<lambda>tid. weights ! tid) order) / totalWeight)) q
      (foldl (grantShare available weights totalWeight) q order)"
proof (induction order arbitrary: q)
  case (Cons tid order)
  let ?q = "grantShare available weights totalWeight q tid"
  have s: "spends n {i. 0 < weights ! i} (of_int available * (weights ! tid / totalWeight)) q ?q"
    using Cons.prems assms by (intro grantShare_spends) auto
  then have "quota_ok n ?q" by (simp add: spends_def)
  then have "spends n {i. 0 < weights ! i} (of_int available * (sum_list (map (\<lambda>tid. weights ! tid) order) / totalWeight)) ?q
      (foldl (grantShare available weights totalWeight) ?q order)" using Cons by simp
  from spends_trans [OF s this] show ?case by (simp add: add_divide_distrib distrib_left)
qed (simp add: spends_refl)

lemma bestCarry_some:
  assumes "fst (foldl (bestCarryStep weights q) best order) = Some tid"
  shows "fst best = Some tid \<or> tid \<in> set order \<and> 0 < weights ! tid \<and> q_budget q ! tid < 512"
  using assms
  by (induction order arbitrary: best)
    (fastforce simp: bestCarryStep_def dtThreadQuotaCapPackets_def split: if_splits)+

lemma grantLeftover_spends:
  assumes "\<forall>tid \<in> set order. tid < n"
  shows "quota_ok n q \<Longrightarrow> spends n {i. 0 < weights ! i} (of_nat k) q (grantLeftover weights order k q)
    \<and> q_assigned (grantLeftover weights order k q) \<le> q_assigned q + int k"
proof (induction k arbitrary: q)
  case (Suc k)
  show ?case
  proof (cases "fst (foldl (bestCarryStep weights q) (None, - 1) order)")
    case None
    then show ?thesis using Suc.prems by (simp add: spends_refl)
  next
    case (Some tid)
    let ?q = "q\<lparr>q_budget := (q_budget q)[tid := q_budget q ! tid + 1], q_carry := (q_carry q)[tid := 0],
              q_assigned := q_assigned q + 1, q_remaining := q_remaining q - 1\<rparr>"
    have b: "tid < n" "0 < weights ! tid" "q_budget q ! tid < 512" using bestCarry_some [OF Some] assms by auto
    have "0 \<le> q_carry q ! tid" using Suc.prems b by (simp add: quota_ok_def)
    then have s: "spends n {i. 0 < weights ! i} 1 q ?q"
      using spends_put [OF Suc.prems b(1), of _ 1 0 1] b by simp
    then have "quota_ok n ?q" by (simp add: spends_def)
    from Suc.IH [OF this] spends_trans [OF s] show ?thesis using Some by auto
  qed
qed (simp add: spends_refl)

lemma foldl_weights: "foldl (\<lambda>total tid. total + weights ! tid) x order = x + sum_list (map (\<lambda>tid. weights ! tid) order)"
  for x :: float64
  by (induction order arbitrary: x) (simp_all add: add.assoc)

lemma rotation_less: "0 < n \<Longrightarrow> \<forall>tid \<in> set (rotation start n). tid < n"
  by (auto simp: rotation_def)

lemma weights_nth: "i < n \<Longrightarrow> dtThreadWeights demands n ! i = (if demands ! i \<le> 0 then 0 else 1 + of_int (demands ! i))"
  by (simp add: dtThreadWeights_def dtThreadActiveBaseWeight_def)

text \<open>Budgets of a face: one slot per thread, and the budgets and carries in their ranges.\<close>

definition budgets_ok :: "nat \<Rightarrow> dtFaceControlState \<Rightarrow> bool" where
  "budgets_ok n c \<longleftrightarrow> 0 < n \<and> length (fc_demandByThread c) = n
     \<and> quota_ok n \<lparr>q_budget = fc_budgetByThread c, q_carry = fc_carryByThread c, q_assigned = 0, q_remaining = 0\<rparr>
     \<and> 0 \<le> fc_tokens c \<and> fc_tokens c \<le> 64 \<and> 0 \<le> fc_livenessForcedPackets c"

lemma quota_ok_fields: "quota_ok n q \<longleftrightarrow>
    quota_ok n \<lparr>q_budget = q_budget q, q_carry = q_carry q, q_assigned = a, q_remaining = r\<rparr>"
  by (simp add: quota_ok_def)

lemma assign_bounds:
  assumes ok: "budgets_ok n c" and avail: "0 < available"
    and eq: "assignDtWeightedThreadBudgetLocked available n start c = (c', assigned)"
  obtains B C where "c' = c\<lparr>fc_budgetByThread := B, fc_carryByThread := C\<rparr>"
    "quota_ok n \<lparr>q_budget = B, q_carry = C, q_assigned = 0, q_remaining = 0\<rparr>" "0 \<le> assigned"
    "sum_list B = sum_list (fc_budgetByThread c) + assigned"
    "of_int assigned \<le> of_int available + sum_list (fc_carryByThread c)"
    "\<forall>i < n. fc_demandByThread c ! i \<le> 0 \<longrightarrow> B ! i = fc_budgetByThread c ! i"
proof -
  let ?w = "dtThreadWeights (fc_demandByThread c) n" and ?order = "rotation start n"
  let ?q0 = "\<lparr>q_budget = fc_budgetByThread c, q_carry = fc_carryByThread c, q_assigned = 0, q_remaining = available\<rparr>"
  define W where "W = sum_list (map (\<lambda>tid. ?w ! tid) ?order)"
  have n: "0 < n" and q0: "quota_ok n ?q0" using ok by (auto simp: budgets_ok_def quota_ok_def)
  have C0: "0 \<le> sum_list (fc_carryByThread c)"
    using q0 by (intro sum_list_nonneg) (auto simp: quota_ok_def in_set_conv_nth)
  show thesis
  proof (cases "W \<le> 0")
    case True
    then have "c' = c \<and> assigned = 0"
      using eq n avail by (simp add: assignDtWeightedThreadBudgetLocked_def foldl_weights W_def)
    then show thesis
      using that [of "fc_carryByThread c" "fc_budgetByThread c"] ok avail C0 by (auto simp: budgets_ok_def)
  next
    case False
    define q1 where "q1 = foldl (grantShare available ?w W) ?q0 ?order"
    define q2 where "q2 = grantLeftover ?w ?order (nat (q_remaining q1)) q1"
    have order: "\<forall>tid \<in> set ?order. tid < n \<and> 0 \<le> ?w ! tid" using rotation_less [OF n, of start] by (simp add: weights_nth)
    have s1: "spends n {i. 0 < ?w ! i} (of_int available) ?q0 q1"
      using foldl_spends [OF avail _ q0 order, of W] False by (simp add: q1_def W_def [symmetric])
    then have q1: "quota_ok n q1" "q_assigned q1 + q_remaining q1 = available"
      "of_int (q_assigned q1) + sum_list (q_carry q1) \<le> of_int available + sum_list (fc_carryByThread c)"
      by (auto simp: spends_def)
    have "0 \<le> sum_list (q_carry q1)" using q1(1) by (intro sum_list_nonneg) (auto simp: quota_ok_def in_set_conv_nth)
    then have a1: "of_int (q_assigned q1) \<le> of_int available + sum_list (fc_carryByThread c)" using q1(3) by linarith
    note s2 = grantLeftover_spends [of ?order n q1 ?w "nat (q_remaining q1)", folded q2_def, OF _ q1(1)]
    have s2': "spends n {i. 0 < ?w ! i} (of_nat (nat (q_remaining q1))) q1 q2" "q_assigned q2 \<le> q_assigned q1 + int (nat (q_remaining q1))"
      using s2 order by auto
    have all: "spends n {i. 0 < ?w ! i} (of_int available + of_nat (nat (q_remaining q1))) ?q0 q2"
      using s1 s2'(1) by (rule spends_trans)
    have res: "c' = c\<lparr>fc_budgetByThread := q_budget q2, fc_carryByThread := q_carry q2\<rparr>" "assigned = q_assigned q2"
      using eq n avail False
      by (auto simp: assignDtWeightedThreadBudgetLocked_def foldl_weights W_def [symmetric] q1_def [symmetric] q2_def [symmetric])
    have "of_int (q_assigned q2) \<le> of_int available + sum_list (fc_carryByThread c)"
    proof (cases "0 \<le> q_remaining q1")
      case True
      then have "q_assigned q2 \<le> available" using s2'(2) q1(2) by linarith
      then have "(of_int (q_assigned q2) :: real) \<le> of_int available" by simp
      then show ?thesis using C0 by linarith
    next
      case False
      then have "q_assigned q2 \<le> q_assigned q1" using s2'(2) by simp
      then have "(of_int (q_assigned q2) :: real) \<le> of_int (q_assigned q1)" by simp
      then show ?thesis using a1 by linarith
    qed
    moreover have "quota_ok n \<lparr>q_budget = q_budget q2, q_carry = q_carry q2, q_assigned = 0, q_remaining = 0\<rparr>"
      using all by (simp add: spends_def quota_ok_def)
    moreover have "\<forall>i<n. fc_demandByThread c ! i \<le> 0 \<longrightarrow> q_budget q2 ! i = fc_budgetByThread c ! i"
      using all by (auto simp: spends_def weights_nth)
    moreover have "0 \<le> q_assigned q2" "sum_list (q_budget q2) = sum_list (fc_budgetByThread c) + q_assigned q2"
      using all by (auto simp: spends_def)
    ultimately show thesis using res by (intro that) auto
  qed
qed

lemma foldl_sum: "foldl (+) x xs = x + sum_list xs" for x :: "'a :: comm_monoid_add"
  by (induction xs arbitrary: x) (simp_all add: add.assoc)

definition purse :: "dtFaceControlState \<Rightarrow> float64" where
  "purse c = fc_tokens c + of_int (sum_list (fc_budgetByThread c))"

lemma clamp_ok: "0 \<le> fc_tokens (clampDtRetainedBudgetLocked c) \<longleftrightarrow> 0 \<le> fc_tokens c" "fc_tokens (clampDtRetainedBudgetLocked c) \<le> fc_tokens c"
    "fc_tokens (clampDtRetainedBudgetLocked c) \<le> 1"
    "clampDtRetainedBudgetLocked c = c\<lparr>fc_tokens := fc_tokens (clampDtRetainedBudgetLocked c)\<rparr>"
  by (auto simp: clampDtRetainedBudgetLocked_def dtRetainedBudgetCapPackets_def)

lemma budgets_nonneg: "budgets_ok n c \<Longrightarrow> 0 \<le> sum_list (fc_budgetByThread c)"
  by (rule sum_list_nonneg) (auto simp: budgets_ok_def quota_ok_def in_set_conv_nth)

lemma budgets_ok_tokens: "budgets_ok n c \<Longrightarrow> 0 \<le> x \<Longrightarrow> x \<le> 64 \<Longrightarrow> budgets_ok n (c\<lparr>fc_tokens := x\<rparr>)"
  by (simp add: budgets_ok_def)

lemma reclaim_ok:
  assumes "budgets_ok n c" "reclaimDtThreadBudgetLocked c = (c', leftover)"
  obtains x where "c' = c\<lparr>fc_budgetByThread := replicate n 0, fc_tokens := x\<rparr>" "0 \<le> x" "x \<le> 64" "x \<le> purse c" "budgets_ok n c'"
proof -
  have len: "length (fc_budgetByThread c) = n" using assms(1) by (simp add: budgets_ok_def quota_ok_def)
  have nn: "0 \<le> sum_list (fc_budgetByThread c)" by (rule budgets_nonneg [OF assms(1)])
  define x where "x = fc_tokens c'"
  have c': "c' = c\<lparr>fc_budgetByThread := replicate n 0, fc_tokens := x\<rparr>"
    using assms(2) len unfolding x_def
    by (auto simp: reclaimDtThreadBudgetLocked_def Let_def clampDtRetainedBudgetLocked_def map_replicate_const split: if_splits)
  have x: "0 \<le> x" "x \<le> 64" "x \<le> purse c"
    using assms nn unfolding x_def purse_def
    by (auto simp: reclaimDtThreadBudgetLocked_def Let_def clampDtRetainedBudgetLocked_def dtRetainedBudgetCapPackets_def
        foldl_sum budgets_ok_def split: if_splits)
  then have "budgets_ok n c'" using assms(1) unfolding c' by (simp add: budgets_ok_def quota_ok_def)
  then show thesis using that c' x by blast
qed

definition idle_unfunded :: "nat \<Rightarrow> dtFaceControlState \<Rightarrow> bool" where
  "idle_unfunded n c \<longleftrightarrow> (\<forall>i < n. fc_demandByThread c ! i \<le> 0 \<longrightarrow> fc_budgetByThread c ! i = 0)"

lemma distribute_step:
  assumes ok: "budgets_ok n c"
  obtains c3 g where
    "distributeDtFaceBudgetLocked c = (if g \<le> 0 then c3
      else if list_all (\<lambda>demand. demand \<le> 0) (fc_demandByThread c3) then clampDtRetainedBudgetLocked (c3\<lparr>fc_tokens := fc_tokens c3 + of_int g\<rparr>)
      else let (c4, a) = assignDtWeightedThreadBudgetLocked g n (fc_budgetRR c3) c3;
               c5 = (if g - a > 0 then clampDtRetainedBudgetLocked (c4\<lparr>fc_tokens := fc_tokens c4 + of_int (g - a)\<rparr>) else c4)
           in c5\<lparr>fc_budgetRR := (fc_budgetRR c3 + 1) mod n, fc_budgetRounds := fc_budgetRounds c5 + 1\<rparr>)"
    "budgets_ok n c3" "fc_budgetByThread c3 = replicate n 0" "fc_carryByThread c3 = fc_carryByThread c" "fc_demandByThread c3 = fc_demandByThread c"
    "fc_tokens c3 < 1" "fc_livenessForcedPackets c3 \<le> fc_livenessForcedPackets c"
    "max 0 (of_int g) + fc_tokens c3 \<le> purse c + of_int (fc_livenessForcedPackets c - fc_livenessForcedPackets c3)"
proof -
  obtain c1 lo where r: "reclaimDtThreadBudgetLocked c = (c1, lo)" by fastforce
  obtain x where c1: "c1 = c\<lparr>fc_budgetByThread := replicate n 0, fc_tokens := x\<rparr>" "0 \<le> x" "x \<le> 64" "x \<le> purse c"
    and ok1: "budgets_ok n c1" by (rule reclaim_ok [OF ok r])
  define g0 where "g0 = \<lfloor>x\<rfloor>"
  have g0: "go_trunc (fc_tokens c1) = g0" "0 \<le> g0" "of_int g0 \<le> x" "x < of_int g0 + 1"
    using c1(2) by (auto simp: g0_def c1(1) go_trunc_def)
  define fr where "fr = (g0 < 1 \<and> fc_livenessForcedPackets c > 0)"
  define g where "g = (if fr then 1 else g0)"
  define k where "k = fc_livenessForcedPackets c - (if fr then 1 else 0)"
  define c3 where "c3 = c1\<lparr>fc_tokens := x - of_int g0, fc_livenessForcedPackets := k\<rparr>"
  have ok3: "budgets_ok n c3" using ok1 ok c1 g0 by (auto simp: c3_def budgets_ok_def k_def fr_def)
  have len: "length (fc_demandByThread c3) = n" using ok3 by (simp add: budgets_ok_def)
  let ?c2 = "if g0 > 0 then c1\<lparr>fc_tokens := fc_tokens c1 - of_int g0\<rparr> else c1"
  have pair: "(if g0 < 1 \<and> fc_livenessForcedPackets ?c2 > 0
       then (?c2\<lparr>fc_livenessForcedPackets := fc_livenessForcedPackets ?c2 - 1\<rparr>, 1) else (?c2, g0)) = (c3, g)"
    using g0(2) by (auto simp: c3_def g_def k_def fr_def c1(1))
  show thesis
  proof (rule that [of g c3])
    show "distributeDtFaceBudgetLocked c = (if g \<le> 0 then c3
      else if list_all (\<lambda>demand. demand \<le> 0) (fc_demandByThread c3) then clampDtRetainedBudgetLocked (c3\<lparr>fc_tokens := fc_tokens c3 + of_int g\<rparr>)
      else let (c4, a) = assignDtWeightedThreadBudgetLocked g n (fc_budgetRR c3) c3;
               c5 = (if g - a > 0 then clampDtRetainedBudgetLocked (c4\<lparr>fc_tokens := fc_tokens c4 + of_int (g - a)\<rparr>) else c4)
           in c5\<lparr>fc_budgetRR := (fc_budgetRR c3 + 1) mod n, fc_budgetRounds := fc_budgetRounds c5 + 1\<rparr>)"
      using len unfolding distributeDtFaceBudgetLocked_def r Let_def prod.case g0(1) pair by (simp split: prod.split)
    show "max 0 (of_int g) + fc_tokens c3 \<le> purse c + of_int (fc_livenessForcedPackets c - fc_livenessForcedPackets c3)"
      using c1(4) g0 by (auto simp: g_def k_def fr_def c3_def)
  qed (use ok3 g0 in \<open>auto simp: c3_def c1(1) k_def\<close>)
qed

lemma distribute_ok:
  assumes ok: "budgets_ok n c" and c': "c' = distributeDtFaceBudgetLocked c"
  shows "budgets_ok n c' \<and> idle_unfunded n c'
    \<and> purse c' \<le> purse c + of_int (fc_livenessForcedPackets c - fc_livenessForcedPackets c') + sum_list (fc_carryByThread c)"
proof -
  have C0: "0 \<le> sum_list (fc_carryByThread c)"
    using ok by (intro sum_list_nonneg) (auto simp: budgets_ok_def quota_ok_def in_set_conv_nth)
  obtain c3 g where st: "distributeDtFaceBudgetLocked c = (if g \<le> 0 then c3
      else if list_all (\<lambda>demand. demand \<le> 0) (fc_demandByThread c3) then clampDtRetainedBudgetLocked (c3\<lparr>fc_tokens := fc_tokens c3 + of_int g\<rparr>)
      else let (c4, a) = assignDtWeightedThreadBudgetLocked g n (fc_budgetRR c3) c3;
               c5 = (if g - a > 0 then clampDtRetainedBudgetLocked (c4\<lparr>fc_tokens := fc_tokens c4 + of_int (g - a)\<rparr>) else c4)
           in c5\<lparr>fc_budgetRR := (fc_budgetRR c3 + 1) mod n, fc_budgetRounds := fc_budgetRounds c5 + 1\<rparr>)"
    and ok3: "budgets_ok n c3" and B: "fc_budgetByThread c3 = replicate n 0" "fc_carryByThread c3 = fc_carryByThread c"
      "fc_demandByThread c3 = fc_demandByThread c"
    and fr: "fc_livenessForcedPackets c3 \<le> fc_livenessForcedPackets c"
    and P: "max 0 (of_int g) + fc_tokens c3 \<le> purse c + of_int (fc_livenessForcedPackets c - fc_livenessForcedPackets c3)"
    by (rule distribute_step [OF ok])
  have t3: "0 \<le> fc_tokens c3" "fc_tokens c3 \<le> 64" using ok3 by (auto simp: budgets_ok_def)
  show ?thesis
  proof (cases "g \<le> 0 \<or> list_all (\<lambda>demand. demand \<le> 0) (fc_demandByThread c3)")
    case True
    obtain y where y: "c' = c3\<lparr>fc_tokens := y\<rparr>" "0 \<le> y" "y \<le> 64" "y \<le> max 0 (of_int g) + fc_tokens c3"
    proof
      show "c' = c3\<lparr>fc_tokens := fc_tokens c'\<rparr>" "0 \<le> fc_tokens c'" "fc_tokens c' \<le> 64" "fc_tokens c' \<le> max 0 (of_int g) + fc_tokens c3"
        using True t3 unfolding c' st by (auto simp: clampDtRetainedBudgetLocked_def dtRetainedBudgetCapPackets_def split: if_splits)
    qed
    then show ?thesis
      using ok3 B P C0 by (auto simp: budgets_ok_def idle_unfunded_def purse_def sum_list_replicate)
  next
    case False
    then have g: "0 < g" by simp
    obtain c4 a where as: "assignDtWeightedThreadBudgetLocked g n (fc_budgetRR c3) c3 = (c4, a)" by fastforce
    obtain Bu Ca where c4: "c4 = c3\<lparr>fc_budgetByThread := Bu, fc_carryByThread := Ca\<rparr>"
      "quota_ok n \<lparr>q_budget = Bu, q_carry = Ca, q_assigned = 0, q_remaining = 0\<rparr>" "0 \<le> a"
      "sum_list Bu = sum_list (fc_budgetByThread c3) + a" "of_int a \<le> of_int g + sum_list (fc_carryByThread c3)"
      "\<forall>i < n. fc_demandByThread c3 ! i \<le> 0 \<longrightarrow> Bu ! i = fc_budgetByThread c3 ! i"
      by (rule assign_bounds [OF ok3 g as])
    obtain y r m where y: "c' = c4\<lparr>fc_tokens := y, fc_budgetRR := r, fc_budgetRounds := m\<rparr>" "0 \<le> y" "y \<le> 64" "y \<le> fc_tokens c3 + max 0 (of_int (g - a))"
    proof
      show "c' = c4\<lparr>fc_tokens := fc_tokens c', fc_budgetRR := fc_budgetRR c', fc_budgetRounds := fc_budgetRounds c'\<rparr>"
        "0 \<le> fc_tokens c'" "fc_tokens c' \<le> 64" "fc_tokens c' \<le> fc_tokens c3 + max 0 (of_int (g - a))"
        using False t3 unfolding c' st as Let_def prod.case
        by (auto simp: clampDtRetainedBudgetLocked_def dtRetainedBudgetCapPackets_def c4(1) split: if_splits)
    qed
    have "budgets_ok n c'" using ok3 c4(1,2) y by (auto simp: budgets_ok_def quota_ok_def)
    moreover have "idle_unfunded n c'" using c4(1,6) y(1) B by (auto simp: idle_unfunded_def)
    moreover have "purse c' \<le> purse c + of_int (fc_livenessForcedPackets c - fc_livenessForcedPackets c') + sum_list (fc_carryByThread c)"
      using y(1,4) c4 B P g C0 by (auto simp: purse_def sum_list_replicate max_def split: if_splits)
    ultimately show ?thesis by blast
  qed
qed


subsection \<open>One allocation round\<close>

definition threadSlots :: "int \<Rightarrow> nat" where
  "threadSlots numThreads = nat (if numThreads \<le> 0 then 1 else numThreads)"

text \<open>The slots are made on first use, so the invariant speaks of the state with its slots.\<close>

definition face_ok :: "int \<Rightarrow> dtFaceControlState \<Rightarrow> bool" where
  "face_ok numThreads c \<longleftrightarrow> budgets_ok (threadSlots numThreads) (ensureDtControlThreadSlotsLocked numThreads c)"

lemma padTo_padTo [simp]: "padTo n z (padTo n z xs) = padTo n z xs"
  by (simp add: padTo_def)

lemma sum_list_zeros: "sum_list (replicate k 0) = (0 :: 'a :: monoid_add)"
  by (induction k) simp_all

lemma sum_list_padTo [simp]: "sum_list (padTo n 0 xs) = sum_list xs" for xs :: "'a :: monoid_add list"
  by (simp add: padTo_def sum_list_zeros)

lemma ensure_idem [simp]:
  "ensureDtControlThreadSlotsLocked n (ensureDtControlThreadSlotsLocked n c) = ensureDtControlThreadSlotsLocked n c"
  by (simp add: ensureDtControlThreadSlotsLocked_def Let_def)

lemma ensure_frame [simp]:
  "purse (ensureDtControlThreadSlotsLocked n c) = purse c"
  "fc_tokens (ensureDtControlThreadSlotsLocked n c) = fc_tokens c"
  "fc_lastRefill (ensureDtControlThreadSlotsLocked n c) = fc_lastRefill c"
  "fc_livenessForcedPackets (ensureDtControlThreadSlotsLocked n c) = fc_livenessForcedPackets c"
  "sum_list (fc_carryByThread (ensureDtControlThreadSlotsLocked n c)) = sum_list (fc_carryByThread c)"
  by (simp_all add: ensureDtControlThreadSlotsLocked_def Let_def purse_def)

lemma ensure_fixed:
  assumes "budgets_ok (threadSlots numThreads) c"
  shows "fc_demandByThread (ensureDtControlThreadSlotsLocked numThreads c) = fc_demandByThread c"
    "fc_budgetByThread (ensureDtControlThreadSlotsLocked numThreads c) = fc_budgetByThread c"
    "fc_carryByThread (ensureDtControlThreadSlotsLocked numThreads c) = fc_carryByThread c"
  using assms
  by (simp_all add: ensureDtControlThreadSlotsLocked_def Let_def budgets_ok_def quota_ok_def threadSlots_def padTo_def)

lemma face_ok_ensured: "budgets_ok (threadSlots numThreads) c \<Longrightarrow> face_ok numThreads c"
  using ensure_fixed [of numThreads c] by (simp add: face_ok_def budgets_ok_def)

definition earned :: "gotime \<Rightarrow> dtFaceControlState \<Rightarrow> float64" where
  "earned now c = (if isZero (fc_lastRefill c) then 0
     else max 0 (seconds (time_sub now (fc_lastRefill c))) * fc_rate c)"

lemma refill_ok:
  assumes "budgets_ok n c" "0 < fc_rate c"
  shows "budgets_ok n (refillDtFaceTokensLocked now c)"
    "purse (refillDtFaceTokensLocked now c) \<le> purse c + earned now c"
    "fc_livenessForcedPackets (refillDtFaceTokensLocked now c) = fc_livenessForcedPackets c"
    "fc_carryByThread (refillDtFaceTokensLocked now c) = fc_carryByThread c"
proof -
  define m where "m = (if seconds (time_sub now (if isZero (fc_lastRefill c) then now else fc_lastRefill c)) < 0 then 0
    else seconds (time_sub now (if isZero (fc_lastRefill c) then now else fc_lastRefill c))) * fc_rate c"
  have m: "0 \<le> m" "m = earned now c" using assms(2) by (auto simp: m_def earned_def max_def seconds_def time_sub_self)
  obtain l t where r: "refillDtFaceTokensLocked now c = c\<lparr>fc_tokens := min 64 (fc_tokens c + m), fc_roundMintedTokens := t, fc_lastRefill := l\<rparr>"
    by (rule that [of now "fc_roundMintedTokens c + m"])
      (auto simp: refillDtFaceTokensLocked_def Let_def m_def dtFaceTokenBurstCapPackets_def min_def)
  show "budgets_ok n (refillDtFaceTokensLocked now c)" "purse (refillDtFaceTokensLocked now c) \<le> purse c + earned now c"
    "fc_livenessForcedPackets (refillDtFaceTokensLocked now c) = fc_livenessForcedPackets c"
    "fc_carryByThread (refillDtFaceTokensLocked now c) = fc_carryByThread c"
    unfolding r using assms m by (auto simp: budgets_ok_def purse_def)
qed

lemma idle_ok:
  assumes "budgets_ok n c" and c': "c' = (clampDtRetainedBudgetLocked (fst (reclaimDtThreadBudgetLocked c)))\<lparr>fc_lastRefill := now\<rparr>"
  shows "budgets_ok n c' \<and> idle_unfunded n c' \<and> purse c' \<le> purse c \<and> fc_livenessForcedPackets c' = fc_livenessForcedPackets c"
proof -
  obtain c1 lo where r: "reclaimDtThreadBudgetLocked c = (c1, lo)" by fastforce
  obtain x where c1: "c1 = c\<lparr>fc_budgetByThread := replicate n 0, fc_tokens := x\<rparr>" "0 \<le> x" "x \<le> 64" "x \<le> purse c" "budgets_ok n c1"
    by (rule reclaim_ok [OF assms(1) r])
  have c'': "c' = c1\<lparr>fc_tokens := min 1 x, fc_lastRefill := now\<rparr>"
    unfolding c' r by (auto simp: clampDtRetainedBudgetLocked_def dtRetainedBudgetCapPackets_def c1(1) min_def)
  show ?thesis unfolding c'' using c1 by (auto simp: budgets_ok_def idle_unfunded_def purse_def sum_list_zeros)
qed

lemma blocked_ok:
  assumes "budgets_ok n c" and c': "c' = clearDtFaceBlockedStateLocked now c"
  shows "budgets_ok n c' \<and> idle_unfunded n c' \<and> purse c' = 0 \<and> fc_livenessForcedPackets c' = 0"
  using assms(1) unfolding c'
  by (auto simp: clearDtFaceBlockedStateLocked_def budgets_ok_def quota_ok_def idle_unfunded_def purse_def map_replicate_const sum_list_zeros)

text \<open>
  (C8) An allocation round of a face.  It keeps the budgets within their ranges (at most 512 packets
  a thread, at most 64 tokens, carries of at most one packet), leaves no budget with a thread that
  has nothing queued, and withdraws everything from a face that is blocked.  The tokens and
  budgets afterwards are at most those before, what the rate earned since the last refill, the liveness
  packets spent and the carried fractions: the last summand is real, because the carries are
  added to shares that already sum up to the grant.
\<close>

theorem thread_budget_allocation:
  assumes "face_ok numThreads c" "c' = allocateDtFaceBudgets numThreads blocked now c"
  shows "face_ok numThreads c'
    \<and> (fc_activated c \<and> 0 < fc_rate c \<longrightarrow> idle_unfunded (threadSlots numThreads) c' \<and> (blocked \<longrightarrow> purse c' = 0))
    \<and> purse c' \<le> purse c + max 0 (earned now c)
        + of_int (fc_livenessForcedPackets c - fc_livenessForcedPackets c') + sum_list (fc_carryByThread c)"
proof -
  let ?e = "ensureDtControlThreadSlotsLocked numThreads c" and ?n = "threadSlots numThreads"
  have ok: "budgets_ok ?n ?e" using assms(1) by (simp add: face_ok_def)
  have C0: "0 \<le> sum_list (fc_carryByThread ?e)" and f0: "0 \<le> fc_livenessForcedPackets ?e" and p0: "0 \<le> purse ?e"
    using ok budgets_nonneg [OF ok]
    by (auto simp: budgets_ok_def quota_ok_def in_set_conv_nth purse_def intro!: sum_list_nonneg simp del: ensure_frame)
  consider "\<not> fc_activated c \<or> fc_rate c \<le> 0" | "fc_activated c" "0 < fc_rate c" "blocked"
    | "fc_activated c" "0 < fc_rate c" "\<not> blocked" "foldl (+) 0 (fc_demandByThread ?e) \<le> 0"
    | "fc_activated c" "0 < fc_rate c" "\<not> blocked" "\<not> foldl (+) 0 (fc_demandByThread ?e) \<le> 0" by linarith
  then show ?thesis
  proof cases
    case 1
    then have "c' = c" using assms(2) by (auto simp: allocateDtFaceBudgets_def)
    then show ?thesis using 1 assms(1) C0 by auto
  next
    case 2
    then have "c' = clearDtFaceBlockedStateLocked now ?e" using assms(2) by (simp add: allocateDtFaceBudgets_def)
    from blocked_ok [OF ok this] show ?thesis using 2 C0 f0 p0 by (auto intro: face_ok_ensured)
  next
    case 3
    then have "c' = (clampDtRetainedBudgetLocked (fst (reclaimDtThreadBudgetLocked ?e)))\<lparr>fc_lastRefill := now\<rparr>"
      using assms(2) by (simp add: allocateDtFaceBudgets_def)
    from idle_ok [OF ok this] show ?thesis using 3 C0 by (auto intro: face_ok_ensured)
  next
    case 4
    let ?r = "refillDtFaceTokensLocked now ?e"
    note r = refill_ok [OF ok, of now]
    have "c' = distributeDtFaceBudgetLocked ?r" using 4 assms(2) by (simp add: allocateDtFaceBudgets_def)
    from distribute_ok [OF r(1) this] show ?thesis using 4 r by (auto intro: face_ok_ensured simp: earned_def)
  qed
qed

definition demoBudget :: dtFaceControlState where
  "demoBudget = zeroControl\<lparr>fc_activated := True, fc_rate := 100, fc_lastRefill := 5, fc_demandByThread := [3, 0],
     fc_budgetByThread := [0, 0], fc_carryByThread := [0, 0]\<rparr>"

theorem thread_budget_allocation_witness:
  "purse (allocateDtFaceBudgets 2 False (5 + 20 * millisecond) demoBudget) \<le> 2
   \<and> idle_unfunded 2 (allocateDtFaceBudgets 2 False (5 + 20 * millisecond) demoBudget)"
proof -
  let ?c = "allocateDtFaceBudgets 2 False (5 + 20 * millisecond) demoBudget"
  have ok: "face_ok 2 demoBudget"
    by (simp add: face_ok_def budgets_ok_def quota_ok_def demoBudget_def threadSlots_def ensureDtControlThreadSlotsLocked_def
        padTo_def zeroControl_def nth_Cons' numeral_2_eq_2 less_Suc_eq all_conj_distrib)
  have f: "fc_livenessForcedPackets demoBudget = 0" "fc_carryByThread demoBudget = [0, 0]" "purse demoBudget = 0"
    "earned (5 + 20 * millisecond) demoBudget = 2" "fc_activated demoBudget" "fc_rate demoBudget = 100"
    by (simp_all add: demoBudget_def zeroControl_def purse_def earned_def time_sub_def seconds_def isZero_def)
  note th = thread_budget_allocation [OF ok refl, of False "5 + 20 * millisecond"]
  have "0 \<le> fc_livenessForcedPackets ?c" using th by (simp add: face_ok_def budgets_ok_def)
  then show ?thesis using th f by (simp add: threadSlots_def)
qed

text \<open>
  A grant of one packet with carries 2/3 and 1/3 left from earlier rounds hands out two packets: the
  shares add up to the grant already, and the carries come on top.
\<close>

lemma budget_overgrant:
  "snd (assignDtWeightedThreadBudgetLocked 1 3 0 (zeroControl\<lparr>fc_demandByThread := [5, 11, 0],
     fc_budgetByThread := [0, 0, 0], fc_carryByThread := [2 / 3, 1 / 3, 0]\<rparr>)) = 2"
  by (simp add: assignDtWeightedThreadBudgetLocked_def rotation_def dtThreadWeights_def grantShare_def Let_def upt_rec
      dtThreadActiveBaseWeight_def dtThreadQuotaCapPackets_def dtThreadQuotaCarryCapPackets_def zeroControl_def)

end
