(* ===== verification/Mp_Node.thy ===== *)
theory Mp_Node
  imports Mp_Budget
begin

text \<open>
  The state of the multipath strategy (\<open>fw/fw/multipath.go\<close>): what all forwarding threads of a node
  share (faces, prefixes, queue lengths, the scheduler epoch, the injected failure) and what each
  thread owns (its queues and the schedule over them), and the state machine of the injected face
  failure.  Reading a face or prefix that has no entry yields its zero value.
\<close>

subsection \<open>Configuration\<close>

record dtFailureConfig =
  fl_Enabled :: bool
  fl_Mode :: string
  fl_StartOffset :: duration
  fl_EndOffset :: duration
  fl_ExpectedPrefixes :: int

record fwConfig =
  cf_numThreads :: int
  cf_nodeName :: name
  cf_disableAlt :: bool
  cf_failure :: dtFailureConfig

text \<open>\<open>strings.TrimSpace\<close> on ASCII white space.\<close>

definition isSpace :: "char \<Rightarrow> bool" where
  "isSpace c \<longleftrightarrow> code c \<in> {9, 10, 11, 12, 13, 32}"

definition trimSpace :: "string \<Rightarrow> string" where
  "trimSpace s = rev (dropWhile isSpace (rev (dropWhile isSpace s)))"

text \<open>The arguments are the values of \<open>MARS_FAILURE_MODE\<close>, \<open>_START_MS\<close>, \<open>_END_MS\<close> and \<open>_PREFIX_COUNT\<close>.\<close>

definition getDtFailureConfig :: "string \<Rightarrow> string \<Rightarrow> string \<Rightarrow> string \<Rightarrow> dtFailureConfig" where
  "getDtFailureConfig modeV startV endV countV =
    (let cfg = \<lparr>fl_Enabled = False, fl_Mode = ''normal'', fl_StartOffset = 0, fl_EndOffset = 0, fl_ExpectedPrefixes = 5\<rparr>;
         mode = trimSpace modeV
     in if mode = [] then cfg
        else
          let cfg1 = cfg\<lparr>fl_Mode := mode, fl_Enabled := (mode = ''face-disable'')\<rparr>;
              cfg2 = (case atoi (trimSpace startV) of
                        Some startMs \<Rightarrow> if startMs \<ge> 0 then cfg1\<lparr>fl_StartOffset := startMs * millisecond\<rparr> else cfg1
                      | None \<Rightarrow> cfg1);
              cfg3 = (case atoi (trimSpace endV) of
                        Some endMs \<Rightarrow> if endMs > 0 then cfg2\<lparr>fl_EndOffset := endMs * millisecond\<rparr> else cfg2
                      | None \<Rightarrow> cfg2);
              cfg4 = (case atoi (trimSpace countV) of
                        Some prefixes \<Rightarrow> if prefixes > 0 then cfg3\<lparr>fl_ExpectedPrefixes := prefixes\<rparr> else cfg3
                      | None \<Rightarrow> cfg3)
          in if fl_EndOffset cfg4 \<le> fl_StartOffset cfg4 then cfg4\<lparr>fl_Enabled := False\<rparr> else cfg4)"

subsection \<open>State\<close>

record InterestQueueItem =
  iq_Packet :: InterestPkt
  iq_PitEntry :: nat
  iq_InFace :: faceId
  iq_OwnerThreadID :: int
  iq_CandidateFaces :: "faceId list"
  iq_AssignedFace :: faceId
  iq_EnqueueTime :: gotime

record dtThreadFaceExecState =
  ex_prefixRR :: u64
  ex_tickCount :: u64
  ex_sentBootstrap :: u64
  ex_sentShaped :: u64
  ex_emptyDequeues :: u64
  ex_tokenMisses :: u64
  ex_sendAgeTotal :: duration
  ex_sendAgeMax :: duration
  ex_staleSends :: u64

definition zeroExec :: dtThreadFaceExecState where
  "zeroExec = \<lparr>ex_prefixRR = 0, ex_tickCount = 0, ex_sentBootstrap = 0, ex_sentShaped = 0, ex_emptyDequeues = 0,
     ex_tokenMisses = 0, ex_sendAgeTotal = 0, ex_sendAgeMax = 0, ex_staleSends = 0\<rparr>"

record dtPrefixFaceAssignState =
  as_credits :: "(faceId, float64) gomap"
  as_assignCount :: "(faceId, u64) gomap"
  as_logCount :: u64

definition newAssign :: dtPrefixFaceAssignState where
  "newAssign = \<lparr>as_credits = [], as_assignCount = [], as_logCount = 0\<rparr>"

record Multipath =
  mp_threadID :: int
  mp_execByFace :: "(faceId, dtThreadFaceExecState) gomap"
  mp_queuesByPrefix :: "(string, InterestQueueItem list) gomap"
  mp_assignByPrefix :: "(string, dtPrefixFaceAssignState) gomap"
  mp_localFacePrefixes :: "(faceId, string list) gomap"
  mp_localFaceKnown :: "(faceId, (string, bool) gomap) gomap"
  mp_localFaceOrder :: "faceId list"
  mp_localFaceSeen :: "(faceId, bool) gomap"
  mp_localFaceRR :: u64
  mp_failureAppliedEpoch :: u64

definition multipathInstantiate :: "int \<Rightarrow> Multipath" where
  "multipathInstantiate i = \<lparr>mp_threadID = i, mp_execByFace = [], mp_queuesByPrefix = [], mp_assignByPrefix = [],
     mp_localFacePrefixes = [], mp_localFaceKnown = [], mp_localFaceOrder = [], mp_localFaceSeen = [],
     mp_localFaceRR = 0, mp_failureAppliedEpoch = 0\<rparr>"

record dtFailureNodeState =
  fn_convergedPrefixes :: "(string, bool) gomap"
  fn_candidateFaces :: "(faceId, bool) gomap"
  fn_armed :: bool
  fn_active :: bool
  fn_recovered :: bool
  fn_startTime :: gotime
  fn_endTime :: gotime
  fn_failedFace :: faceId
  fn_activationEpoch :: u64

definition newFailureNode :: dtFailureNodeState where
  "newFailureNode = \<lparr>fn_convergedPrefixes = [], fn_candidateFaces = [], fn_armed = False, fn_active = False,
     fn_recovered = False, fn_startTime = 0, fn_endTime = 0, fn_failedFace = 0, fn_activationEpoch = 0\<rparr>"

record dtFailureSnapshot =
  sn_Enabled :: bool
  sn_Active :: bool
  sn_FailedFace :: faceId
  sn_ActivationEpoch :: u64

record mpNode =
  nd_faces :: "(faceId, faceState) gomap"
  nd_info :: "(string, PathDiscoveryInfo) gomap"
  nd_queueLen :: "(string, int) gomap"
  nd_failure :: dtFailureNodeState
  nd_fastNext :: gotime
  nd_fastEpoch :: u64

definition newNode :: mpNode where
  "newNode = \<lparr>nd_faces = [], nd_info = [], nd_queueLen = [], nd_failure = newFailureNode, nd_fastNext = 0, nd_fastEpoch = 0\<rparr>"

subsection \<open>Access to faces and prefixes\<close>

definition faceOf :: "mpNode \<Rightarrow> faceId \<Rightarrow> faceState" where
  "faceOf nd face = gm_get0 zeroFace (nd_faces nd) face"

definition controlOf :: "mpNode \<Rightarrow> faceId \<Rightarrow> dtFaceControlState" where
  "controlOf nd face = fs_control (faceOf nd face)"

definition onFace :: "(faceState \<Rightarrow> faceState) \<Rightarrow> faceId \<Rightarrow> mpNode \<Rightarrow> mpNode" where
  "onFace f face nd = nd\<lparr>nd_faces := gm_put face (f (faceOf nd face)) (nd_faces nd)\<rparr>"

definition onControl :: "(dtFaceControlState \<Rightarrow> dtFaceControlState) \<Rightarrow> faceId \<Rightarrow> mpNode \<Rightarrow> mpNode" where
  "onControl f = onFace (\<lambda>s. s\<lparr>fs_control := f (fs_control s)\<rparr>)"

definition getPathDiscoveryInfo :: "mpNode \<Rightarrow> string \<Rightarrow> PathDiscoveryInfo" where
  "getPathDiscoveryInfo nd prefix = gm_get0 (newPathDiscoveryInfo prefix) (nd_info nd) prefix"

definition putInfo :: "string \<Rightarrow> PathDiscoveryInfo \<Rightarrow> mpNode \<Rightarrow> mpNode" where
  "putInfo prefix info nd = nd\<lparr>nd_info := gm_put prefix info (nd_info nd)\<rparr>"

definition globalDtPrefixQueueLen :: "mpNode \<Rightarrow> string \<Rightarrow> int" where
  "globalDtPrefixQueueLen nd prefix =
    (let current = gm_get0 0 (nd_queueLen nd) prefix in if current < 0 then 0 else current)"

definition noteDtGlobalPrefixQueue :: "string \<Rightarrow> int \<Rightarrow> mpNode \<Rightarrow> mpNode \<times> int" where
  "noteDtGlobalPrefixQueue prefix delta nd =
    (if delta = 0 then (nd, globalDtPrefixQueueLen nd prefix)
     else
       let n = gm_get0 0 (nd_queueLen nd) prefix + delta
       in if n < 0 then (nd\<lparr>nd_queueLen := gm_put prefix 0 (nd_queueLen nd)\<rparr>, 0)
          else (nd\<lparr>nd_queueLen := gm_put prefix n (nd_queueLen nd)\<rparr>, n))"

definition getDtThreadFaceExecState :: "Multipath \<Rightarrow> faceId \<Rightarrow> dtThreadFaceExecState" where
  "getDtThreadFaceExecState s face = gm_get0 zeroExec (mp_execByFace s) face"

definition onExec :: "(dtThreadFaceExecState \<Rightarrow> dtThreadFaceExecState) \<Rightarrow> faceId \<Rightarrow> Multipath \<Rightarrow> Multipath" where
  "onExec f face s = s\<lparr>mp_execByFace := gm_put face (f (getDtThreadFaceExecState s face)) (mp_execByFace s)\<rparr>"

definition getDtPrefixAssignState :: "Multipath \<Rightarrow> string \<Rightarrow> dtPrefixFaceAssignState" where
  "getDtPrefixAssignState s prefix = gm_get0 newAssign (mp_assignByPrefix s) prefix"

subsection \<open>The injected failure of a face\<close>

definition dtNodeNameNormalized :: "fwConfig \<Rightarrow> string" where
  "dtNodeNameNormalized cf = trimPrefix (nameString (cf_disableAlt cf) (cf_nodeName cf)) ''/''"

definition dtFailureEligibleNode :: "string \<Rightarrow> bool" where
  "dtFailureEligibleNode nodeName = hasPrefix nodeName ''con''"

definition dtFilterFacesWithoutFailure :: "faceId list \<Rightarrow> faceId \<Rightarrow> faceId list" where
  "dtFilterFacesWithoutFailure candidateFaces blockedFace =
    (if blockedFace = 0 \<or> candidateFaces = [] then candidateFaces
     else filter (\<lambda>face. face \<noteq> blockedFace) candidateFaces)"

definition dtSortedFaceKeys :: "(faceId, bool) gomap \<Rightarrow> faceId list" where
  "dtSortedFaceKeys faceSet = sort (map fst faceSet)"

definition armDtFailureAfterPdConvergence :: "fwConfig \<Rightarrow> PathDiscoveryInfo \<Rightarrow> gotime \<Rightarrow> dtFailureNodeState \<Rightarrow> dtFailureNodeState" where
  "armDtFailureAfterPdConvergence cf info now state =
    (if \<not> fl_Enabled (cf_failure cf) \<or> \<not> dtFailureEligibleNode (dtNodeNameNormalized cf) then state
     else if fn_armed state \<or> fn_recovered state then state
     else
       let state1 = state\<lparr>fn_convergedPrefixes := gm_put (pi_Prefix info) True (fn_convergedPrefixes state),
                          fn_candidateFaces := foldl (\<lambda>m face. gm_put face True m) (fn_candidateFaces state) (pi_DtValidFaces info)\<rparr>
       in if int (length (fn_convergedPrefixes state1)) < fl_ExpectedPrefixes (cf_failure cf) then state1
          else
            let faces = dtSortedFaceKeys (fn_candidateFaces state1)
            in if length faces \<le> 1 then state1\<lparr>fn_recovered := True\<rparr>
               else state1\<lparr>fn_failedFace := hd faces, fn_startTime := now + fl_StartOffset (cf_failure cf),
                      fn_endTime := now + fl_EndOffset (cf_failure cf), fn_armed := True\<rparr>)"

definition dtFailureSnapshotOf :: "fwConfig \<Rightarrow> gotime \<Rightarrow> dtFailureNodeState \<Rightarrow> dtFailureNodeState \<times> dtFailureSnapshot" where
  "dtFailureSnapshotOf cf now state =
    (if \<not> fl_Enabled (cf_failure cf) \<or> \<not> dtFailureEligibleNode (dtNodeNameNormalized cf)
     then (state, \<lparr>sn_Enabled = False, sn_Active = False, sn_FailedFace = 0, sn_ActivationEpoch = 0\<rparr>)
     else
       let snapshot = \<lparr>sn_Enabled = fn_armed state \<and> fn_failedFace state \<noteq> 0, sn_Active = False,
                       sn_FailedFace = fn_failedFace state, sn_ActivationEpoch = 0\<rparr>
       in if \<not> sn_Enabled snapshot then (state, snapshot)
          else
            let state1 = (if fn_active state \<and> \<not> now < fn_endTime state
                          then state\<lparr>fn_active := False, fn_recovered := True\<rparr> else state);
                state2 = (if \<not> fn_active state1 \<and> \<not> fn_recovered state1 \<and> \<not> now < fn_startTime state1 \<and> now < fn_endTime state1
                          then state1\<lparr>fn_active := True, fn_activationEpoch := fn_activationEpoch state1 + 1\<rparr> else state1)
            in (state2, snapshot\<lparr>sn_Active := fn_active state2, sn_ActivationEpoch := fn_activationEpoch state2\<rparr>))"

definition dtFailureSnapshotNode :: "fwConfig \<Rightarrow> gotime \<Rightarrow> mpNode \<Rightarrow> mpNode \<times> dtFailureSnapshot" where
  "dtFailureSnapshotNode cf now nd =
    (let (state, snapshot) = dtFailureSnapshotOf cf now (nd_failure nd) in (nd\<lparr>nd_failure := state\<rparr>, snapshot))"

definition dtBlockedFace :: "fwConfig \<Rightarrow> gotime \<Rightarrow> faceId \<Rightarrow> mpNode \<Rightarrow> mpNode \<times> bool" where
  "dtBlockedFace cf now upstreamFace nd =
    (let (nd1, snapshot) = dtFailureSnapshotNode cf now nd
     in (nd1, sn_Active snapshot \<and> sn_FailedFace snapshot = upstreamFace))"

subsection \<open>Frames\<close>

lemma faceOf_onFace [simp]: "faceOf (onFace f face nd) face' = (if face' = face then f (faceOf nd face) else faceOf nd face')"
  by (simp add: faceOf_def onFace_def)

lemma controlOf_onControl [simp]:
  "controlOf (onControl f face nd) face' = (if face' = face then f (controlOf nd face) else controlOf nd face')"
  by (simp add: controlOf_def onControl_def)

lemma onFace_frame [simp]:
  "nd_info (onFace f face nd) = nd_info nd" "nd_queueLen (onFace f face nd) = nd_queueLen nd" "nd_failure (onFace f face nd) = nd_failure nd"
  by (simp_all add: onFace_def)

lemma onControl_frame [simp]:
  "nd_info (onControl f face nd) = nd_info nd" "nd_queueLen (onControl f face nd) = nd_queueLen nd" "nd_failure (onControl f face nd) = nd_failure nd"
  by (simp_all add: onControl_def)

lemma controlOf_noteQueue [simp]: "controlOf (fst (noteDtGlobalPrefixQueue p d nd)) face = controlOf nd face"
  by (simp add: controlOf_def faceOf_def noteDtGlobalPrefixQueue_def Let_def)

lemma controlOf_failure [simp]: "controlOf (nd\<lparr>nd_failure := x\<rparr>) face = controlOf nd face"
  by (simp add: controlOf_def faceOf_def)

lemma controlOf_blocked [simp]: "controlOf (fst (dtBlockedFace cf now f nd)) face = controlOf nd face"
  by (simp add: dtBlockedFace_def dtFailureSnapshotNode_def case_prod_beta)

lemma getExec_onExec [simp]:
  "getDtThreadFaceExecState (onExec f face s) face' = (if face' = face then f (getDtThreadFaceExecState s face) else getDtThreadFaceExecState s face')"
  by (simp add: getDtThreadFaceExecState_def onExec_def)

lemma onExec_frame [simp]:
  "mp_queuesByPrefix (onExec f face s) = mp_queuesByPrefix s" "mp_localFacePrefixes (onExec f face s) = mp_localFacePrefixes s"
  "mp_threadID (onExec f face s) = mp_threadID s" "mp_localFaceOrder (onExec f face s) = mp_localFaceOrder s"
  "mp_assignByPrefix (onExec f face s) = mp_assignByPrefix s" "mp_localFaceKnown (onExec f face s) = mp_localFaceKnown s"
  "mp_localFaceSeen (onExec f face s) = mp_localFaceSeen s"
  by (simp_all add: onExec_def)

end
