(* ===== verification/Mp_Queue.thy ===== *)
theory Mp_Queue
  imports Mp_Node
begin

text \<open>
  The Interest queues of a forwarding thread under the multipath strategy (\<open>fw/fw/multipath.go\<close>):
  the smooth weighted round robin that assigns an Interest to an upstream face, the queues per
  prefix, the scheduler that drains them within the face budgets, the reassignment after a face
  failure, and the controller tick.
\<close>

subsection \<open>Weighted round robin\<close>

definition dtCurrentFaceWeight :: "mpNode \<Rightarrow> faceId \<Rightarrow> float64" where
  "dtCurrentFaceWeight nd face = (let rate = fc_rate (controlOf nd face) in if rate \<le> 0 then 1 else rate)"

record wrrScan =
  ws_credits :: "(faceId, float64) gomap"
  ws_total :: float64
  ws_selected :: faceId
  ws_best :: float64

text \<open>The initial best credit is minus infinity; it is not read before a face is selected.\<close>

definition wrrVisit :: "(faceId \<Rightarrow> float64) \<Rightarrow> wrrScan \<Rightarrow> faceId \<Rightarrow> wrrScan" where
  "wrrVisit weightOf w face =
    (let weight = weightOf face;
         credit = gm_get0 0 (ws_credits w) face + weight;
         w1 = w\<lparr>ws_total := ws_total w + weight, ws_credits := gm_put face credit (ws_credits w)\<rparr>
     in if ws_selected w = 0 \<or> credit > ws_best w \<or> (credit = ws_best w \<and> face < ws_selected w)
        then w1\<lparr>ws_selected := face, ws_best := credit\<rparr> else w1)"

definition selectDtAssignedFaceWRR :: "(faceId \<Rightarrow> float64) \<Rightarrow> string \<Rightarrow> faceId list \<Rightarrow> Multipath \<Rightarrow> Multipath \<times> faceId" where
  "selectDtAssignedFaceWRR weightOf prefix candidateFaces s =
    (if candidateFaces = [] then (s, 0)
     else
       let state = getDtPrefixAssignState s prefix;
           w = foldl (wrrVisit weightOf) \<lparr>ws_credits = as_credits state, ws_total = 0, ws_selected = 0, ws_best = 0\<rparr> candidateFaces;
           stale = filter (\<lambda>f. f \<notin> set candidateFaces) (map fst (ws_credits w));
           credits = foldl (\<lambda>m f. gm_del f m) (ws_credits w) stale;
           counts = foldl (\<lambda>m f. gm_del f m) (as_assignCount state) stale;
           selected = ws_selected w;
           state1 = state\<lparr>as_credits := credits, as_assignCount := counts\<rparr>;
           state2 = (if selected = 0 then state1
                     else state1\<lparr>as_credits := gm_put selected (gm_get0 0 credits selected - ws_total w) credits,
                            as_assignCount := gm_put selected (gm_get0 0 counts selected + 1) counts,
                            as_logCount := as_logCount state1 + 1\<rparr>)
       in (s\<lparr>mp_assignByPrefix := gm_put prefix state2 (mp_assignByPrefix s)\<rparr>, selected))"

subsection \<open>Queues\<close>

definition noteLocalPrefixEligibleForFace :: "faceId \<Rightarrow> string \<Rightarrow> Multipath \<Rightarrow> Multipath" where
  "noteLocalPrefixEligibleForFace face prefix s =
    (let s1 = (if \<not> gm_bool (mp_localFaceSeen s) face
               then s\<lparr>mp_localFaceSeen := gm_put face True (mp_localFaceSeen s), mp_localFaceOrder := mp_localFaceOrder s @ [face]\<rparr>
               else s);
         known = gm_get0 [] (mp_localFaceKnown s1) face
     in if gm_bool known prefix then s1\<lparr>mp_localFaceKnown := gm_put face known (mp_localFaceKnown s1)\<rparr>
        else s1\<lparr>mp_localFaceKnown := gm_put face (gm_put prefix True known) (mp_localFaceKnown s1),
                mp_localFacePrefixes := gm_put face (gm_get0 [] (mp_localFacePrefixes s1) face @ [prefix]) (mp_localFacePrefixes s1)\<rparr>)"

definition demandUpdate :: "fwConfig \<Rightarrow> Multipath \<Rightarrow> faceId \<Rightarrow> int \<Rightarrow> mpNode \<Rightarrow> mpNode" where
  "demandUpdate cf s face delta nd = onControl (noteDtThreadDemand (cf_numThreads cf) (mp_threadID s) delta) face nd"

definition enqueueLocalDtInterest ::
  "fwConfig \<Rightarrow> string \<Rightarrow> InterestQueueItem \<Rightarrow> Multipath \<times> mpNode \<Rightarrow> Multipath \<times> mpNode \<times> nat \<times> int" where
  "enqueueLocalDtInterest cf prefix item st =
    (let (s, nd) = st;
         queue = gm_get0 [] (mp_queuesByPrefix s) prefix @ [item];
         s1 = s\<lparr>mp_queuesByPrefix := gm_put prefix queue (mp_queuesByPrefix s)\<rparr>;
         (nd1, globalQueueLen) = noteDtGlobalPrefixQueue prefix 1 nd
     in if iq_AssignedFace item \<noteq> 0
        then (noteLocalPrefixEligibleForFace (iq_AssignedFace item) prefix s1,
              demandUpdate cf s1 (iq_AssignedFace item) 1 nd1, length queue, globalQueueLen)
        else (s1, nd1, length queue, globalQueueLen))"

definition localPendingInterestsForFace :: "fwConfig \<Rightarrow> faceId \<Rightarrow> Multipath \<Rightarrow> mpNode \<Rightarrow> mpNode \<times> int" where
  "localPendingInterestsForFace cf upstreamFace s nd =
    (let nd1 = onControl (ensureDtControlThreadSlotsLocked (cf_numThreads cf)) upstreamFace nd;
         demand = fc_demandByThread (controlOf nd1 upstreamFace)
     in (nd1, if nat (mp_threadID s) \<ge> length demand then 0 else demand ! nat (mp_threadID s)))"

text \<open>The first element with a property, and the list without it.\<close>

fun takeFirst :: "('a \<Rightarrow> bool) \<Rightarrow> 'a list \<Rightarrow> ('a \<times> 'a list) option" where
  "takeFirst P [] = None"
| "takeFirst P (x # xs) = (if P x then Some (x, xs) else map_option (\<lambda>(y, ys). (y, x # ys)) (takeFirst P xs))"

definition assignedHere :: "Multipath \<Rightarrow> faceId \<Rightarrow> InterestQueueItem \<Rightarrow> bool" where
  "assignedHere s face item \<longleftrightarrow> iq_OwnerThreadID item = mp_threadID s \<and> iq_AssignedFace item = face"

fun scanPrefixes :: "Multipath \<Rightarrow> faceId \<Rightarrow> string list \<Rightarrow> nat list \<Rightarrow> (nat \<times> InterestQueueItem \<times> InterestQueueItem list) option" where
  "scanPrefixes s face prefixes [] = None"
| "scanPrefixes s face prefixes (idx # order) =
    (case takeFirst (assignedHere s face) (gm_get0 [] (mp_queuesByPrefix s) (prefixes ! idx)) of
       Some (item, rest) \<Rightarrow> Some (idx, item, rest)
     | None \<Rightarrow> scanPrefixes s face prefixes order)"

definition dequeueDtInterestForFaceRR ::
  "fwConfig \<Rightarrow> faceId \<Rightarrow> Multipath \<times> mpNode \<Rightarrow> Multipath \<times> mpNode \<times> InterestQueueItem option" where
  "dequeueDtInterestForFaceRR cf upstreamFace st =
    (let (s, nd) = st;
         prefixes = gm_get0 [] (mp_localFacePrefixes s) upstreamFace
     in if prefixes = [] then (s, nd, None)
        else
          let start = unat (ex_prefixRR (getDtThreadFaceExecState s upstreamFace) mod of_nat (length prefixes))
          in case scanPrefixes s upstreamFace prefixes (rotation start (length prefixes)) of
               None \<Rightarrow> (s, nd, None)
             | Some (idx, item, rest) \<Rightarrow>
                 let s1 = s\<lparr>mp_queuesByPrefix := gm_put (prefixes ! idx) rest (mp_queuesByPrefix s)\<rparr>;
                     nd1 = fst (noteDtGlobalPrefixQueue (prefixes ! idx) (- 1) nd);
                     nd2 = (if iq_AssignedFace item \<noteq> 0 then demandUpdate cf s1 (iq_AssignedFace item) (- 1) nd1 else nd1)
                 in (onExec (\<lambda>x. x\<lparr>ex_prefixRR := of_nat (idx + 1)\<rparr>) upstreamFace s1, nd2, Some item))"

subsection \<open>Draining a face\<close>

definition noteAge :: "gotime \<Rightarrow> InterestQueueItem \<Rightarrow> dtThreadFaceExecState \<Rightarrow> dtThreadFaceExecState" where
  "noteAge now item x =
    (if isZero (iq_EnqueueTime item) then x
     else
       let age0 = time_sub now (iq_EnqueueTime item); age = (if age0 < 0 then 0 else age0)
       in x\<lparr>ex_sendAgeTotal := ex_sendAgeTotal x + age,
            ex_sendAgeMax := (if age > ex_sendAgeMax x then age else ex_sendAgeMax x),
            ex_staleSends := (if age \<ge> 100 * millisecond then ex_staleSends x + 1 else ex_staleSends x)\<rparr>)"

record drainState =
  ds_s :: Multipath
  ds_nd :: mpNode
  ds_t :: fwThread
  ds_used :: int
  ds_sendFail :: int
  ds_emptyBudget :: int

text \<open>The send loop; the argument is the budget that is left.\<close>

fun drainLoop :: "fwConfig \<Rightarrow> FaceDispatch \<Rightarrow> gotime \<Rightarrow> faceId \<Rightarrow> nat \<Rightarrow> drainState \<Rightarrow> drainState" where
  "drainLoop cf faces now face 0 d = d"
| "drainLoop cf faces now face (Suc left) d =
    (case dequeueDtInterestForFaceRR cf face (ds_s d, ds_nd d) of
       (s1, nd1, None) \<Rightarrow>
         d\<lparr>ds_s := onExec (\<lambda>x. x\<lparr>ex_emptyDequeues := ex_emptyDequeues x + 1\<rparr>) face s1, ds_nd := nd1,
           ds_emptyBudget := int (Suc left)\<rparr>
     | (s1, nd1, Some item) \<Rightarrow>
         let (t1, ok) = SendInterest faces now (iq_Packet item) (iq_PitEntry item) face (iq_InFace item) (ds_t d);
             s2 = (if ok then onExec (\<lambda>x. x\<lparr>ex_sentShaped := ex_sentShaped x + 1\<rparr>) face s1 else s1);
             s3 = onExec (noteAge now item) face s2
         in drainLoop cf faces now face left
              (d\<lparr>ds_s := s3, ds_nd := nd1, ds_t := t1, ds_used := (if ok then ds_used d + 1 else ds_used d),
                 ds_sendFail := (if ok then ds_sendFail d else ds_sendFail d + 1)\<rparr>))"

definition logDtSchedulerSummary :: "dtThreadFaceExecState \<Rightarrow> dtThreadFaceExecState" where
  "logDtSchedulerSummary x =
    (if ex_tickCount x mod dtSchedulerDebugEveryTicks \<noteq> 0 then x
     else x\<lparr>ex_sentBootstrap := 0, ex_sentShaped := 0, ex_emptyDequeues := 0, ex_tokenMisses := 0,
            ex_sendAgeTotal := 0, ex_sendAgeMax := 0, ex_staleSends := 0\<rparr>)"

definition drainDtInterestForFace ::
  "fwConfig \<Rightarrow> FaceDispatch \<Rightarrow> gotime \<Rightarrow> faceId \<Rightarrow> Multipath \<times> mpNode \<times> fwThread \<Rightarrow> Multipath \<times> mpNode \<times> fwThread" where
  "drainDtInterestForFace cf faces now face st =
    (let (s, nd, t) = st; n = cf_numThreads cf; tid = mp_threadID s;
         (nd1, blocked) = dtBlockedFace cf now face nd
     in if blocked then (s, nd1, t)
        else
          let (nd2, pending) = localPendingInterestsForFace cf face s nd1
          in if pending = 0 then (s, nd2, t)
             else
               let s1 = onExec (\<lambda>x. x\<lparr>ex_tickCount := ex_tickCount x + 1\<rparr>) face s;
                   (c, budget) = takeDtThreadBudget n tid dtSchedulerMaxSendPerTick (controlOf nd2 face);
                   nd3 = onControl (\<lambda>_. c) face nd2
               in if budget \<le> 0 then
                    (onExec logDtSchedulerSummary face (onExec (\<lambda>x. x\<lparr>ex_tokenMisses := ex_tokenMisses x + 1\<rparr>) face s1),
                     onControl (noteDtRoundSchedulerEvent n tid pending 0 0 True 0 0) face nd3, t)
                  else
                    let d = drainLoop cf faces now face (nat budget)
                          \<lparr>ds_s = s1, ds_nd = nd3, ds_t = t, ds_used = 0, ds_sendFail = 0, ds_emptyBudget = 0\<rparr>;
                        nd4 = onControl (noteDtFaceSentPackets (ds_used d)) face (ds_nd d);
                        nd5 = onControl (noteDtRoundSchedulerEvent n tid pending budget (ds_used d) False (ds_emptyBudget d) (ds_sendFail d)) face nd4;
                        nd6 = fst (localPendingInterestsForFace cf face (ds_s d) nd5)
                    in (onExec logDtSchedulerSummary face (ds_s d), nd6, ds_t d))"

fun drainVisits :: "fwConfig \<Rightarrow> FaceDispatch \<Rightarrow> gotime \<Rightarrow> nat \<Rightarrow> Multipath \<times> mpNode \<times> fwThread \<Rightarrow> Multipath \<times> mpNode \<times> fwThread" where
  "drainVisits cf faces now 0 st = st"
| "drainVisits cf faces now (Suc visits) st =
    (let (s, nd, t) = st;
         idx = unat (mp_localFaceRR s mod of_nat (length (mp_localFaceOrder s)));
         s1 = s\<lparr>mp_localFaceRR := mp_localFaceRR s + 1\<rparr>
     in drainVisits cf faces now visits (drainDtInterestForFace cf faces now (mp_localFaceOrder s ! idx) (s1, nd, t)))"

definition drainLocalDtQueues ::
  "fwConfig \<Rightarrow> FaceDispatch \<Rightarrow> gotime \<Rightarrow> Multipath \<times> mpNode \<times> fwThread \<Rightarrow> Multipath \<times> mpNode \<times> fwThread" where
  "drainLocalDtQueues cf faces now st =
    (let n = length (mp_localFaceOrder (fst st))
     in if n = 0 then st
        else drainVisits cf faces now (if n > dtSchedulerMaxFacesPerTick then dtSchedulerMaxFacesPerTick else n) st)"

subsection \<open>Reassignment after a failure\<close>

definition blockedFaceFallbackCandidates :: "mpNode \<Rightarrow> string \<Rightarrow> faceId \<Rightarrow> faceId list" where
  "blockedFaceFallbackCandidates nd prefix blockedFace =
    dtFilterFacesWithoutFailure (pi_DtValidFaces (getPathDiscoveryInfo nd prefix)) blockedFace"

definition reassignItem ::
  "fwConfig \<Rightarrow> string \<Rightarrow> faceId \<Rightarrow> InterestQueueItem \<Rightarrow> Multipath \<times> mpNode \<Rightarrow> (Multipath \<times> mpNode) \<times> InterestQueueItem \<times> nat" where
  "reassignItem cf prefix blockedFace item st =
    (let (s, nd) = st
     in if \<not> assignedHere s blockedFace item then (st, item, 0)
        else
          let survivors0 = dtFilterFacesWithoutFailure (iq_CandidateFaces item) blockedFace;
              survivors = (if survivors0 = [] then blockedFaceFallbackCandidates nd prefix blockedFace else survivors0)
          in if survivors = [] then (st, item, 0)
             else
               let (s1, newFace) = selectDtAssignedFaceWRR (dtCurrentFaceWeight nd) prefix survivors s
               in if newFace = 0 then ((s1, nd), item, 0)
                  else ((noteLocalPrefixEligibleForFace newFace prefix s1,
                         demandUpdate cf s1 newFace 1 (demandUpdate cf s1 blockedFace (- 1) nd)),
                        item\<lparr>iq_CandidateFaces := survivors, iq_AssignedFace := newFace\<rparr>, 1))"

fun reassignQueue ::
  "fwConfig \<Rightarrow> string \<Rightarrow> faceId \<Rightarrow> InterestQueueItem list \<Rightarrow> Multipath \<times> mpNode \<Rightarrow> (Multipath \<times> mpNode) \<times> InterestQueueItem list \<times> nat" where
  "reassignQueue cf prefix blockedFace [] st = (st, [], 0)"
| "reassignQueue cf prefix blockedFace (item # queue) st =
    (let (st1, item1, k) = reassignItem cf prefix blockedFace item st;
         (st2, queue1, m) = reassignQueue cf prefix blockedFace queue st1
     in (st2, item1 # queue1, k + m))"

definition reassignPrefix ::
  "fwConfig \<Rightarrow> faceId \<Rightarrow> (Multipath \<times> mpNode) \<times> nat \<Rightarrow> string \<Rightarrow> (Multipath \<times> mpNode) \<times> nat" where
  "reassignPrefix cf blockedFace acc prefix =
    (let (st, m) = acc;
         ((s1, nd1), queue, k) = reassignQueue cf prefix blockedFace (gm_get0 [] (mp_queuesByPrefix (fst st)) prefix) st
     in ((s1\<lparr>mp_queuesByPrefix := gm_put prefix queue (mp_queuesByPrefix s1)\<rparr>, nd1), m + k))"

definition reassignLocalDtInterestsFromFailedFace ::
  "fwConfig \<Rightarrow> faceId \<Rightarrow> Multipath \<times> mpNode \<Rightarrow> (Multipath \<times> mpNode) \<times> nat" where
  "reassignLocalDtInterestsFromFailedFace cf blockedFace st =
    (if blockedFace = 0 then (st, 0)
     else foldl (reassignPrefix cf blockedFace) (st, 0) (map fst (mp_queuesByPrefix (fst st))))"

definition syncDtFailureState :: "fwConfig \<Rightarrow> gotime \<Rightarrow> Multipath \<times> mpNode \<Rightarrow> (Multipath \<times> mpNode) \<times> dtFailureSnapshot" where
  "syncDtFailureState cf now st =
    (let (s, nd) = st; (nd1, snapshot) = dtFailureSnapshotNode cf now nd
     in if sn_Active snapshot \<and> sn_ActivationEpoch snapshot \<noteq> 0 \<and> sn_ActivationEpoch snapshot \<noteq> mp_failureAppliedEpoch s
        then let ((s1, nd2), _) = reassignLocalDtInterestsFromFailedFace cf (sn_FailedFace snapshot) (s, nd1)
             in ((s1\<lparr>mp_failureAppliedEpoch := sn_ActivationEpoch snapshot\<rparr>, nd2), snapshot)
        else ((s, nd1), snapshot))"

subsection \<open>Controller tick\<close>

text \<open>\<open>clock\<close> are the two readings of the clock of a control round, taken after \<open>now\<close>.\<close>

definition controllerFace ::
  "fwConfig \<Rightarrow> gotime \<Rightarrow> gotime \<times> gotime \<Rightarrow> mpNode \<Rightarrow> faceId \<Rightarrow> mpNode" where
  "controllerFace cf now clock nd face =
    (let (nd1, blocked) = dtBlockedFace cf now face nd; n = cf_numThreads cf
     in if blocked then onControl (\<lambda>c. clearDtFaceBlockedStateLocked now (ensureDtControlThreadSlotsLocked n c)) face nd1
        else
          let c = controlOf nd1 face;
              shouldRun = (fc_activated c \<and> fc_rateControlActive c \<and> fc_period c > 0
                           \<and> (isZero (fc_nextRun c) \<or> \<not> now < fc_nextRun c));
              nd2 = (if shouldRun
                     then onFace (faceSendRateEstimationCore n (fst clock) (snd clock)) face
                            (onControl (\<lambda>c. c\<lparr>fc_nextRun := now + fc_period c\<rparr>) face nd1)
                     else nd1);
              (nd3, blocked3) = dtBlockedFace cf now face nd2
          in onControl (allocateDtFaceBudgets n blocked3 now) face nd3)"

definition runDtControllerTick :: "fwConfig \<Rightarrow> gotime \<Rightarrow> (faceId \<Rightarrow> gotime \<times> gotime) \<Rightarrow> mpNode \<Rightarrow> mpNode" where
  "runDtControllerTick cf now clock nd =
    foldl (\<lambda>nd face. controllerFace cf now (clock face) nd face) nd (map fst (nd_faces nd))"

definition runDtFastSchedulerEpochIfDue :: "fwConfig \<Rightarrow> gotime \<Rightarrow> (faceId \<Rightarrow> gotime \<times> gotime) \<Rightarrow> mpNode \<Rightarrow> mpNode" where
  "runDtFastSchedulerEpochIfDue cf now clock nd =
    (if \<not> isZero (nd_fastNext nd) \<and> now < nd_fastNext nd then nd
     else runDtControllerTick cf now clock
            (nd\<lparr>nd_fastEpoch := nd_fastEpoch nd + 1, nd_fastNext := now + strategyTickInterval\<rparr>))"

definition OnTick ::
  "fwConfig \<Rightarrow> FaceDispatch \<Rightarrow> gotime \<Rightarrow> (faceId \<Rightarrow> gotime \<times> gotime) \<Rightarrow> Multipath \<times> mpNode \<times> fwThread
   \<Rightarrow> Multipath \<times> mpNode \<times> fwThread" where
  "OnTick cf faces actualNow clock st =
    (let (s, nd, t) = st;
         ((s1, nd1), _) = syncDtFailureState cf actualNow (s, nd);
         nd2 = runDtFastSchedulerEpochIfDue cf actualNow clock nd1
     in drainLocalDtQueues cf faces actualNow (s1, nd2, t))"

end
