(* ===== verification/Mp_Fair.thy ===== *)
theory Mp_Fair
  imports Mp_Queue
begin

text \<open>
  The weighted round robin of the multipath strategy is fair: over any number of rounds each
  candidate face is chosen in proportion to its weight, up to a constant that does not grow.
\<close>

definition creditOf :: "Multipath \<Rightarrow> string \<Rightarrow> faceId \<Rightarrow> float64" where
  "creditOf s prefix f = gm_get0 0 (as_credits (getDtPrefixAssignState s prefix)) f"

lemma gm_get0_foldl_del [simp]:
  "gm_get0 z (foldl (\<lambda>m f. gm_del f m) m fs) k = (if k \<in> set fs then z else gm_get0 z m k)"
  by (induction fs arbitrary: m) auto

definition scan_ok :: "(faceId \<Rightarrow> float64) \<Rightarrow> (faceId \<Rightarrow> float64) \<Rightarrow> faceId list \<Rightarrow> wrrScan \<Rightarrow> bool" where
  "scan_ok weightOf old seen w \<longleftrightarrow>
     (\<forall>f. gm_get0 0 (ws_credits w) f = old f + (if f \<in> set seen then weightOf f else 0))
     \<and> ws_total w = sum_list (map weightOf seen)
     \<and> (ws_selected w = 0 \<longleftrightarrow> seen = [])
     \<and> (seen \<noteq> [] \<longrightarrow> ws_selected w \<in> set seen \<and> ws_best w = old (ws_selected w) + weightOf (ws_selected w)
          \<and> (\<forall>f \<in> set seen. old f + weightOf f \<le> ws_best w))"

lemma scan_ok_visit:
  assumes "scan_ok weightOf old seen w" "face \<noteq> 0" "face \<notin> set seen"
  shows "scan_ok weightOf old (seen @ [face]) (wrrVisit weightOf w face)"
proof -
  define c where "c = gm_get0 0 (ws_credits w) face + weightOf face"
  have c: "c = old face + weightOf face" using assms(1,3) by (simp add: c_def scan_ok_def)
  show ?thesis
    unfolding wrrVisit_def Let_def c_def [symmetric] using assms c
    by (auto simp: scan_ok_def intro: order_trans)
qed

lemma scan_ok_foldl:
  "scan_ok weightOf old seen w \<Longrightarrow> distinct (seen @ fs) \<Longrightarrow> 0 \<notin> set fs \<Longrightarrow>
    scan_ok weightOf old (seen @ fs) (foldl (wrrVisit weightOf) w fs)"
proof (induction fs arbitrary: seen w)
  case (Cons f fs)
  have "scan_ok weightOf old (seen @ [f]) (wrrVisit weightOf w f)" using Cons.prems by (intro scan_ok_visit) auto
  from Cons.IH [OF this] show ?case using Cons.prems by simp
qed simp

lemma getAssign_put [simp]: "getDtPrefixAssignState (s\<lparr>mp_assignByPrefix := gm_put p st m\<rparr>) p = st"
  by (simp add: getDtPrefixAssignState_def)

lemma select_effect:
  assumes fs: "fs \<noteq> []" "distinct fs" "0 \<notin> set fs" and sel: "selectDtAssignedFaceWRR weightOf prefix fs s = (s', g)"
  shows "g \<in> set fs" "\<forall>f \<in> set fs. creditOf s prefix f + weightOf f \<le> creditOf s prefix g + weightOf g"
    "\<forall>f \<in> set fs. creditOf s' prefix f = creditOf s prefix f + weightOf f - (if f = g then sum_list (map weightOf fs) else 0)"
proof -
  let ?st = "getDtPrefixAssignState s prefix"
  define w where "w = foldl (wrrVisit weightOf) \<lparr>ws_credits = as_credits ?st, ws_total = 0, ws_selected = 0, ws_best = 0\<rparr> fs"
  have "scan_ok weightOf (creditOf s prefix) [] \<lparr>ws_credits = as_credits ?st, ws_total = 0, ws_selected = 0, ws_best = 0\<rparr>"
    by (simp add: scan_ok_def creditOf_def)
  from scan_ok_foldl [OF this, of fs] have w: "scan_ok weightOf (creditOf s prefix) fs w" using fs by (simp add: w_def)
  have g: "g = ws_selected w" using sel fs(1) by (auto simp: selectDtAssignedFaceWRR_def Let_def w_def [symmetric] split: if_splits)
  show "g \<in> set fs" "\<forall>f \<in> set fs. creditOf s prefix f + weightOf f \<le> creditOf s prefix g + weightOf g"
    using w fs(1) g by (auto simp: scan_ok_def)
  have g0: "ws_selected w \<noteq> 0" using w fs(1) by (simp add: scan_ok_def)
  show "\<forall>f \<in> set fs. creditOf s' prefix f = creditOf s prefix f + weightOf f - (if f = g then sum_list (map weightOf fs) else 0)"
  proof
    fix f assume f: "f \<in> set fs"
    have "creditOf s' prefix f = (if f = ws_selected w then gm_get0 0 (ws_credits w) f - ws_total w else gm_get0 0 (ws_credits w) f)"
      using sel fs(1) g0 f
      by (auto simp: selectDtAssignedFaceWRR_def Let_def w_def [symmetric] creditOf_def [of "_\<lparr>mp_assignByPrefix := _\<rparr>"])
    then show "creditOf s' prefix f = creditOf s prefix f + weightOf f - (if f = g then sum_list (map weightOf fs) else 0)"
      using w f g by (auto simp: scan_ok_def)
  qed
qed

fun wrrRounds :: "(faceId \<Rightarrow> float64) \<Rightarrow> string \<Rightarrow> faceId list \<Rightarrow> nat \<Rightarrow> Multipath \<Rightarrow> Multipath \<times> faceId list" where
  "wrrRounds weightOf prefix fs 0 s = (s, [])"
| "wrrRounds weightOf prefix fs (Suc n) s =
    (let (s1, gs) = wrrRounds weightOf prefix fs n s; (s2, g) = selectDtAssignedFaceWRR weightOf prefix fs s1 in (s2, gs @ [g]))"

lemma sum_list_max: "fs \<noteq> [] \<Longrightarrow> 0 < sum_list (map c fs) \<Longrightarrow> \<exists>f \<in> set fs. 0 < c f" for c :: "'a \<Rightarrow> real"
  by (metis (mono_tags, lifting) linorder_not_less sum_list_nonpos in_set_conv_nth length_map nth_map)

lemma sum_list_one: "distinct fs \<Longrightarrow> g \<in> set fs \<Longrightarrow> sum_list (map (\<lambda>f. if f = g then x else 0) fs) = x" for x :: real
  by (simp add: sum_list_distinct_conv_sum_set)

lemma wrr_credits:
  assumes fs: "fs \<noteq> []" "distinct fs" "0 \<notin> set fs" and pos: "\<forall>f \<in> set fs. 0 < weightOf f"
    and fresh: "\<forall>f \<in> set fs. creditOf s prefix f = 0"
  defines "W \<equiv> sum_list (map weightOf fs)"
  shows "wrrRounds weightOf prefix fs n s = (s', gs) \<Longrightarrow>
    (\<forall>f \<in> set fs. creditOf s' prefix f = of_nat n * weightOf f - W * of_nat (count_list gs f) \<and> - W < creditOf s' prefix f)
    \<and> sum_list (map (creditOf s' prefix) fs) = 0 \<and> set gs \<subseteq> set fs"
proof (induction n arbitrary: s' gs)
  case 0
  have "0 < W" using fs(1) pos unfolding W_def by (cases fs) (auto intro!: add_pos_nonneg sum_list_nonneg simp: less_imp_le)
  then show ?case using 0 fresh by (auto simp: sum_list_0 cong: map_cong)
next
  case (Suc n)
  obtain s1 gs1 where r: "wrrRounds weightOf prefix fs n s = (s1, gs1)" by fastforce
  obtain s2 g where q: "selectDtAssignedFaceWRR weightOf prefix fs s1 = (s2, g)" by fastforce
  have s': "s' = s2" "gs = gs1 @ [g]" using Suc.prems r q by auto
  note e = select_effect [OF fs q, folded W_def]
  have IH: "\<forall>f \<in> set fs. creditOf s1 prefix f = of_nat n * weightOf f - W * of_nat (count_list gs1 f) \<and> - W < creditOf s1 prefix f"
    "sum_list (map (creditOf s1 prefix) fs) = 0" "set gs1 \<subseteq> set fs" using Suc.IH [OF r] by auto
  have "sum_list (map (\<lambda>f. creditOf s1 prefix f + weightOf f) fs) = W" using IH(2) by (simp add: sum_list_addf W_def)
  moreover have "0 < W" using fs(1) pos unfolding W_def by (cases fs) (auto intro!: add_pos_nonneg sum_list_nonneg simp: less_imp_le)
  ultimately obtain h where "h \<in> set fs" "0 < creditOf s1 prefix h + weightOf h"
    using sum_list_max [OF fs(1), of "\<lambda>f. creditOf s1 prefix f + weightOf f"] by auto
  then have g0: "0 < creditOf s1 prefix g + weightOf g" using e(2) by fastforce
  have "sum_list (map (creditOf s2 prefix) fs) = sum_list (map (\<lambda>f. (creditOf s1 prefix f + weightOf f) - (if f = g then W else 0)) fs)"
    using e(3) by (intro arg_cong [where f = sum_list] map_cong) auto
  also have "\<dots> = 0" using IH(2) sum_list_one [OF fs(2) e(1), of W] by (simp add: sum_list_subtractf sum_list_addf W_def)
  finally have z: "sum_list (map (creditOf s2 prefix) fs) = 0" .
  have "\<forall>f \<in> set fs. creditOf s2 prefix f = of_nat (Suc n) * weightOf f - W * of_nat (count_list gs f) \<and> - W < creditOf s2 prefix f"
  proof
    fix f assume f: "f \<in> set fs"
    have "creditOf s2 prefix f = creditOf s1 prefix f + weightOf f - (if f = g then W else 0)"
      "creditOf s1 prefix f = of_nat n * weightOf f - W * of_nat (count_list gs1 f)" "- W < creditOf s1 prefix f" "0 < weightOf f"
      using e(3) IH(1) pos f by auto
    then show "creditOf s2 prefix f = of_nat (Suc n) * weightOf f - W * of_nat (count_list gs f) \<and> - W < creditOf s2 prefix f"
      using g0 s'(2) by (auto simp: algebra_simps)
  qed
  then show ?case using z s' IH(3) e(1) by auto
qed

lemma length_wrrRounds: "length (snd (wrrRounds weightOf prefix fs n s)) = n"
  by (induction n) (simp_all add: case_prod_beta)

lemma sum_list_lower:
  assumes "distinct fs" "f \<in> set fs" "sum_list (map c fs) = 0" "\<forall>h \<in> set fs. - W < c h" "0 < W"
  shows "c f \<le> real (length fs - 1) * W"
proof -
  have "sum_list (map c fs) = c f + sum_list (map c (remove1 f fs))" using assms(2) by (simp add: sum_list_map_remove1)
  moreover have "- (real (length (remove1 f fs)) * W) \<le> sum_list (map c (remove1 f fs))"
    using sum_list_mono [of "remove1 f fs" "\<lambda>_. - W" c] assms(4) notin_set_remove1
    by (force simp: sum_list_triv dest: set_remove1_subset [THEN subsetD])
  ultimately show ?thesis using assms(2,3) by (simp add: length_remove1)
qed

text \<open>
  (C9) Weighted round robin is fair.  After any number of assignments over the same candidate faces
  with the same weights, starting from a new assignment state, the number of Interests assigned to a face differs from its exact share
  (rounds times weight over total weight) by less than one upwards and by less than the number of candidates
  downwards; and every Interest is assigned to one of the candidates.
\<close>

theorem wrr_fair_shares:
  assumes "fs \<noteq> []" "distinct fs" "0 \<notin> set fs" "\<forall>f \<in> set fs. 0 < weightOf f"
    and "getDtPrefixAssignState s prefix = newAssign" "wrrRounds weightOf prefix fs n s = (s', gs)" "f \<in> set fs"
  shows "set gs \<subseteq> set fs \<and> length gs = n
    \<and> of_nat (count_list gs f) < of_nat n * weightOf f / sum_list (map weightOf fs) + 1
    \<and> of_nat n * weightOf f / sum_list (map weightOf fs) \<le> of_nat (count_list gs f) + of_nat (length fs - 1)"
proof -
  let ?W = "sum_list (map weightOf fs)"
  have W: "0 < ?W" using assms(1,4) by (cases fs) (auto intro!: add_pos_nonneg sum_list_nonneg simp: less_imp_le)
  have fresh: "\<forall>f \<in> set fs. creditOf s prefix f = 0" using assms(5) by (simp add: creditOf_def newAssign_def)
  note c = wrr_credits [OF assms(1-4) fresh assms(6)]
  have f: "creditOf s' prefix f = of_nat n * weightOf f - ?W * of_nat (count_list gs f)" "- ?W < creditOf s' prefix f"
    using c assms(7) by auto
  have "creditOf s' prefix f \<le> real (length fs - 1) * ?W"
    by (rule sum_list_lower [OF assms(2,7)]) (use c W in auto)
  then have "of_nat n * weightOf f \<le> (of_nat (count_list gs f) + of_nat (length fs - 1)) * ?W" using f(1) by (simp add: algebra_simps)
  moreover have "of_nat (count_list gs f) * ?W < of_nat n * weightOf f + ?W" using f by (simp add: algebra_simps)
  moreover have "length gs = n" using length_wrrRounds [of weightOf prefix fs n s] assms(6) by simp
  ultimately show ?thesis using c W by (auto simp: field_simps)
qed

theorem wrr_fair_shares_witness:
  "snd (wrrRounds (\<lambda>f. if f = 1 then 3 else 1) ''p'' [1, 2] 4 (multipathInstantiate 0)) = [1, 1, 2, 1]
   \<and> count_list (snd (wrrRounds (\<lambda>f. if f = 1 then 3 else 1) ''p'' [1, 2] 4 (multipathInstantiate 0))) 1 \<le> 3"
proof
  let ?w = "\<lambda>f :: faceId. if f = 1 then 3 else 1 :: float64"
  show "snd (wrrRounds ?w ''p'' [1, 2] 4 (multipathInstantiate 0)) = [1, 1, 2, 1]"
    by (simp add: numeral_eq_Suc selectDtAssignedFaceWRR_def wrrVisit_def Let_def getDtPrefixAssignState_def newAssign_def
        multipathInstantiate_def gm_get0_def gm_put_def gm_del_def)
  have "of_nat (count_list (snd (wrrRounds ?w ''p'' [1, 2] 4 (multipathInstantiate 0))) 1)
      < (of_nat 4 * ?w 1 / sum_list (map ?w [1, 2]) + 1 :: real)"
    using wrr_fair_shares [of "[1, 2]" ?w "multipathInstantiate 0" "''p''" 4 _ _ 1, OF _ _ _ _ _ prod.collapse [symmetric]]
    by (simp add: getDtPrefixAssignState_def multipathInstantiate_def)
  then show "count_list (snd (wrrRounds ?w ''p'' [1, 2] 4 (multipathInstantiate 0))) 1 \<le> 3" by simp
qed

end
