(* ===== verification/Mp_Demand.thy ===== *)
theory Mp_Demand
  imports Mp_Fair
begin

text \<open>
  The demand that a face's control state records for a thread is the number of Interests the thread
  has queued for the face, and each of them is found by the scheduler: the invariant \<open>queue_ok\<close>,
  its preservation by every operation on the queues, and what one drain of a face sends.
\<close>

subsection \<open>Demand vectors\<close>

definition demandVec :: "int \<Rightarrow> dtFaceControlState \<Rightarrow> int list" where
  "demandVec n c = padTo (threadSlots n) 0 (fc_demandByThread c)"

lemma ensure_demand: "fc_demandByThread (ensureDtControlThreadSlotsLocked n c) = demandVec n c"
  by (simp add: ensureDtControlThreadSlotsLocked_def demandVec_def threadSlots_def Let_def)

lemma demandVec_same: "fc_demandByThread c = fc_demandByThread c' \<Longrightarrow> demandVec n c = demandVec n c'"
  by (simp add: demandVec_def)

lemma demandVec_ensured: "fc_demandByThread c = demandVec n c' \<Longrightarrow> demandVec n c = demandVec n c'"
  by (simp add: demandVec_def)

lemma demandVec_ensure [simp]: "demandVec n (ensureDtControlThreadSlotsLocked n c) = demandVec n c"
  by (rule demandVec_ensured) (rule ensure_demand)

lemma length_demandVec: "threadSlots n \<le> length (demandVec n c)"
  by (simp add: demandVec_def padTo_def)

lemma clamp_demand [simp]: "fc_demandByThread (clampDtRetainedBudgetLocked c) = fc_demandByThread c"
  by (simp add: clampDtRetainedBudgetLocked_def)

lemma reclaim_demand [simp]: "fc_demandByThread (fst (reclaimDtThreadBudgetLocked c)) = fc_demandByThread c"
  by (simp add: reclaimDtThreadBudgetLocked_def Let_def)

lemma assign_demand [simp]: "fc_demandByThread (fst (assignDtWeightedThreadBudgetLocked a n k c)) = fc_demandByThread c"
  by (simp add: assignDtWeightedThreadBudgetLocked_def Let_def)

lemma distribute_demand [simp]: "fc_demandByThread (distributeDtFaceBudgetLocked c) = fc_demandByThread c"
  by (simp add: distributeDtFaceBudgetLocked_def Let_def case_prod_beta)

lemma refill_demand [simp]: "fc_demandByThread (refillDtFaceTokensLocked now c) = fc_demandByThread c"
  by (simp add: refillDtFaceTokensLocked_def Let_def)

lemma demandVec_slot_ops [simp]:
  "demandVec n (allocateDtFaceBudgets n b now c) = demandVec n c"
  "demandVec n (fst (takeDtThreadBudget n tid m c)) = demandVec n c"
  "demandVec n (noteDtRoundSchedulerEvent n tid p g u z e sf c) = demandVec n c"
  by (auto intro!: demandVec_ensured [where c' = c] simp: allocateDtFaceBudgets_def takeDtThreadBudget_def
      noteDtRoundSchedulerEvent_def clearDtFaceBlockedStateLocked_def Let_def ensure_demand)

lemma demandVec_other_ops [simp]:
  "demandVec n (clearDtFaceBlockedStateLocked now c) = demandVec n c"
  "demandVec n (noteDtFaceSentPackets k c) = demandVec n c"
  "demandVec n (activateFace now c) = demandVec n c"
  "demandVec n (activateDtFaceRateControl now c) = demandVec n c"
  "demandVec n (c\<lparr>fc_nextRun := t\<rparr>) = demandVec n c"
  by (auto intro!: demandVec_same simp: clearDtFaceBlockedStateLocked_def noteDtFaceSentPackets_def activateFace_def
      activateDtFaceRateControl_def)

lemma liveness_demand: "fc_demandByThread (livenessGuard h p m c) = fc_demandByThread c"
  by (simp add: livenessGuard_def Let_def)

lemma demandVec_rate [simp]: "demandVec n (fs_control (faceSendRateEstimationCore n now rnow s)) = demandVec n (fs_control s)"
proof -
  obtain sg iq isl dq ds k where avg: "getAveragedDtFaceQueueSignal (fs_signals s) = (sg, iq, isl, dq, ds, k)"
    by (metis prod_cases6)
  obtain b1 x1 where bw1: "getDtFaceBandwidthEstimate now (fs_bandwidth s) = (b1, x1)" by (meson surj_pair)
  obtain b2 est m k' rule where bw2: "getDtFaceBandwidthEstimate rnow b1 = (b2, est, m, k', rule)"
    by (metis prod_cases5)
  have "fc_demandByThread (fs_control (faceSendRateEstimationCore n now rnow s)) \<in>
      {fc_demandByThread (fs_control s), demandVec n (fs_control s)}"
    unfolding faceSendRateEstimationCore_def avg bw1 Let_def prod.case bw2 pendingDtInterestsForFace_def
    by (auto simp: case_prod_beta liveness_demand clearRoundCounters_def ensure_demand demandVec_def)
  then show ?thesis by (auto intro: demandVec_same demandVec_ensured)
qed

lemma demandVec_note:
  assumes "0 \<le> tid" "nat tid < threadSlots n"
  shows "demandVec n (noteDtThreadDemand n tid d c) = (demandVec n c)[nat tid := max 0 (demandVec n c ! nat tid + d)]"
proof -
  have "nat tid < length (demandVec n c)" using assms(2) length_demandVec [of n c] by linarith
  then have "fc_demandByThread (noteDtThreadDemand n tid d c) = (demandVec n c)[nat tid := max 0 (demandVec n c ! nat tid + d)]"
    using assms(1) by (auto simp: noteDtThreadDemand_def Let_def ensure_demand max_def)
  moreover have "padTo (threadSlots n) 0 ((demandVec n c)[nat tid := x]) = (demandVec n c)[nat tid := x]" for x
    using length_demandVec [of n c] by (simp add: padTo_def)
  ultimately show ?thesis by (simp add: demandVec_def [of n "noteDtThreadDemand _ _ _ _"])
qed

subsection \<open>The invariant\<close>

definition demandOf :: "fwConfig \<Rightarrow> Multipath \<Rightarrow> mpNode \<Rightarrow> faceId \<Rightarrow> int" where
  "demandOf cf s nd face = demandVec (cf_numThreads cf) (controlOf nd face) ! nat (mp_threadID s)"

definition queueOf :: "Multipath \<Rightarrow> string \<Rightarrow> InterestQueueItem list" where
  "queueOf s p = gm_get0 [] (mp_queuesByPrefix s) p"

definition queued :: "Multipath \<Rightarrow> InterestQueueItem multiset" where
  "queued s = mset (concat (map snd (mp_queuesByPrefix s)))"

definition prefixesOf :: "Multipath \<Rightarrow> faceId \<Rightarrow> string list" where
  "prefixesOf s face = gm_get0 [] (mp_localFacePrefixes s) face"

definition slot_ok :: "fwConfig \<Rightarrow> Multipath \<Rightarrow> bool" where
  "slot_ok cf s \<longleftrightarrow> 0 \<le> mp_threadID s \<and> nat (mp_threadID s) < threadSlots (cf_numThreads cf)"

definition index_ok :: "Multipath \<Rightarrow> bool" where
  "index_ok s \<longleftrightarrow> gm_ok (mp_queuesByPrefix s)
     \<and> (\<forall>p. \<forall>item \<in> set (queueOf s p). iq_OwnerThreadID item = mp_threadID s \<and> iq_AssignedFace item \<noteq> 0
          \<and> p \<in> set (prefixesOf s (iq_AssignedFace item)))
     \<and> (\<forall>face p. gm_bool (gm_get0 [] (mp_localFaceKnown s) face) p \<longleftrightarrow> p \<in> set (prefixesOf s face))
     \<and> (\<forall>face. gm_bool (mp_localFaceSeen s) face \<longleftrightarrow> face \<in> set (mp_localFaceOrder s))
     \<and> (\<forall>face. prefixesOf s face \<noteq> [] \<longrightarrow> face \<in> set (mp_localFaceOrder s)) \<and> distinct (mp_localFaceOrder s)"

definition queuedFor :: "Multipath \<Rightarrow> faceId \<Rightarrow> nat" where
  "queuedFor s face = size (filter_mset (\<lambda>item. iq_AssignedFace item = face) (queued s))"

definition queue_ok :: "fwConfig \<Rightarrow> Multipath \<Rightarrow> mpNode \<Rightarrow> bool" where
  "queue_ok cf s nd \<longleftrightarrow> slot_ok cf s \<and> index_ok s \<and> (\<forall>face. face \<noteq> 0 \<longrightarrow> demandOf cf s nd face = int (queuedFor s face))"

lemma queue_ok_initial: "0 \<le> tid \<Longrightarrow> nat tid < threadSlots (cf_numThreads cf) \<Longrightarrow> queue_ok cf (multipathInstantiate tid) newNode"
proof -
  assume t: "0 \<le> tid" "nat tid < threadSlots (cf_numThreads cf)"
  then have "demandOf cf (multipathInstantiate tid) newNode face = 0" for face
    by (simp add: demandOf_def demandVec_def padTo_def controlOf_def faceOf_def newNode_def zeroFace_def zeroControl_def multipathInstantiate_def)
  then show ?thesis using t
    by (simp add: queue_ok_def slot_ok_def index_ok_def queuedFor_def queued_def multipathInstantiate_def queueOf_def prefixesOf_def)
qed

lemma demandOf_controls: "(\<And>f. demandVec (cf_numThreads cf) (controlOf nd f) = demandVec (cf_numThreads cf) (controlOf nd' f)) \<Longrightarrow>
    demandOf cf s nd face = demandOf cf s nd' face"
  by (simp add: demandOf_def)

lemma queue_ok_node:
  "queue_ok cf s nd \<Longrightarrow> (\<And>f. demandVec (cf_numThreads cf) (controlOf nd' f) = demandVec (cf_numThreads cf) (controlOf nd f)) \<Longrightarrow> queue_ok cf s nd'"
  by (simp add: queue_ok_def demandOf_def)

lemma demandOf_update:
  assumes "slot_ok cf s" "mp_threadID s' = mp_threadID s"
  shows "demandOf cf s (demandUpdate cf s' g d nd) face = (if face = g then max 0 (demandOf cf s nd g + d) else demandOf cf s nd face)"
  using assms length_demandVec [of "cf_numThreads cf" "controlOf nd g"]
  by (auto simp: demandOf_def demandUpdate_def demandVec_note slot_ok_def)

lemma queueOf_queued:
  assumes "gm_ok (mp_queuesByPrefix s)"
  shows "item \<in># queued s \<longleftrightarrow> (\<exists>p. item \<in> set (queueOf s p))"
proof -
  have q: "item \<in> set (queueOf s p) \<longleftrightarrow> (\<exists>q. map_of (mp_queuesByPrefix s) p = Some q \<and> item \<in> set q)" for p
    by (cases "map_of (mp_queuesByPrefix s) p") (simp_all add: queueOf_def gm_get0_def)
  have "item \<in># queued s \<longleftrightarrow> (\<exists>p q. (p, q) \<in> set (mp_queuesByPrefix s) \<and> item \<in> set q)" by (force simp: queued_def)
  also have "\<dots> \<longleftrightarrow> (\<exists>p q. map_of (mp_queuesByPrefix s) p = Some q \<and> item \<in> set q)" by (simp only: gm_ok_map_of [OF assms])
  also have "\<dots> \<longleftrightarrow> (\<exists>p. item \<in> set (queueOf s p))" by (simp only: q)
  finally show ?thesis .
qed

lemma queued_put_aux:
  assumes "gm_ok m"
  shows "mset (concat (map snd (gm_put k v m))) + mset (gm_get0 [] m k) = mset (concat (map snd m)) + mset v"
  using assms
proof (induction m)
  case (Cons a m)
  obtain k' v' where a: "a = (k', v')" by fastforce
  have m: "gm_ok m" "k' \<notin> fst ` set m" using Cons.prems a by (auto simp: gm_ok_def)
  show ?case
  proof (cases "k' = k")
    case True
    then have "map_of m k = None" using m(2) by (simp add: map_of_eq_None_iff)
    then show ?thesis using True a by (simp add: gm_put_def gm_get0_def union_ac)
  next
    case False
    have "mset (concat (map snd (gm_put k v (a # m)))) = mset v' + mset (concat (map snd (gm_put k v m)))"
      "gm_get0 [] (a # m) k = gm_get0 [] m k" using False a by (simp_all add: gm_put_def gm_get0_def)
    then show ?thesis using Cons.IH [OF m(1)] a by (simp add: union_ac)
  qed
qed (simp add: gm_put_def)

lemma queued_put:
  assumes "gm_ok (mp_queuesByPrefix s)"
  shows "queued (s\<lparr>mp_queuesByPrefix := gm_put p q (mp_queuesByPrefix s)\<rparr>) + mset (queueOf s p) = queued s + mset q"
  using queued_put_aux [OF assms, of p q] by (simp add: queued_def queueOf_def)

subsection \<open>Indexing a prefix under a face\<close>

lemma eligible_frame [simp]:
  "mp_threadID (noteLocalPrefixEligibleForFace f p s) = mp_threadID s"
  "mp_queuesByPrefix (noteLocalPrefixEligibleForFace f p s) = mp_queuesByPrefix s"
  "queueOf (noteLocalPrefixEligibleForFace f p s) q = queueOf s q" "queued (noteLocalPrefixEligibleForFace f p s) = queued s"
  by (simp_all add: noteLocalPrefixEligibleForFace_def Let_def queueOf_def queued_def)

lemma prefixesOf_eligible:
  assumes "\<forall>p. gm_bool (gm_get0 [] (mp_localFaceKnown s) f) p \<longleftrightarrow> p \<in> set (prefixesOf s f)"
  shows "prefixesOf (noteLocalPrefixEligibleForFace f p s) g =
    (if g = f \<and> p \<notin> set (prefixesOf s f) then prefixesOf s f @ [p] else prefixesOf s g)"
  using assms by (auto simp: noteLocalPrefixEligibleForFace_def Let_def prefixesOf_def)

definition tables_ok :: "Multipath \<Rightarrow> bool" where
  "tables_ok s \<longleftrightarrow> (\<forall>face p. gm_bool (gm_get0 [] (mp_localFaceKnown s) face) p \<longleftrightarrow> p \<in> set (prefixesOf s face))
     \<and> (\<forall>face. gm_bool (mp_localFaceSeen s) face \<longleftrightarrow> face \<in> set (mp_localFaceOrder s))
     \<and> (\<forall>face. prefixesOf s face \<noteq> [] \<longrightarrow> face \<in> set (mp_localFaceOrder s)) \<and> distinct (mp_localFaceOrder s)"

lemma index_ok_tables: "index_ok s \<longleftrightarrow> gm_ok (mp_queuesByPrefix s) \<and> tables_ok s
     \<and> (\<forall>p. \<forall>item \<in> set (queueOf s p). iq_OwnerThreadID item = mp_threadID s \<and> iq_AssignedFace item \<noteq> 0
          \<and> p \<in> set (prefixesOf s (iq_AssignedFace item)))"
  by (auto simp: index_ok_def tables_ok_def)

lemma tables_ok_eligible:
  assumes "tables_ok s"
  shows "tables_ok (noteLocalPrefixEligibleForFace f p s)"
    "prefixesOf (noteLocalPrefixEligibleForFace f p s) g =
      (if g = f \<and> p \<notin> set (prefixesOf s f) then prefixesOf s f @ [p] else prefixesOf s g)"
proof -
  show pf: "prefixesOf (noteLocalPrefixEligibleForFace f p s) g =
      (if g = f \<and> p \<notin> set (prefixesOf s f) then prefixesOf s f @ [p] else prefixesOf s g)" for g
    by (rule prefixesOf_eligible) (use assms in \<open>simp add: tables_ok_def\<close>)
  have known: "gm_bool (gm_get0 [] (mp_localFaceKnown (noteLocalPrefixEligibleForFace f p s)) g) q \<longleftrightarrow>
      gm_bool (gm_get0 [] (mp_localFaceKnown s) g) q \<or> g = f \<and> q = p" for g q
    by (auto simp: noteLocalPrefixEligibleForFace_def Let_def)
  have order: "mp_localFaceOrder (noteLocalPrefixEligibleForFace f p s) =
      (if f \<in> set (mp_localFaceOrder s) then mp_localFaceOrder s else mp_localFaceOrder s @ [f])"
    "gm_bool (mp_localFaceSeen (noteLocalPrefixEligibleForFace f p s)) g \<longleftrightarrow> gm_bool (mp_localFaceSeen s) g \<or> g = f" for g
    using assms by (auto simp: noteLocalPrefixEligibleForFace_def Let_def tables_ok_def)
  show "tables_ok (noteLocalPrefixEligibleForFace f p s)"
    using assms unfolding tables_ok_def known pf order by (auto split: if_splits)
qed

lemma prefix_eligible: "tables_ok s \<Longrightarrow> p \<in> set (prefixesOf (noteLocalPrefixEligibleForFace f p s) f)"
  by (simp add: tables_ok_eligible(2))

lemma prefixes_eligible_mono: "tables_ok s \<Longrightarrow> set (prefixesOf s g) \<subseteq> set (prefixesOf (noteLocalPrefixEligibleForFace f p s) g)"
  by (auto simp: tables_ok_eligible(2))

end
