(* ===== verification/Mp_Drain.thy ===== *)
theory Mp_Drain
  imports Mp_Demand
begin

text \<open>
  Enqueue, dequeue and drain keep the demand equal to the queues; one drain of a face sends as many
  Interests as its budget and its queue allow.
\<close>

subsection \<open>Enqueue and dequeue\<close>

lemma queueOf_put [simp]:
  "queueOf (s\<lparr>mp_queuesByPrefix := gm_put p q (mp_queuesByPrefix s)\<rparr>) p' = (if p' = p then q else queueOf s p')"
  by (simp add: queueOf_def)

lemma prefixesOf_frame [simp]:
  "prefixesOf (s\<lparr>mp_queuesByPrefix := m\<rparr>) f = prefixesOf s f" "prefixesOf (onExec g face s) f = prefixesOf s f"
  "prefixesOf (s\<lparr>mp_localFaceRR := r\<rparr>) f = prefixesOf s f" "prefixesOf (s\<lparr>mp_failureAppliedEpoch := e\<rparr>) f = prefixesOf s f"
  "prefixesOf (s\<lparr>mp_assignByPrefix := a\<rparr>) f = prefixesOf s f"
  by (simp_all add: prefixesOf_def)

lemma tables_ok_frame [simp]:
  "tables_ok (s\<lparr>mp_queuesByPrefix := m\<rparr>) = tables_ok s" "tables_ok (onExec g face s) = tables_ok s"
  "tables_ok (s\<lparr>mp_localFaceRR := r\<rparr>) = tables_ok s" "tables_ok (s\<lparr>mp_failureAppliedEpoch := e\<rparr>) = tables_ok s"
  "tables_ok (s\<lparr>mp_assignByPrefix := a\<rparr>) = tables_ok s"
  by (simp_all add: tables_ok_def)

lemma queueOf_frame [simp]:
  "queueOf (onExec g face s) q = queueOf s q" "queueOf (s\<lparr>mp_localFaceRR := r\<rparr>) q = queueOf s q"
  "queueOf (s\<lparr>mp_failureAppliedEpoch := e\<rparr>) q = queueOf s q" "queueOf (s\<lparr>mp_assignByPrefix := a\<rparr>) q = queueOf s q"
  by (simp_all add: queueOf_def)

lemma queued_frame [simp]:
  "queued (onExec g face s) = queued s" "queued (s\<lparr>mp_localFaceRR := r\<rparr>) = queued s"
  "queued (s\<lparr>mp_failureAppliedEpoch := e\<rparr>) = queued s" "queued (s\<lparr>mp_assignByPrefix := a\<rparr>) = queued s"
  by (simp_all add: queued_def)

lemma queue_ok_frame [simp]:
  "queue_ok cf (onExec g face s) nd = queue_ok cf s nd" "queue_ok cf (s\<lparr>mp_localFaceRR := r\<rparr>) nd = queue_ok cf s nd"
  "queue_ok cf (s\<lparr>mp_failureAppliedEpoch := e\<rparr>) nd = queue_ok cf s nd" "queue_ok cf (s\<lparr>mp_assignByPrefix := a\<rparr>) nd = queue_ok cf s nd"
  by (simp_all add: queue_ok_def slot_ok_def index_ok_tables demandOf_def queuedFor_def)

lemma demandOf_thread: "mp_threadID s = mp_threadID s' \<Longrightarrow> demandOf cf s nd f = demandOf cf s' nd f"
  by (simp add: demandOf_def)

lemma demandOf_noteQueue [simp]: "demandOf cf s (fst (noteDtGlobalPrefixQueue p d nd)) f = demandOf cf s nd f"
  by (simp add: demandOf_def)

lemma index_ok_shrink:
  assumes "index_ok s" "set q \<subseteq> set (queueOf s p)"
  shows "index_ok (s\<lparr>mp_queuesByPrefix := gm_put p q (mp_queuesByPrefix s)\<rparr>)"
  using assms by (auto simp: index_ok_tables)

lemma enqueue_ok:
  assumes ok: "queue_ok cf s nd" and item: "iq_OwnerThreadID item = mp_threadID s" "iq_AssignedFace item \<noteq> 0"
    and e: "enqueueLocalDtInterest cf p item (s, nd) = (s', nd', k, m)"
  shows "queue_ok cf s' nd' \<and> queued s' = add_mset item (queued s)"
proof -
  let ?s1 = "s\<lparr>mp_queuesByPrefix := gm_put p (queueOf s p @ [item]) (mp_queuesByPrefix s)\<rparr>" and ?f = "iq_AssignedFace item"
  have s': "s' = noteLocalPrefixEligibleForFace ?f p ?s1" "nd' = demandUpdate cf ?s1 ?f 1 (fst (noteDtGlobalPrefixQueue p 1 nd))"
    using e item(2) by (auto simp: enqueueLocalDtInterest_def Let_def queueOf_def case_prod_beta)
  have g: "gm_ok (mp_queuesByPrefix s)" "slot_ok cf s" "tables_ok s" using ok by (auto simp: queue_ok_def index_ok_tables)
  have q: "queued s' = add_mset item (queued s)" using queued_put [OF g(1), of p "queueOf s p @ [item]"] by (simp add: s'(1))
  have t: "tables_ok ?s1" using g(3) by simp
  have idx: "index_ok s'"
  proof (unfold index_ok_tables, intro conjI allI ballI)
    show "gm_ok (mp_queuesByPrefix s')" "tables_ok s'" using g t by (auto simp: s' tables_ok_eligible(1))
    fix r i assume i: "i \<in> set (queueOf s' r)"
    then have c: "i \<in> set (queueOf s r) \<or> r = p \<and> i = item" by (auto simp: s'(1) split: if_splits)
    then show "iq_OwnerThreadID i = mp_threadID s'" "iq_AssignedFace i \<noteq> 0" using ok item by (auto simp: queue_ok_def index_ok_tables s'(1))
    show "r \<in> set (prefixesOf s' (iq_AssignedFace i))"
      using c ok prefix_eligible [OF t, of p ?f] prefixes_eligible_mono [OF t, of "iq_AssignedFace i" ?f p]
      by (auto simp: s'(1) queue_ok_def index_ok_tables)
  qed
  have "demandOf cf s' nd' face = int (queuedFor s' face)" if "face \<noteq> 0" for face
  proof -
    have "demandOf cf s' nd' face = demandOf cf s nd' face" by (rule demandOf_thread) (simp add: s'(1))
    also have "\<dots> = (if face = ?f then max 0 (demandOf cf s nd ?f + 1) else demandOf cf s nd face)"
      unfolding s'(2) by (subst demandOf_update [OF g(2)]) simp_all
    also have "\<dots> = int (queuedFor s face) + (if face = ?f then 1 else 0)" using ok item(2) that by (auto simp: queue_ok_def)
    also have "\<dots> = int (queuedFor s' face)" by (simp add: queuedFor_def q)
    finally show ?thesis .
  qed
  then show ?thesis using idx q g(2) by (simp add: queue_ok_def slot_ok_def s'(1))
qed

lemma takeFirst_None: "takeFirst P xs = None \<longleftrightarrow> (\<forall>x \<in> set xs. \<not> P x)"
  by (induction xs) auto

lemma takeFirst_Some: "takeFirst P xs = Some (y, ys) \<Longrightarrow> P y \<and> mset xs = add_mset y (mset ys)"
  by (induction xs arbitrary: ys) (auto split: if_splits)

lemma scanPrefixes_None:
  "scanPrefixes s face prefixes order = None \<longleftrightarrow> (\<forall>idx \<in> set order. \<forall>item \<in> set (queueOf s (prefixes ! idx)). \<not> assignedHere s face item)"
  by (induction order) (auto simp: queueOf_def [symmetric] takeFirst_None [symmetric] split: option.splits)

lemma scanPrefixes_Some:
  "scanPrefixes s face prefixes order = Some (idx, item, rest) \<Longrightarrow>
    idx \<in> set order \<and> takeFirst (assignedHere s face) (queueOf s (prefixes ! idx)) = Some (item, rest)"
  by (induction order) (auto simp: queueOf_def [symmetric] split: option.splits)

lemma set_rotation: "set (rotation start n) = {..<n}"
proof (cases "n = 0")
  case False
  have "k \<in> set (rotation start n)" if "k < n" for k
  proof -
    have lt: "start mod n < n" using False by simp
    have "(start + (k + (n - start mod n)) mod n) mod n = (start mod n + (k + (n - start mod n))) mod n" by (metis mod_add_eq mod_mod_trivial)
    also have "start mod n + (k + (n - start mod n)) = k + n"
      using lt by linarith
    finally have "k = (start + (k + (n - start mod n)) mod n) mod n" using that by simp
    then show ?thesis unfolding rotation_def set_map set_upt using False by (intro image_eqI [of _ _ "(k + (n - start mod n)) mod n"]) auto
  qed
  then show ?thesis using rotation_less [of n start] False by auto
qed (simp add: rotation_def)

lemma dequeue_none:
  assumes ok: "queue_ok cf s nd" and e: "dequeueDtInterestForFaceRR cf face (s, nd) = (s', nd', None)"
  shows "s' = s \<and> nd' = nd \<and> queuedFor s face = 0"
proof -
  have g: "gm_ok (mp_queuesByPrefix s)" using ok by (auto simp: queue_ok_def index_ok_tables)
  have st: "s' = s \<and> nd' = nd" using e by (auto simp: dequeueDtInterestForFaceRR_def Let_def split: if_splits option.splits)
  have "iq_AssignedFace item \<noteq> face" if i: "item \<in># queued s" for item
  proof
    assume a: "iq_AssignedFace item = face"
    obtain p where p: "item \<in> set (queueOf s p)" using i queueOf_queued [OF g] by blast
    then have "p \<in> set (prefixesOf s face)" "iq_OwnerThreadID item = mp_threadID s" using ok a by (auto simp: queue_ok_def index_ok_tables)
    then obtain idx where idx: "idx < length (prefixesOf s face)" "prefixesOf s face ! idx = p" by (metis in_set_conv_nth)
    then have ne: "prefixesOf s face \<noteq> []" by auto
    have "scanPrefixes s face (prefixesOf s face)
        (rotation (unat (ex_prefixRR (getDtThreadFaceExecState s face) mod of_nat (length (prefixesOf s face)))) (length (prefixesOf s face))) = None"
      using e ne by (auto simp: dequeueDtInterestForFaceRR_def Let_def prefixesOf_def [symmetric] split: option.splits)
    then show False
      using idx p a \<open>iq_OwnerThreadID item = mp_threadID s\<close> unfolding scanPrefixes_None set_rotation by (auto simp: assignedHere_def)
  qed
  then show ?thesis using st by (auto simp: queuedFor_def)
qed

lemma dequeue_eq:
  "dequeueDtInterestForFaceRR cf face (s, nd) =
    (if prefixesOf s face = [] then (s, nd, None)
     else case scanPrefixes s face (prefixesOf s face)
            (rotation (unat (ex_prefixRR (getDtThreadFaceExecState s face) mod of_nat (length (prefixesOf s face)))) (length (prefixesOf s face))) of
            None \<Rightarrow> (s, nd, None)
          | Some (idx, item, rest) \<Rightarrow>
              let s1 = s\<lparr>mp_queuesByPrefix := gm_put (prefixesOf s face ! idx) rest (mp_queuesByPrefix s)\<rparr>;
                  nd1 = fst (noteDtGlobalPrefixQueue (prefixesOf s face ! idx) (- 1) nd);
                  nd2 = (if iq_AssignedFace item \<noteq> 0 then demandUpdate cf s1 (iq_AssignedFace item) (- 1) nd1 else nd1)
              in (onExec (\<lambda>x. x\<lparr>ex_prefixRR := of_nat (idx + 1)\<rparr>) face s1, nd2, Some item))"
  unfolding dequeueDtInterestForFaceRR_def prefixesOf_def Let_def prod.case by (rule refl)

lemma dequeue_some:
  assumes ok: "queue_ok cf s nd" and face: "face \<noteq> 0" and e: "dequeueDtInterestForFaceRR cf face (s, nd) = (s', nd', Some item)"
  shows "queue_ok cf s' nd' \<and> iq_AssignedFace item = face \<and> queued s = add_mset item (queued s')"
proof -
  have g: "gm_ok (mp_queuesByPrefix s)" "slot_ok cf s" "index_ok s" using ok by (auto simp: queue_ok_def index_ok_tables)
  obtain idx rest order where sc: "scanPrefixes s face (prefixesOf s face) order = Some (idx, item, rest)"
    and st: "s' = onExec (\<lambda>x. x\<lparr>ex_prefixRR := of_nat (idx + 1)\<rparr>) face (s\<lparr>mp_queuesByPrefix := gm_put (prefixesOf s face ! idx) rest (mp_queuesByPrefix s)\<rparr>)"
    and nd': "nd' = (if iq_AssignedFace item \<noteq> 0
       then demandUpdate cf (s\<lparr>mp_queuesByPrefix := gm_put (prefixesOf s face ! idx) rest (mp_queuesByPrefix s)\<rparr>) (iq_AssignedFace item) (- 1)
              (fst (noteDtGlobalPrefixQueue (prefixesOf s face ! idx) (- 1) nd)) else fst (noteDtGlobalPrefixQueue (prefixesOf s face ! idx) (- 1) nd))"
    using e unfolding dequeue_eq Let_def by (simp split: if_splits option.splits prod.splits)
  define p where "p = prefixesOf s face ! idx"
  define s1 where "s1 = s\<lparr>mp_queuesByPrefix := gm_put p rest (mp_queuesByPrefix s)\<rparr>"
  define nd1 where "nd1 = fst (noteDtGlobalPrefixQueue p (- 1) nd)"
  have "takeFirst (assignedHere s face) (queueOf s p) = Some (item, rest)" using scanPrefixes_Some [OF sc] by (simp add: p_def)
  from takeFirst_Some [OF this] have tf: "assignedHere s face item" "mset (queueOf s p) = add_mset item (mset rest)" by simp_all
  have f: "iq_AssignedFace item = face" using tf(1) by (simp add: assignedHere_def)
  have nd: "nd' = demandUpdate cf s1 face (- 1) nd1" using nd' face by (simp add: f s1_def nd1_def p_def)
  have "queued s1 + mset (queueOf s p) = queued s + mset rest" unfolding s1_def by (rule queued_put [OF g(1)])
  then have q: "queued s = add_mset item (queued s1)" unfolding tf(2) by simp
  have "set rest \<subseteq> set (queueOf s p)" using tf(2) by (metis set_mset_mset set_mset_add_mset_insert subset_insertI)
  then have idx: "index_ok s1" unfolding s1_def using g(3) by (intro index_ok_shrink)
  have thr: "mp_threadID s1 = mp_threadID s" by (simp add: s1_def)
  have "demandOf cf s1 nd' h = int (queuedFor s1 h)" if "h \<noteq> 0" for h
  proof -
    have "demandOf cf s1 nd' h = demandOf cf s nd' h" by (rule demandOf_thread [OF thr])
    also have "\<dots> = (if h = face then max 0 (demandOf cf s nd face + (- 1)) else demandOf cf s nd h)"
      unfolding nd by (subst demandOf_update [OF g(2) thr]) (simp add: nd1_def)
    also have "\<dots> = int (queuedFor s1 h)" using ok that face by (auto simp: queue_ok_def queuedFor_def q f)
    finally show ?thesis .
  qed
  then have "queue_ok cf s1 nd'" using idx g(2) thr by (simp add: queue_ok_def slot_ok_def)
  moreover have "s' = onExec (\<lambda>x. x\<lparr>ex_prefixRR := of_nat (idx + 1)\<rparr>) face s1" unfolding s1_def p_def by (rule st)
  ultimately show ?thesis using f q by simp
qed

subsection \<open>One drain of a face\<close>

definition sendItems :: "FaceDispatch \<Rightarrow> gotime \<Rightarrow> faceId \<Rightarrow> fwThread \<Rightarrow> InterestQueueItem list \<Rightarrow> fwThread" where
  "sendItems faces now face = foldl (\<lambda>t i. fst (SendInterest faces now (iq_Packet i) (iq_PitEntry i) face (iq_InFace i) t))"

definition drains :: "fwConfig \<Rightarrow> FaceDispatch \<Rightarrow> gotime \<Rightarrow> faceId \<Rightarrow> nat \<Rightarrow> Multipath \<times> mpNode \<times> fwThread \<Rightarrow> Multipath \<times> mpNode \<times> fwThread \<Rightarrow> bool" where
  "drains cf faces now face k st st' \<longleftrightarrow> (\<exists>items. length items = k \<and> (\<forall>i \<in> set items. iq_AssignedFace i = face)
     \<and> queued (fst st) = mset items + queued (fst st') \<and> snd (snd st') = sendItems faces now face (snd (snd st)) items
     \<and> queue_ok cf (fst st') (fst (snd st')))"

lemma drains_refl: "queue_ok cf s nd \<Longrightarrow> drains cf faces now face 0 (s0, nd0, t) (s, nd, t) \<longleftrightarrow> queued s0 = queued s"
  by (auto simp: drains_def sendItems_def)

lemma drains_step:
  assumes "drains cf faces now face k (sa, nda, fst (SendInterest faces now (iq_Packet item) (iq_PitEntry item) face (iq_InFace item) t)) st'"
    "queued s = add_mset item (queued sa)" "iq_AssignedFace item = face"
  shows "drains cf faces now face (Suc k) (s, nd, t) st'"
proof -
  obtain items where "length items = k" "\<forall>i \<in> set items. iq_AssignedFace i = face" "queued sa = mset items + queued (fst st')"
    "snd (snd st') = sendItems faces now face (fst (SendInterest faces now (iq_Packet item) (iq_PitEntry item) face (iq_InFace item) t)) items"
    "queue_ok cf (fst st') (fst (snd st'))" using assms(1) by (auto simp: drains_def)
  then show ?thesis using assms(2,3) unfolding drains_def by (intro exI [of _ "item # items"]) (simp add: sendItems_def)
qed

lemma drainLoop_ok:
  assumes face: "face \<noteq> 0"
  shows "queue_ok cf (ds_s d) (ds_nd d) \<Longrightarrow>
    drains cf faces now face (min left (queuedFor (ds_s d) face)) (ds_s d, ds_nd d, ds_t d)
      (ds_s (drainLoop cf faces now face left d), ds_nd (drainLoop cf faces now face left d), ds_t (drainLoop cf faces now face left d))"
proof (induction left arbitrary: d)
  case 0
  then show ?case by (simp add: drains_refl)
next
  case (Suc left)
  obtain s1 nd1 r where r: "dequeueDtInterestForFaceRR cf face (ds_s d, ds_nd d) = (s1, nd1, r)" by (meson prod_cases3)
  show ?case
  proof (cases r)
    case None
    from dequeue_none [OF Suc.prems r [unfolded None]]
    have "s1 = ds_s d" "nd1 = ds_nd d" "queuedFor (ds_s d) face = 0" by auto
    then show ?thesis using Suc.prems r None by (simp add: drains_refl)
  next
    case (Some item)
    from dequeue_some [OF Suc.prems face r [unfolded Some]]
    have ok1: "queue_ok cf s1 nd1" and f: "iq_AssignedFace item = face" and q: "queued (ds_s d) = add_mset item (queued s1)" by auto
    have k: "queuedFor (ds_s d) face = Suc (queuedFor s1 face)" using f by (simp add: queuedFor_def q)
    obtain t1 ok where sd: "SendInterest faces now (iq_Packet item) (iq_PitEntry item) face (iq_InFace item) (ds_t d) = (t1, ok)" by fastforce
    define d1 where "d1 = d\<lparr>ds_s := onExec (noteAge now item) face (if ok then onExec (\<lambda>x. x\<lparr>ex_sentShaped := ex_sentShaped x + 1\<rparr>) face s1 else s1),
        ds_nd := nd1, ds_t := t1, ds_used := (if ok then ds_used d + 1 else ds_used d), ds_sendFail := (if ok then ds_sendFail d else ds_sendFail d + 1)\<rparr>"
    have loop: "drainLoop cf faces now face (Suc left) d = drainLoop cf faces now face left d1" using r Some sd by (simp add: d1_def Let_def)
    have d1: "queue_ok cf (ds_s d1) (ds_nd d1)" "queuedFor (ds_s d1) face = queuedFor s1 face" "queued (ds_s d1) = queued s1" "ds_t d1 = t1"
      using ok1 by (auto simp: d1_def queuedFor_def)
    note IH = Suc.IH [OF d1(1)]
    show ?thesis unfolding loop k min_Suc_Suc
      by (rule drains_step [where item = item and sa = "ds_s d1" and nda = "ds_nd d1"]) (use IH d1 q f sd in auto)
  qed
qed

definition budgetOf :: "fwConfig \<Rightarrow> Multipath \<Rightarrow> mpNode \<Rightarrow> faceId \<Rightarrow> int" where
  "budgetOf cf s nd face = fc_budgetByThread (ensureDtControlThreadSlotsLocked (cf_numThreads cf) (controlOf nd face)) ! nat (mp_threadID s)"

lemma take_budget:
  assumes "slot_ok cf s" "takeDtThreadBudget (cf_numThreads cf) (mp_threadID s) 64 (ensureDtControlThreadSlotsLocked (cf_numThreads cf) (controlOf nd face)) = (c, b)"
  shows "nat b = nat (min 64 (budgetOf cf s nd face))"
proof -
  have "nat (mp_threadID s) < length (fc_budgetByThread (ensureDtControlThreadSlotsLocked (cf_numThreads cf) (controlOf nd face)))"
    using assms(1) by (auto simp: slot_ok_def ensureDtControlThreadSlotsLocked_def Let_def padTo_def threadSlots_def)
  then show ?thesis using assms by (auto simp: takeDtThreadBudget_def budgetOf_def slot_ok_def Let_def split: if_splits)
qed

lemma drain_face:
  assumes ok: "queue_ok cf s nd" and face: "face \<noteq> 0" and nb: "\<not> snd (dtBlockedFace cf now face nd)"
    and d: "drainDtInterestForFace cf faces now face (s, nd, t) = st'"
  shows "drains cf faces now face (min (nat (min 64 (budgetOf cf s nd face))) (queuedFor s face)) (s, nd, t) st'"
proof -
  define n where "n = cf_numThreads cf"
  define nd1 where "nd1 = fst (dtBlockedFace cf now face nd)"
  define nd2 where "nd2 = onControl (ensureDtControlThreadSlotsLocked n) face nd1"
  define pending where "pending = demandOf cf s nd face"
  have slot: "slot_ok cf s" and pend: "pending = int (queuedFor s face)" using ok face by (auto simp: queue_ok_def pending_def)
  have bl: "dtBlockedFace cf now face nd = (nd1, False)" using nb by (simp add: nd1_def prod_eq_iff)
  have ctl: "controlOf nd2 face = ensureDtControlThreadSlotsLocked n (controlOf nd face)" by (simp add: nd2_def nd1_def)
  have lp: "localPendingInterestsForFace cf face s nd1 = (nd2, pending)"
    using slot length_demandVec [of n "controlOf nd face"]
    by (simp add: localPendingInterestsForFace_def nd2_def [symmetric] n_def [symmetric] ctl ensure_demand pending_def demandOf_def slot_ok_def)
  have ok2: "queue_ok cf s nd2" by (rule queue_ok_node [OF ok]) (simp add: nd2_def nd1_def n_def)
  obtain c b where tk: "takeDtThreadBudget n (mp_threadID s) dtSchedulerMaxSendPerTick (controlOf nd2 face) = (c, b)" by fastforce
  have bud: "nat b = nat (min 64 (budgetOf cf s nd face))"
    using take_budget [OF slot] tk by (simp add: ctl n_def dtSchedulerMaxSendPerTick_def)
  define nd3 where "nd3 = onControl (\<lambda>_. c) face nd2"
  have dv: "demandVec n c = demandVec n (controlOf nd2 face)" using demandVec_slot_ops(2) [of n "mp_threadID s" dtSchedulerMaxSendPerTick "controlOf nd2 face"] tk by simp
  have ok3: "queue_ok cf s nd3" by (rule queue_ok_node [OF ok2]) (simp add: nd3_def n_def [symmetric] dv)
  define s1 where "s1 = onExec (\<lambda>x. x\<lparr>ex_tickCount := ex_tickCount x + 1\<rparr>) face s"
  consider "pending = 0" | "pending \<noteq> 0" "b \<le> 0" | "pending \<noteq> 0" "0 < b" by linarith
  then show ?thesis
  proof cases
    case 1
    then have "st' = (s, nd2, t)" using d bl lp by (auto simp: drainDtInterestForFace_def Let_def)
    then show ?thesis using 1 pend ok2 by (simp add: drains_refl)
  next
    case 2
    then have "st' = (onExec logDtSchedulerSummary face (onExec (\<lambda>x. x\<lparr>ex_tokenMisses := ex_tokenMisses x + 1\<rparr>) face s1),
        onControl (noteDtRoundSchedulerEvent n (mp_threadID s) pending 0 0 True 0 0) face nd3, t)"
      using d bl lp tk by (auto simp: drainDtInterestForFace_def Let_def n_def s1_def nd3_def)
    moreover have "queue_ok cf s (onControl (noteDtRoundSchedulerEvent n (mp_threadID s) pending 0 0 True 0 0) face nd3)"
      by (rule queue_ok_node [OF ok3]) (simp add: n_def)
    ultimately show ?thesis using 2 bud by (simp add: drains_refl s1_def)
  next
    case 3
    define d0 where "d0 = \<lparr>ds_s = s1, ds_nd = nd3, ds_t = t, ds_used = 0, ds_sendFail = 0, ds_emptyBudget = 0\<rparr>"
    define d1 where "d1 = drainLoop cf faces now face (nat b) d0"
    obtain nd6 where st': "st' = (onExec logDtSchedulerSummary face (ds_s d1), nd6, ds_t d1)"
      and nd6: "\<And>f. demandVec n (controlOf nd6 f) = demandVec n (controlOf (ds_nd d1) f)"
      using d bl lp tk 3
      by (auto simp: drainDtInterestForFace_def Let_def n_def s1_def nd3_def d0_def d1_def localPendingInterestsForFace_def)
    have "drains cf faces now face (min (nat b) (queuedFor s1 face)) (s1, nd3, t) (ds_s d1, ds_nd d1, ds_t d1)"
      using drainLoop_ok [OF face, of cf d0 faces now "nat b"] ok3 by (simp add: d0_def d1_def s1_def)
    moreover have "queue_ok cf s' nd6 \<longleftrightarrow> queue_ok cf s' (ds_nd d1)" for s'
      using nd6 queue_ok_node by (metis n_def)
    ultimately show ?thesis using bud by (simp add: st' drains_def s1_def queuedFor_def)
  qed
qed

text \<open>
  (C10) One drain of a face that is not blocked.  The number of Interests that leave the thread's
  queues is the smallest of the 64 packets a tick may send, the thread's budget on the face and the
  Interests queued for the face; they are exactly the ones handed to the outgoing pipeline, all were
  assigned to the face, no other Interest leaves a queue, and the recorded demand still equals the queues.
\<close>

theorem face_drain_within_budget:
  assumes ok: "queue_ok cf s nd" and face: "face \<noteq> 0" and nb: "\<not> snd (dtBlockedFace cf now face nd)"
    and d: "drainDtInterestForFace cf faces now face (s, nd, t) = st'"
  shows "drains cf faces now face (min (nat (min 64 (budgetOf cf s nd face))) (queuedFor s face)) (s, nd, t) st'"
  by (rule drain_face [OF ok face nb d])

text \<open>One Interest queued for face 7, on which the thread has a budget of three packets.\<close>

definition demoFwConfig :: fwConfig where
  "demoFwConfig = \<lparr>cf_numThreads = 1, cf_nodeName = [], cf_disableAlt = False,
     cf_failure = getDtFailureConfig [] [] [] []\<rparr>"

definition demoInterest :: InterestPkt where
  "demoInterest = \<lparr>ip_Name = [], ip_Interest = \<lparr>fi_NameV = [], fi_CanBePrefixV = False, fi_MustBeFreshV = False, fi_ForwardingHintV = [],
     fi_NonceV = Some 5, fi_LifetimeV = None, fi_HopLimitV = None\<rparr>, ip_PitToken = [], ip_IncomingFaceID = 2,
     ip_NextHopFaceID = None, ip_NackReason = None\<rparr>"

definition demoItem :: InterestQueueItem where
  "demoItem = \<lparr>iq_Packet = demoInterest, iq_PitEntry = 0, iq_InFace = 2, iq_OwnerThreadID = 0, iq_CandidateFaces = [7, 8],
     iq_AssignedFace = 7, iq_EnqueueTime = 3\<rparr>"

definition demoQueues :: "Multipath \<times> mpNode" where
  "demoQueues = (let (s, nd, _) = enqueueLocalDtInterest demoFwConfig ''p'' demoItem
     (multipathInstantiate 0, onControl (\<lambda>c. c\<lparr>fc_budgetByThread := [3]\<rparr>) 7 newNode) in (s, nd))"

lemma controlOf_newNode [simp]: "controlOf newNode f = zeroControl"
  by (simp add: controlOf_def faceOf_def newNode_def zeroFace_def)

lemma demoQueues_ok: "queue_ok demoFwConfig (fst demoQueues) (snd demoQueues)" "queued (fst demoQueues) = {#demoItem#}"
proof -
  obtain s nd k m where e: "enqueueLocalDtInterest demoFwConfig ''p'' demoItem
     (multipathInstantiate 0, onControl (\<lambda>c. c\<lparr>fc_budgetByThread := [3]\<rparr>) 7 newNode) = (s, nd, k, m)" by (metis prod_cases4)
  have "queue_ok demoFwConfig (multipathInstantiate 0) (onControl (\<lambda>c. c\<lparr>fc_budgetByThread := [3]\<rparr>) 7 newNode)"
    by (rule queue_ok_node [OF queue_ok_initial]) (auto simp: demoFwConfig_def threadSlots_def demandVec_def)
  from enqueue_ok [OF this _ _ e] show "queue_ok demoFwConfig (fst demoQueues) (snd demoQueues)" "queued (fst demoQueues) = {#demoItem#}"
    using e by (auto simp: demoQueues_def demoItem_def multipathInstantiate_def queued_def)
qed

theorem face_drain_within_budget_witness:
  "queued (fst (drainDtInterestForFace demoFwConfig [] 9 7 (fst demoQueues, snd demoQueues, newFwThread 0))) = {#}"
proof -
  have nb: "\<not> snd (dtBlockedFace demoFwConfig 9 7 (snd demoQueues))"
    by (simp add: dtBlockedFace_def dtFailureSnapshotNode_def dtFailureSnapshotOf_def demoFwConfig_def getDtFailureConfig_def trimSpace_def)
  have b: "budgetOf demoFwConfig (fst demoQueues) (snd demoQueues) 7 = 3"
    by (simp add: budgetOf_def demoQueues_def enqueueLocalDtInterest_def demandUpdate_def noteDtThreadDemand_def demoFwConfig_def
        demoItem_def multipathInstantiate_def case_prod_beta Let_def ensureDtControlThreadSlotsLocked_def padTo_def
        zeroControl_def noteLocalPrefixEligibleForFace_def)
  have "queuedFor (fst demoQueues) 7 = 1" by (simp add: queuedFor_def demoQueues_ok demoItem_def)
  with face_drain_within_budget [OF demoQueues_ok(1) _ nb refl, of "[]" "newFwThread 0"] b
  have "drains demoFwConfig [] 9 7 1 (fst demoQueues, snd demoQueues, newFwThread 0)
      (drainDtInterestForFace demoFwConfig [] 9 7 (fst demoQueues, snd demoQueues, newFwThread 0))" by simp
  then obtain items where "length items = 1"
    "{#demoItem#} = mset items + queued (fst (drainDtInterestForFace demoFwConfig [] 9 7 (fst demoQueues, snd demoQueues, newFwThread 0)))"
    by (auto simp: drains_def demoQueues_ok)
  then show ?thesis by (cases items) (auto simp: add_mset_eq_single)
qed

end
