(* ===== verification/Mp_Failover.thy ===== *)
theory Mp_Failover
  imports Mp_Drain
begin

text \<open>
  Reassignment when a face fails: every queued Interest that has another face to go to leaves the
  failed one, nothing is lost, and the demand still equals the queues.  And the failure itself is
  active exactly once, in its window.
\<close>

subsection \<open>Selection always finds a face\<close>

lemma wrrVisit_selected: "f \<noteq> 0 \<Longrightarrow> ws_selected (wrrVisit weightOf w f) \<noteq> 0 \<and> ws_selected (wrrVisit weightOf w f) \<in> {f, ws_selected w}"
  by (auto simp: wrrVisit_def Let_def)

lemma foldl_wrrVisit_selected:
  "0 \<notin> set fs \<Longrightarrow> ws_selected (foldl (wrrVisit weightOf) w fs) \<in> insert (ws_selected w) (set fs)
    \<and> (fs \<noteq> [] \<longrightarrow> ws_selected (foldl (wrrVisit weightOf) w fs) \<noteq> 0)"
proof (induction fs arbitrary: w)
  case (Cons f fs)
  then have f: "f \<noteq> 0" by auto
  note v = wrrVisit_selected [OF f, of weightOf w]
  have "ws_selected (foldl (wrrVisit weightOf) (wrrVisit weightOf w f) fs) \<in> insert (ws_selected (wrrVisit weightOf w f)) (set fs)"
    "fs \<noteq> [] \<longrightarrow> ws_selected (foldl (wrrVisit weightOf) (wrrVisit weightOf w f) fs) \<noteq> 0"
    using Cons.IH [of "wrrVisit weightOf w f"] Cons.prems by auto
  then show ?case using v by (cases "fs = []") auto
qed simp

lemma select_member:
  assumes "fs \<noteq> []" "0 \<notin> set fs" "selectDtAssignedFaceWRR weightOf p fs s = (s', g)"
  shows "g \<in> set fs" "g \<noteq> 0" "\<exists>a. s' = s\<lparr>mp_assignByPrefix := a\<rparr>"
  using assms foldl_wrrVisit_selected [OF assms(2), of weightOf "\<lparr>ws_credits = as_credits (getDtPrefixAssignState s p), ws_total = 0, ws_selected = 0, ws_best = 0\<rparr>"]
  by (auto simp: selectDtAssignedFaceWRR_def Let_def)

subsection \<open>One Interest\<close>

definition countFace :: "faceId \<Rightarrow> InterestQueueItem list \<Rightarrow> nat" where
  "countFace f q = length (filter (\<lambda>i. iq_AssignedFace i = f) q)"

definition itemBody :: "InterestQueueItem \<Rightarrow> InterestPkt \<times> nat \<times> faceId \<times> int \<times> gotime" where
  "itemBody i = (iq_Packet i, iq_PitEntry i, iq_InFace i, iq_OwnerThreadID i, iq_EnqueueTime i)"

text \<open>Where an Interest of the failed face could go.\<close>

definition survivorsOf :: "mpNode \<Rightarrow> string \<Rightarrow> faceId \<Rightarrow> InterestQueueItem \<Rightarrow> faceId list" where
  "survivorsOf nd p blocked i =
    (let own = dtFilterFacesWithoutFailure (iq_CandidateFaces i) blocked
     in if own = [] then blockedFaceFallbackCandidates nd p blocked else own)"

lemma survivors_subset: "blocked \<noteq> 0 \<Longrightarrow> set (survivorsOf nd p blocked i) \<subseteq>
    (set (iq_CandidateFaces i) \<union> set (pi_DtValidFaces (getPathDiscoveryInfo nd p))) - {blocked}"
  by (auto simp: survivorsOf_def blockedFaceFallbackCandidates_def dtFilterFacesWithoutFailure_def Let_def split: if_splits)

lemma info_demandUpdate [simp]: "nd_info (demandUpdate cf s f d nd) = nd_info nd"
  by (simp add: demandUpdate_def)

lemma survivorsOf_info: "nd_info nd = nd_info nd' \<Longrightarrow> survivorsOf nd p b i = survivorsOf nd' p b i"
  by (simp add: survivorsOf_def blockedFaceFallbackCandidates_def getPathDiscoveryInfo_def Let_def)

definition thread_ok :: "fwConfig \<Rightarrow> Multipath \<Rightarrow> Multipath \<Rightarrow> bool" where
  "thread_ok cf s s' \<longleftrightarrow> tables_ok s' \<and> mp_threadID s' = mp_threadID s \<and> mp_queuesByPrefix s' = mp_queuesByPrefix s
     \<and> (\<forall>f. set (prefixesOf s f) \<subseteq> set (prefixesOf s' f))"

lemma thread_ok_trans: "thread_ok cf s s' \<Longrightarrow> thread_ok cf s' s'' \<Longrightarrow> thread_ok cf s s''"
  by (auto simp: thread_ok_def)

text \<open>What the reassignment of the items \<open>q\<close> to \<open>q'\<close> does to the thread and to the demand.\<close>

definition moved ::
  "fwConfig \<Rightarrow> string \<Rightarrow> faceId \<Rightarrow> InterestQueueItem list \<Rightarrow> Multipath \<times> mpNode \<Rightarrow> Multipath \<times> mpNode \<Rightarrow> InterestQueueItem list \<Rightarrow> nat \<Rightarrow> bool" where
  "moved cf p blocked q st st' q' k \<longleftrightarrow> thread_ok cf (fst st) (fst st') \<and> nd_info (snd st') = nd_info (snd st)
     \<and> map itemBody q' = map itemBody q
     \<and> (\<forall>i \<in> set q'. 0 \<notin> set (iq_CandidateFaces i) \<and> iq_AssignedFace i \<noteq> 0 \<and> p \<in> set (prefixesOf (fst st') (iq_AssignedFace i))
          \<and> (iq_AssignedFace i = blocked \<longrightarrow> survivorsOf (snd st) p blocked i = []))
     \<and> (\<forall>f. f \<noteq> 0 \<longrightarrow> demandOf cf (fst st) (snd st') f = demandOf cf (fst st) (snd st) f - int (countFace f q) + int (countFace f q'))
     \<and> k + countFace blocked q' = countFace blocked q"

lemma reassignItem_ok:
  assumes slot: "slot_ok cf s" and t: "tables_ok s" and b: "blocked \<noteq> 0"
    and i: "iq_OwnerThreadID item = mp_threadID s" "iq_AssignedFace item \<noteq> 0" "p \<in> set (prefixesOf s (iq_AssignedFace item))"
    and z: "0 \<notin> set (iq_CandidateFaces item)" "0 \<notin> set (pi_DtValidFaces (getPathDiscoveryInfo nd p))"
    and dem: "iq_AssignedFace item = blocked \<Longrightarrow> 1 \<le> demandOf cf s nd blocked" "\<forall>f. f \<noteq> 0 \<longrightarrow> 0 \<le> demandOf cf s nd f"
    and r: "reassignItem cf p blocked item (s, nd) = (st', item', k)"
  shows "moved cf p blocked [item] (s, nd) st' [item'] k"
proof (cases "iq_AssignedFace item = blocked \<and> survivorsOf nd p blocked item \<noteq> []")
  case False
  then have "st' = (s, nd) \<and> item' = item \<and> k = 0"
    using r i by (auto simp: reassignItem_def assignedHere_def survivorsOf_def Let_def split: if_splits)
  then show ?thesis using i t z(1) False by (auto simp: moved_def thread_ok_def)
next
  case True
  let ?sv = "survivorsOf nd p blocked item"
  obtain s1 g where sel: "selectDtAssignedFaceWRR (dtCurrentFaceWeight nd) p ?sv s = (s1, g)" by fastforce
  have z': "0 \<notin> set ?sv" using survivors_subset [OF b, of nd p item] z by auto
  note m = select_member [OF conjunct2 [OF True] z' sel]
  obtain a where s1: "s1 = s\<lparr>mp_assignByPrefix := a\<rparr>" using m(3) by blast
  have gb: "g \<noteq> blocked" using m(1) survivors_subset [OF b, of nd p item] by auto
  let ?s' = "noteLocalPrefixEligibleForFace g p s1" and ?nd1 = "demandUpdate cf s1 blocked (- 1) nd"
  have res: "st' = (?s', demandUpdate cf s1 g 1 ?nd1)" "item' = item\<lparr>iq_CandidateFaces := ?sv, iq_AssignedFace := g\<rparr>" "k = 1"
    using r True i sel m(2) by (auto simp: reassignItem_def assignedHere_def survivorsOf_def Let_def split: if_splits)
  have t1: "tables_ok s1" using t by (simp add: s1)
  have th: "thread_ok cf s ?s'"
    using tables_ok_eligible(1) [OF t1] prefixes_eligible_mono [OF t1] by (auto simp: thread_ok_def s1)
  have d: "demandOf cf s (demandUpdate cf s1 g 1 ?nd1) f = demandOf cf s nd f - (if f = blocked then 1 else 0) + (if f = g then 1 else 0)"
    if "f \<noteq> 0" for f
  proof -
    have thr: "mp_threadID s1 = mp_threadID s" by (simp add: s1)
    have "demandOf cf s (demandUpdate cf s1 g 1 ?nd1) f =
        (if f = g then max 0 (demandOf cf s ?nd1 g + 1) else demandOf cf s ?nd1 f)" by (rule demandOf_update [OF slot thr])
    moreover have "demandOf cf s ?nd1 h = (if h = blocked then max 0 (demandOf cf s nd blocked + (- 1)) else demandOf cf s nd h)" for h
      by (rule demandOf_update [OF slot thr])
    ultimately show ?thesis using dem True gb m(2) that by (auto simp: max_def)
  qed
  show ?thesis
    using th d m(2) z' prefix_eligible [OF t1] gb True b
    by (auto simp: moved_def res itemBody_def countFace_def)
qed

lemma moved_cons:
  assumes "moved cf p blocked [item] st st1 [item'] k" "moved cf p blocked q st1 st2 q' m"
  shows "moved cf p blocked (item # q) st st2 (item' # q') (k + m)"
proof -
  have a: "thread_ok cf (fst st) (fst st1)" "nd_info (snd st1) = nd_info (snd st)" "itemBody item' = itemBody item"
    "0 \<notin> set (iq_CandidateFaces item')" "iq_AssignedFace item' \<noteq> 0" "p \<in> set (prefixesOf (fst st1) (iq_AssignedFace item'))"
    "iq_AssignedFace item' = blocked \<longrightarrow> survivorsOf (snd st) p blocked item' = []"
    "\<forall>f. f \<noteq> 0 \<longrightarrow> demandOf cf (fst st) (snd st1) f = demandOf cf (fst st) (snd st) f - int (countFace f [item]) + int (countFace f [item'])"
    "k + countFace blocked [item'] = countFace blocked [item]"
    using assms(1) by (auto simp: moved_def)
  have c: "countFace f (x # xs) = countFace f [x] + countFace f xs" for f x xs by (simp add: countFace_def)
  have thr: "mp_threadID (fst st1) = mp_threadID (fst st)" using a(1) by (simp add: thread_ok_def)
  have sv: "survivorsOf (snd st1) p blocked i = survivorsOf (snd st) p blocked i" for i by (rule survivorsOf_info [OF a(2)])
  have mono: "set (prefixesOf (fst st1) f) \<subseteq> set (prefixesOf (fst st2) f)" for f using assms(2) by (auto simp: moved_def thread_ok_def)
  have d2: "demandOf cf (fst st) (snd st2) f = demandOf cf (fst st) (snd st1) f - int (countFace f q) + int (countFace f q')" if "f \<noteq> 0" for f
    using assms(2) that demandOf_thread [OF thr] by (auto simp: moved_def)
  show ?thesis
    using assms(2) a thread_ok_trans [OF a(1)] mono d2 c [of _ item q] c [of _ item' q']
    unfolding moved_def sv by (auto simp: subset_iff)
qed

lemma reassignQueue_ok:
  assumes "slot_ok cf s" "tables_ok s" "blocked \<noteq> 0"
    "\<forall>i \<in> set q. iq_OwnerThreadID i = mp_threadID s \<and> iq_AssignedFace i \<noteq> 0 \<and> p \<in> set (prefixesOf s (iq_AssignedFace i)) \<and> 0 \<notin> set (iq_CandidateFaces i)"
    "0 \<notin> set (pi_DtValidFaces (getPathDiscoveryInfo nd p))"
    "\<forall>f. f \<noteq> 0 \<longrightarrow> int (countFace f q) \<le> demandOf cf s nd f"
    "reassignQueue cf p blocked q (s, nd) = (st', q', k)"
  shows "moved cf p blocked q (s, nd) st' q' k"
  using assms
proof (induction q arbitrary: s nd st' q' k)
  case Nil
  then show ?case by (auto simp: moved_def thread_ok_def)
next
  case (Cons item q)
  obtain s1 nd1 item1 k1 where r1: "reassignItem cf p blocked item (s, nd) = ((s1, nd1), item1, k1)" by (metis prod_cases3 surj_pair)
  obtain st2 q1 m where r2: "reassignQueue cf p blocked q (s1, nd1) = (st2, q1, m)" by (metis prod_cases3)
  have res: "st' = st2" "q' = item1 # q1" "k = k1 + m" using Cons.prems(7) r1 r2 by (auto simp: Let_def)
  have c: "countFace f (item # q) = (if iq_AssignedFace item = f then 1 else 0) + countFace f q" for f by (simp add: countFace_def)
  have mv: "moved cf p blocked [item] (s, nd) (s1, nd1) [item1] k1"
    by (rule reassignItem_ok [OF Cons.prems(1-3) _ _ _ _ Cons.prems(5) _ _ r1]) (use Cons.prems(4,6) c in \<open>force+\<close>)
  then have th: "thread_ok cf s s1" "nd_info nd1 = nd_info nd"
    and d1: "\<forall>f. f \<noteq> 0 \<longrightarrow> demandOf cf s nd1 f = demandOf cf s nd f - int (countFace f [item]) + int (countFace f [item1])"
    by (auto simp: moved_def)
  have thr: "mp_threadID s1 = mp_threadID s" using th(1) by (simp add: thread_ok_def)
  have "moved cf p blocked q (s1, nd1) st2 q1 m"
  proof (rule Cons.IH [OF _ _ Cons.prems(3) _ _ _ r2])
    show "slot_ok cf s1" "tables_ok s1" using Cons.prems(1) th(1) by (auto simp: slot_ok_def thread_ok_def)
    show "\<forall>i \<in> set q. iq_OwnerThreadID i = mp_threadID s1 \<and> iq_AssignedFace i \<noteq> 0 \<and> p \<in> set (prefixesOf s1 (iq_AssignedFace i)) \<and> 0 \<notin> set (iq_CandidateFaces i)"
      using Cons.prems(4) th(1) by (auto simp: thread_ok_def)
    show "0 \<notin> set (pi_DtValidFaces (getPathDiscoveryInfo nd1 p))" using Cons.prems(5) th(2) by (simp add: getPathDiscoveryInfo_def)
    show "\<forall>f. f \<noteq> 0 \<longrightarrow> int (countFace f q) \<le> demandOf cf s1 nd1 f"
      using Cons.prems(6) d1 c demandOf_thread [OF thr] by (auto simp: countFace_def split: if_splits)
  qed
  from moved_cons [OF mv this] show ?case by (simp add: res)
qed

subsection \<open>All queues of the thread\<close>

definition faces_named :: "Multipath \<Rightarrow> mpNode \<Rightarrow> bool" where
  "faces_named s nd \<longleftrightarrow> (\<forall>p. 0 \<notin> set (pi_DtValidFaces (getPathDiscoveryInfo nd p)) \<and> (\<forall>i \<in> set (queueOf s p). 0 \<notin> set (iq_CandidateFaces i)))"

definition evacuated :: "mpNode \<Rightarrow> faceId \<Rightarrow> Multipath \<Rightarrow> string \<Rightarrow> bool" where
  "evacuated nd blocked s p \<longleftrightarrow> (\<forall>i \<in> set (queueOf s p). iq_AssignedFace i = blocked \<longrightarrow> survivorsOf nd p blocked i = [])"

lemma countFace_mset: "size (filter_mset (\<lambda>i. iq_AssignedFace i = f) (mset q)) = countFace f q"
  by (simp add: countFace_def flip: mset_filter)

lemma queuedFor_put:
  assumes "gm_ok (mp_queuesByPrefix s)"
  shows "queuedFor (s\<lparr>mp_queuesByPrefix := gm_put p q (mp_queuesByPrefix s)\<rparr>) f + countFace f (queueOf s p) = queuedFor s f + countFace f q"
  using arg_cong [OF queued_put [OF assms, of p q], of "\<lambda>M. size (filter_mset (\<lambda>i. iq_AssignedFace i = f) M)"]
  by (simp add: queuedFor_def countFace_mset)

lemma queued_same: "mp_queuesByPrefix s = mp_queuesByPrefix s' \<Longrightarrow> queued s = queued s'"
  "mp_queuesByPrefix s = mp_queuesByPrefix s' \<Longrightarrow> queueOf s p = queueOf s' p"
  by (simp_all add: queued_def queueOf_def)

lemma reassignPrefix_ok:
  assumes ok: "queue_ok cf s nd" and b: "blocked \<noteq> 0" and z: "faces_named s nd"
    and r: "reassignPrefix cf blocked ((s, nd), m) p = ((s', nd'), m')"
  shows "queue_ok cf s' nd' \<and> faces_named s' nd' \<and> nd_info nd' = nd_info nd \<and> mp_threadID s' = mp_threadID s
    \<and> (\<forall>q. q \<noteq> p \<longrightarrow> queueOf s' q = queueOf s q) \<and> evacuated nd blocked s' p
    \<and> map itemBody (queueOf s' p) = map itemBody (queueOf s p) \<and> m' + queuedFor s' blocked = m + queuedFor s blocked"
proof -
  define q where "q = queueOf s p"
  obtain s1 nd1 q' k where rq: "reassignQueue cf p blocked q (s, nd) = ((s1, nd1), q', k)" by (metis prod_cases3 surj_pair)
  have res: "s' = s1\<lparr>mp_queuesByPrefix := gm_put p q' (mp_queuesByPrefix s1)\<rparr>" "nd' = nd1" "m' = m + k"
    using r rq by (auto simp: reassignPrefix_def q_def queueOf_def)
  have g: "gm_ok (mp_queuesByPrefix s)" "slot_ok cf s" "tables_ok s" using ok by (auto simp: queue_ok_def index_ok_tables)
  have dem: "\<forall>f. f \<noteq> 0 \<longrightarrow> int (countFace f q) \<le> demandOf cf s nd f"
  proof (intro allI impI)
    fix f :: faceId assume "f \<noteq> 0"
    moreover have "countFace f q \<le> queuedFor s f" using queuedFor_put [OF g(1), of p "[]" f] by (simp add: q_def countFace_def)
    ultimately show "int (countFace f q) \<le> demandOf cf s nd f" using ok by (auto simp: queue_ok_def)
  qed
  have mv: "moved cf p blocked q (s, nd) (s1, nd1) q' k"
    by (rule reassignQueue_ok [OF g(2,3) b _ _ dem rq]) (use ok z in \<open>auto simp: queue_ok_def index_ok_tables q_def faces_named_def\<close>)
  have th: "thread_ok cf s s1" "nd_info nd1 = nd_info nd" and body: "map itemBody q' = map itemBody q"
    and new: "\<forall>i \<in> set q'. 0 \<notin> set (iq_CandidateFaces i) \<and> iq_AssignedFace i \<noteq> 0 \<and> p \<in> set (prefixesOf s1 (iq_AssignedFace i))
          \<and> (iq_AssignedFace i = blocked \<longrightarrow> survivorsOf nd p blocked i = [])"
    and d1: "\<forall>f. f \<noteq> 0 \<longrightarrow> demandOf cf s nd1 f = demandOf cf s nd f - int (countFace f q) + int (countFace f q')"
    and k: "k + countFace blocked q' = countFace blocked q" using mv by (auto simp: moved_def)
  have same: "mp_queuesByPrefix s1 = mp_queuesByPrefix s" "mp_threadID s1 = mp_threadID s" using th(1) by (auto simp: thread_ok_def)
  have g1: "gm_ok (mp_queuesByPrefix s1)" using g(1) same by simp
  have qs: "queueOf s' r = (if r = p then q' else queueOf s r)" for r using queued_same(2) [OF same(1)] by (simp add: res)
  have qf: "queuedFor s' f + countFace f q = queuedFor s f + countFace f q'" for f
    using queuedFor_put [OF g1, of p q' f] queued_same [OF same(1)] by (simp add: res queuedFor_def q_def)
  have owner: "iq_OwnerThreadID i = mp_threadID s" if "i \<in> set q'" for i
  proof -
    have "itemBody i \<in> itemBody ` set q" using arg_cong [OF body, of set] that by auto
    then obtain j where j: "j \<in> set q" "itemBody j = itemBody i" by auto
    then show ?thesis using ok by (auto simp: queue_ok_def index_ok_tables q_def itemBody_def)
  qed
  have idx: "index_ok s'"
  proof (unfold index_ok_tables, intro conjI allI ballI)
    show "gm_ok (mp_queuesByPrefix s')" "tables_ok s'" using g1 th(1) by (auto simp: res thread_ok_def)
    fix r i assume "i \<in> set (queueOf s' r)"
    then have "r = p \<and> i \<in> set q' \<or> i \<in> set (queueOf s r)" by (auto simp: qs split: if_splits)
    then have c: "r = p \<and> i \<in> set q' \<or> iq_OwnerThreadID i = mp_threadID s \<and> iq_AssignedFace i \<noteq> 0 \<and> r \<in> set (prefixesOf s (iq_AssignedFace i))"
      using ok by (auto simp: queue_ok_def index_ok_tables)
    then show "iq_OwnerThreadID i = mp_threadID s'" "iq_AssignedFace i \<noteq> 0" using new owner same(2) by (auto simp: res)
    have "set (prefixesOf s f) \<subseteq> set (prefixesOf s1 f)" for f using th(1) by (auto simp: thread_ok_def)
    then show "r \<in> set (prefixesOf s' (iq_AssignedFace i))" using c new by (auto simp: res)
  qed
  have "demandOf cf s' nd' f = int (queuedFor s' f)" if "f \<noteq> 0" for f
  proof -
    have "demandOf cf s' nd' f = demandOf cf s nd1 f" using same(2) by (simp add: res demandOf_def)
    then show ?thesis using d1 ok that qf [of f] by (auto simp: queue_ok_def)
  qed
  then have "queue_ok cf s' nd'" using idx g(2) same(2) by (simp add: queue_ok_def slot_ok_def res)
  moreover have "faces_named s' nd'" using z new th(2) unfolding faces_named_def qs res(2) by (auto simp: getPathDiscoveryInfo_def)
  moreover have "evacuated nd blocked s' p" using new by (simp add: evacuated_def qs)
  moreover have "map itemBody (queueOf s' p) = map itemBody (queueOf s p)" unfolding qs q_def [symmetric] using body by simp
  moreover have "m' + queuedFor s' blocked = m + queuedFor s blocked" using qf [of blocked] k res(3) by linarith
  moreover have "nd_info nd' = nd_info nd" "mp_threadID s' = mp_threadID s" using th(2) same(2) by (simp_all add: res)
  moreover have "\<forall>q. q \<noteq> p \<longrightarrow> queueOf s' q = queueOf s q" by (simp add: qs)
  ultimately show ?thesis by blast
qed

lemma reassign_foldl:
  assumes "queue_ok cf s nd" "blocked \<noteq> 0" "faces_named s nd"
  shows "foldl (reassignPrefix cf blocked) ((s, nd), 0) ps = ((s', nd'), k) \<Longrightarrow>
    queue_ok cf s' nd' \<and> faces_named s' nd' \<and> nd_info nd' = nd_info nd
    \<and> (\<forall>p \<in> set ps. evacuated nd blocked s' p) \<and> (\<forall>p. p \<notin> set ps \<longrightarrow> queueOf s' p = queueOf s p)
    \<and> (\<forall>p. map itemBody (queueOf s' p) = map itemBody (queueOf s p)) \<and> k + queuedFor s' blocked = queuedFor s blocked"
proof (induction ps arbitrary: s' nd' k rule: rev_induct)
  case Nil
  then show ?case using assms by simp
next
  case (snoc p ps)
  obtain s1 nd1 m where f: "foldl (reassignPrefix cf blocked) ((s, nd), 0) ps = ((s1, nd1), m)" by (metis surj_pair)
  have r: "reassignPrefix cf blocked ((s1, nd1), m) p = ((s', nd'), k)" using snoc.prems f by simp
  note IH = snoc.IH [OF f]
  then have inv: "queue_ok cf s1 nd1" "faces_named s1 nd1" "nd_info nd1 = nd_info nd" by auto
  note st = reassignPrefix_ok [OF inv(1) assms(2) inv(2) r]
  have ev: "evacuated nd1 blocked s' p \<longleftrightarrow> evacuated nd blocked s' p" using survivorsOf_info [OF inv(3)] by (simp add: evacuated_def)
  have "evacuated nd blocked s' q" if "q \<in> set (ps @ [p])" for q
    using that st ev IH by (cases "q = p") (auto simp: evacuated_def)
  moreover have "map itemBody (queueOf s' q) = map itemBody (queueOf s q)" for q
    using st IH by (cases "q = p") auto
  ultimately show ?case using st IH inv(3) by auto
qed

text \<open>
  (C7) When a face fails, the thread's queued Interests leave it.  After the reassignment every
  Interest that still waits for the failed face has no other valid face to go to; the queues hold
  the same Interests in the same order; the demand recorded for every face equals the queues; and
  the number reported is the number of Interests that left the face.
\<close>

theorem failed_face_evacuated:
  assumes "queue_ok cf s nd" "faces_named s nd" "blocked \<noteq> 0"
    "reassignLocalDtInterestsFromFailedFace cf blocked (s, nd) = ((s', nd'), k)"
  shows "queue_ok cf s' nd' \<and> (\<forall>p. evacuated nd blocked s' p)
    \<and> (\<forall>p. map itemBody (queueOf s' p) = map itemBody (queueOf s p)) \<and> k + queuedFor s' blocked = queuedFor s blocked"
proof -
  have f: "foldl (reassignPrefix cf blocked) ((s, nd), 0) (map fst (mp_queuesByPrefix s)) = ((s', nd'), k)"
    using assms(3,4) by (simp add: reassignLocalDtInterestsFromFailedFace_def)
  note r = reassign_foldl [OF assms(1,3,2) f]
  have "evacuated nd blocked s' p" for p
  proof (cases "p \<in> set (map fst (mp_queuesByPrefix s))")
    case False
    then have "map_of (mp_queuesByPrefix s) p = None" by (simp add: map_of_eq_None_iff)
    then have "queueOf s p = []" by (simp add: queueOf_def gm_get0_def)
    then have "queueOf s' p = []" using r by (metis map_is_Nil_conv)
    then show ?thesis by (simp add: evacuated_def)
  qed (use r in auto)
  then show ?thesis using r by blast
qed

lemma info_noteQueue [simp]: "nd_info (fst (noteDtGlobalPrefixQueue p d nd)) = nd_info nd"
  by (simp add: noteDtGlobalPrefixQueue_def Let_def)

lemma demoQueues_content: "queueOf (fst demoQueues) p = (if p = ''p'' then [demoItem] else [])" "nd_info (snd demoQueues) = []"
proof -
  have "iq_AssignedFace demoItem \<noteq> 0" by (simp add: demoItem_def)
  then show "queueOf (fst demoQueues) p = (if p = ''p'' then [demoItem] else [])" "nd_info (snd demoQueues) = []"
    by (simp_all add: demoQueues_def enqueueLocalDtInterest_def case_prod_beta Let_def)
      (simp_all add: queueOf_def multipathInstantiate_def newNode_def)
qed

definition demoFailing :: mpNode where
  "demoFailing = putInfo ''p'' ((newPathDiscoveryInfo ''p'')\<lparr>pi_DtValidFaces := [7, 8]\<rparr>) (snd demoQueues)"

theorem failed_face_evacuated_witness:
  "queuedFor (fst (fst (reassignLocalDtInterestsFromFailedFace demoFwConfig 7 (fst demoQueues, demoFailing)))) 7 = 0"
proof -
  obtain s' nd' k where r: "reassignLocalDtInterestsFromFailedFace demoFwConfig 7 (fst demoQueues, demoFailing) = ((s', nd'), k)" by (metis surj_pair)
  note q = demoQueues_content(1)
  have info: "pi_DtValidFaces (getPathDiscoveryInfo demoFailing p) = (if p = ''p'' then [7, 8] else [])" for p
    by (simp add: demoFailing_def putInfo_def getPathDiscoveryInfo_def demoQueues_content(2) newPathDiscoveryInfo_def gm_get0_def)
  have ok: "queue_ok demoFwConfig (fst demoQueues) demoFailing"
    by (rule queue_ok_node [OF demoQueues_ok(1)]) (simp add: demoFailing_def putInfo_def controlOf_def faceOf_def)
  have fn: "faces_named (fst demoQueues) demoFailing" by (simp add: faces_named_def info q demoItem_def)
  have n7: "(7 :: faceId) \<noteq> 0" by simp
  note t = failed_face_evacuated [OF ok fn n7 r]
  have ok': "queue_ok demoFwConfig s' nd'" and ev: "\<And>p. evacuated demoFailing 7 s' p"
    and body: "\<And>p. map itemBody (queueOf s' p) = map itemBody (queueOf (fst demoQueues) p)" using t by blast+
  have "iq_AssignedFace i \<noteq> 7" if mem: "i \<in># queued s'" for i
  proof
    assume a: "iq_AssignedFace i = 7"
    have g: "gm_ok (mp_queuesByPrefix s')" using ok' by (simp add: queue_ok_def index_ok_tables)
    obtain p where p: "i \<in> set (queueOf s' p)" using mem queueOf_queued [OF g] by blast
    have "p = ''p''" using p q [of p] body [of p] by (cases "p = ''p''") auto
    moreover have "survivorsOf demoFailing p 7 i = []" using ev [of p] a p by (auto simp: evacuated_def)
    moreover have "blockedFaceFallbackCandidates demoFailing ''p'' 7 = [8]"
      by (simp add: blockedFaceFallbackCandidates_def dtFilterFacesWithoutFailure_def info)
    ultimately show False by (simp add: survivorsOf_def Let_def split: if_splits)
  qed
  then have "filter_mset (\<lambda>i. iq_AssignedFace i = 7) (queued s') = {#}" by (simp add: filter_mset_eq_conv)
  then show ?thesis by (simp add: r queuedFor_def)
qed

end
