(* ===== verification/Mp_Discovery.thy ===== *)
theory Mp_Discovery
  imports Mp_Failover
begin

text \<open>
  Path discovery of the multipath strategy (\<open>fw/fw/multipath.go\<close>): the next hops of a prefix in
  tiers of equal cost, the probing of one tier after the other, the faces that turn out invalid, and
  the convergence that fixes the faces for data transmission.  The handlers work on the state of the
  prefix and on the node; what they send goes to the thread.
\<close>

abbreviation NackReasonNone :: u64 where "NackReasonNone \<equiv> 0"
abbreviation NackReasonNoRoute :: u64 where "NackReasonNoRoute \<equiv> 150"

type_synonym pdState = "PathDiscoveryInfo \<times> mpNode"

subsection \<open>Tiers\<close>

definition snapshotNexthops :: "FibNextHopEntry list \<Rightarrow> hopSnapshot list" where
  "snapshotNexthops nexthops = map (\<lambda>nh. \<lparr>hs_Nexthop = nh_Nexthop nh, hs_Cost = nh_Cost nh\<rparr>) nexthops"

definition keepFirst :: "'a list \<Rightarrow> 'a list" where
  "keepFirst xs = foldl (\<lambda>seen x. if x \<in> set seen then seen else seen @ [x]) [] xs"

definition groupHopSnapshotsByCost :: "hopSnapshot list \<Rightarrow> hopSnapshot list list \<times> u64 list" where
  "groupHopSnapshotsByCost hops =
    (let costs = sort (keepFirst (map hs_Cost hops))
     in (map (\<lambda>cost. filter (\<lambda>hop. hs_Cost hop = cost) hops) costs, costs))"

definition removeFaceFromWaitList :: "faceId \<Rightarrow> PathDiscoveryInfo \<Rightarrow> PathDiscoveryInfo" where
  "removeFaceFromWaitList face info =
    info\<lparr>pi_WaitList := map (filter (\<lambda>hop. hs_Nexthop hop \<noteq> face)) (pi_WaitList info)\<rparr>"

definition removeFaceFromProbedUpstreams :: "faceId \<Rightarrow> PathDiscoveryInfo \<Rightarrow> PathDiscoveryInfo" where
  "removeFaceFromProbedUpstreams face info = info\<lparr>pi_ProbedUpstreams := remove1 face (pi_ProbedUpstreams info)\<rparr>"

text \<open>The five steps with which the handlers exclude a face.\<close>

definition excludeFace :: "faceId \<Rightarrow> PathDiscoveryInfo \<Rightarrow> PathDiscoveryInfo" where
  "excludeFace face info =
    (let i1 = removeFaceFromWaitList face (info\<lparr>pi_ValidUpstreams := gm_del face (pi_ValidUpstreams info)\<rparr>)
     in removeFaceFromProbedUpstreams face
          (i1\<lparr>pi_ConvergedUpstreamTier := gm_del face (pi_ConvergedUpstreamTier i1),
              pi_ConvergedUpstreamNode := gm_del face (pi_ConvergedUpstreamNode i1)\<rparr>))"

definition dropVanished :: "faceId list \<Rightarrow> PathDiscoveryInfo \<Rightarrow> faceId \<Rightarrow> PathDiscoveryInfo" where
  "dropVanished latestFaces info face =
    (if face \<in> set latestFaces then info
     else removeFaceFromProbedUpstreams face
       (info\<lparr>pi_ValidUpstreams := gm_del face (pi_ValidUpstreams info),
             pi_ConvergedUpstreamTier := gm_del face (pi_ConvergedUpstreamTier info),
             pi_ConvergedUpstreamNode := gm_del face (pi_ConvergedUpstreamNode info),
             pi_FrozenFaces := gm_del face (pi_FrozenFaces info),
             pi_FrozenRecoverFaces := gm_del face (pi_FrozenRecoverFaces info)\<rparr>))"

definition refreshPathDiscoverySnapshot :: "FibNextHopEntry list \<Rightarrow> PathDiscoveryInfo \<Rightarrow> PathDiscoveryInfo" where
  "refreshPathDiscoverySnapshot nexthops info =
    (let latest = snapshotNexthops nexthops
     in if latest = [] then info
        else
          let (latestTiers, latestCosts) = groupHopSnapshotsByCost latest;
              latestFaces = map hs_Nexthop latest;
              i1 = foldl (dropVanished latestFaces) info (map fst (pi_ValidUpstreams info));
              filteredTiers = map (filter (\<lambda>hop. gm_bool (pi_ValidUpstreams i1) (hs_Nexthop hop))) latestTiers;
              filteredProbed = keepFirst (filter (\<lambda>face. face \<in> set latestFaces \<and> gm_bool (pi_ValidUpstreams i1) face) (pi_ProbedUpstreams i1));
              i2 = i1\<lparr>pi_TierList := filteredTiers, pi_WaitList := filteredTiers, pi_TierCostList := latestCosts,
                      pi_ProbedUpstreams := filteredProbed,
                      pi_ProbedSchedulerIndex := (if filteredProbed = [] \<or> pi_ProbedSchedulerIndex i1 \<ge> length filteredProbed
                                                  then 0 else pi_ProbedSchedulerIndex i1)\<rparr>
          in if pi_WaitList i2 = [] then i2\<lparr>pi_CurrentTier := 0\<rparr>
             else if pi_CurrentTier i2 \<ge> length (pi_WaitList i2) then i2\<lparr>pi_CurrentTier := length (pi_WaitList i2) - 1\<rparr>
             else i2)"

definition TierGrouping :: "hopSnapshot list \<Rightarrow> PathDiscoveryInfo \<Rightarrow> PathDiscoveryInfo" where
  "TierGrouping nexthops info =
    (let (tiers, costs) = groupHopSnapshotsByCost nexthops
     in info\<lparr>pi_TierList := tiers, pi_TierCostList := costs, pi_WaitList := tiers, pi_CurrentTier := 0\<rparr>)"

definition areHigherTiersEmpty :: "PathDiscoveryInfo \<Rightarrow> bool" where
  "areHigherTiersEmpty info \<longleftrightarrow> list_all (\<lambda>tier. tier = []) (drop (pi_CurrentTier info + 1) (pi_WaitList info))"

definition isCurrentTierAllInvalid :: "PathDiscoveryInfo \<Rightarrow> bool" where
  "isCurrentTierAllInvalid info \<longleftrightarrow> pi_CurrentTier info \<ge> length (pi_TierList info)
     \<or> list_all (\<lambda>hop. \<not> gm_bool (pi_ValidUpstreams info) (hs_Nexthop hop)) (pi_TierList info ! pi_CurrentTier info)"

subsection \<open>Convergence\<close>

definition flattenDtTierFaces :: "hopSnapshot list list \<Rightarrow> faceId list" where
  "flattenDtTierFaces tiers = keepFirst (map hs_Nexthop (concat tiers))"

definition updateAfterPathDiscovery :: "PathDiscoveryInfo \<Rightarrow> PathDiscoveryInfo" where
  "updateAfterPathDiscovery info =
    (let kept = filter (\<lambda>i. pi_WaitList info ! i \<noteq> []) [0..<length (pi_WaitList info)]
     in info\<lparr>pi_TierList := map (\<lambda>i. pi_WaitList info ! i) kept,
             pi_TierCostList := map (\<lambda>i. pi_TierCostList info ! i) (filter (\<lambda>i. i < length (pi_TierCostList info)) kept)\<rparr>)"

definition ensureDtControlActivated :: "faceId list \<Rightarrow> gotime \<Rightarrow> mpNode \<Rightarrow> mpNode" where
  "ensureDtControlActivated candidateFaces now nd = foldl (\<lambda>nd face. onControl (activateFace now) face nd) nd candidateFaces"

definition localNodeConverged :: "fwConfig \<Rightarrow> gotime \<Rightarrow> pdState \<Rightarrow> pdState" where
  "localNodeConverged cf now st =
    (let (info, nd) = st
     in if pi_IsNodeConverged info then st
        else
          let i1 = updateAfterPathDiscovery (info\<lparr>pi_ConvergedUpstreamTier := [], pi_IsNodeConverged := True\<rparr>);
              faces = flattenDtTierFaces (pi_TierList i1);
              i2 = i1\<lparr>pi_DtValidFaces := faces, pi_DtFaceRateControlEnabled := (length faces > 1),
                      pi_DtBootstrapFaceRR := 0, pi_DtBootstrapProbeCounter := 0\<rparr>;
              nd1 = nd\<lparr>nd_failure := armDtFailureAfterPdConvergence cf i2 now (nd_failure nd)\<rparr>
          in (i2, if pi_DtFaceRateControlEnabled i2 then ensureDtControlActivated faces now nd1 else nd1))"

definition skipTier :: "fwConfig \<Rightarrow> gotime \<Rightarrow> pdState \<Rightarrow> pdState" where
  "skipTier cf now st =
    (let (info, nd) = st; k = pi_CurrentTier info;
         facesToRemove = map hs_Nexthop (concat (drop k (pi_WaitList info)));
         i1 = info\<lparr>pi_WaitList := take k (pi_WaitList info) @ map (\<lambda>_. []) (drop k (pi_WaitList info)),
                   pi_ValidUpstreams := foldl (\<lambda>m f. gm_del f m) (pi_ValidUpstreams info) facesToRemove,
                   pi_ConvergedUpstreamNode := foldl (\<lambda>m f. gm_del f m) (pi_ConvergedUpstreamNode info) facesToRemove\<rparr>
     in if \<not> pi_IsNodeConverged i1 then localNodeConverged cf now (i1, nd) else (i1, nd))"

subsection \<open>Probing\<close>

definition probeHop :: "PathDiscoveryInfo \<Rightarrow> hopSnapshot \<Rightarrow> PathDiscoveryInfo" where
  "probeHop info hop =
    (let face = hs_Nexthop hop
     in info\<lparr>pi_ProbedUpstreams := (if face \<in> set (pi_ProbedUpstreams info) then pi_ProbedUpstreams info
                                    else pi_ProbedUpstreams info @ [face]),
             pi_ConvergedUpstreamTier := gm_put face True (pi_ConvergedUpstreamTier info)\<rparr>)"

definition isDesignatedProducer :: "fwConfig \<Rightarrow> PathDiscoveryInfo \<Rightarrow> bool" where
  "isDesignatedProducer cf info \<longleftrightarrow> hasPrefix (trimPrefix (pi_Prefix info) ''/'') (dtNodeNameNormalized cf)"

definition ProbeTier :: "fwConfig \<Rightarrow> gotime \<Rightarrow> nat \<Rightarrow> pdState \<Rightarrow> pdState" where
  "ProbeTier cf now tierIndex st =
    (let (info, nd) = st
     in if tierIndex \<ge> length (pi_WaitList info) then st
        else
          let i1 = foldl probeHop info (pi_WaitList info ! tierIndex)
          in if \<not> pi_IsNodeConverged i1 \<and> isDesignatedProducer cf i1 then localNodeConverged cf now (i1, nd) else (i1, nd))"

definition ProbeNextTier :: "fwConfig \<Rightarrow> gotime \<Rightarrow> pdState \<Rightarrow> pdState" where
  "ProbeNextTier cf now st =
    (let (info, nd) = st; nextTier = pi_CurrentTier info + 1
     in ProbeTier cf now nextTier (info\<lparr>pi_CurrentTier := nextTier\<rparr>, nd))"

definition removeCostlyTier :: "u64 \<Rightarrow> PathDiscoveryInfo \<Rightarrow> nat \<Rightarrow> PathDiscoveryInfo" where
  "removeCostlyTier thresholdCost info i =
    (if pi_TierCostList info ! i \<ge> thresholdCost
     then let facesToRemove = map hs_Nexthop (pi_WaitList info ! i)
          in info\<lparr>pi_ValidUpstreams := foldl (\<lambda>m f. gm_del f m) (pi_ValidUpstreams info) facesToRemove,
                  pi_ConvergedUpstreamNode := foldl (\<lambda>m f. gm_del f m) (pi_ConvergedUpstreamNode info) facesToRemove,
                  pi_WaitList := (pi_WaitList info)[i := []]\<rparr>
     else info)"

definition StartPathDiscovery :: "fwConfig \<Rightarrow> gotime \<Rightarrow> pdState \<Rightarrow> pdState" where
  "StartPathDiscovery cf now st =
    (let (info, nd) = st;
         all = foldl (\<lambda>m hop. gm_put (hs_Nexthop hop) True m) [] (concat (pi_TierList info));
         i1 = info\<lparr>pi_ValidUpstreams := all, pi_ConvergedUpstreamNode := all, pi_CurrentTier := 0\<rparr>;
         i2 = (case pi_TierCostList i1 of
                 [] \<Rightarrow> i1
               | firstTierCost # _ \<Rightarrow> foldl (removeCostlyTier (firstTierCost * 2)) i1 (rev [1..<length (pi_TierCostList i1)]));
         (i3, nd3) = ProbeTier cf now (pi_CurrentTier i2) (i2, nd)
     in (i3\<lparr>pi_ProbedSchedulerIndex := 0\<rparr>, nd3))"

subsection \<open>Handlers of path discovery packets\<close>

definition compString :: "fwConfig \<Rightarrow> component \<Rightarrow> string" where
  "compString cf c = componentWriteTo (cf_disableAlt cf) c"

definition prefixKeyOf :: "fwConfig \<Rightarrow> name \<Rightarrow> string" where
  "prefixKeyOf cf n = (case n of [] \<Rightarrow> ''/'' | c # _ \<Rightarrow> compString cf c)"

definition isRelevant :: "fwConfig \<Rightarrow> string \<Rightarrow> string \<Rightarrow> bool" where
  "isRelevant cf prefix srcNode =
    (let myNodeName = nameString (cf_disableAlt cf) (cf_nodeName cf);
         my = trimPrefix myNodeName ''/''
     in if hasPrefix myNodeName ''/pro'' then hasPrefix (trimPrefix prefix ''/'') my
        else if hasPrefix myNodeName ''/con'' then hasPrefix (trimPrefix srcNode ''/'') my
        else False)"

definition ensurePdInitialized :: "fwConfig \<Rightarrow> gotime \<Rightarrow> int \<Rightarrow> FibNextHopEntry list \<Rightarrow> pdState \<Rightarrow> pdState" where
  "ensurePdInitialized cf now probeIdx nexthops st =
    (let (info, nd) = st
     in if pi_IsInitialized info then st
        else StartPathDiscovery cf now
               (TierGrouping (snapshotNexthops nexthops) (info\<lparr>pi_IsInitialized := True, pi_ProbeIndex := probeIdx\<rparr>), nd))"

text \<open>Advancing to the probe index of the Interest; \<open>None\<close> when the handler returns.\<close>

definition advanceProbe :: "fwConfig \<Rightarrow> gotime \<Rightarrow> int \<Rightarrow> FibNextHopEntry list \<Rightarrow> pdState \<Rightarrow> pdState \<times> bool" where
  "advanceProbe cf now probeIdx nexthops st =
    (let (info, nd) = st
     in if probeIdx > pi_ProbeIndex info then
          let i1 = refreshPathDiscoverySnapshot nexthops info
          in if int (pi_CurrentTier i1) \<ge> int (length (pi_WaitList i1)) - 1 then ((i1, nd), False)
             else (ProbeNextTier cf now (i1\<lparr>pi_ProbeIndex := probeIdx\<rparr>, nd), True)
        else if probeIdx = pi_ProbeIndex info then (st, True)
        else (st, False))"

definition tierOf :: "faceId \<Rightarrow> hopSnapshot list list \<Rightarrow> nat option" where
  "tierOf face tiers = find (\<lambda>i. list_ex (\<lambda>hop. hs_Nexthop hop = face) (tiers ! i)) [0..<length tiers]"

definition freezeTier :: "nat \<Rightarrow> PathDiscoveryInfo \<Rightarrow> PathDiscoveryInfo" where
  "freezeTier tierIndex info =
    (if pi_IsPdFrozen info then info
     else let hops = map hs_Nexthop (pi_WaitList info ! tierIndex)
          in info\<lparr>pi_IsPdFrozen := True,
                  pi_FrozenFaces := foldl (\<lambda>m f. gm_put f True m) (pi_FrozenFaces info) hops,
                  pi_FrozenRecoverFaces := foldl (\<lambda>m f. gm_put f True m) (pi_FrozenRecoverFaces info) hops\<rparr>)"

text \<open>An Interest from a face that is being probed means a loop: its tier is frozen; otherwise the face is excluded.\<close>

definition noteIngress :: "faceId \<Rightarrow> PathDiscoveryInfo \<Rightarrow> PathDiscoveryInfo \<times> bool" where
  "noteIngress inFace info =
    (if inFace \<in> set (pi_ProbedUpstreams info)
     then case tierOf inFace (pi_WaitList info) of
            Some tierIndex \<Rightarrow> (freezeTier tierIndex info, True)
          | None \<Rightarrow> (info, False)
     else (excludeFace inFace info, True))"

definition completeFrozen :: "faceId \<Rightarrow> PathDiscoveryInfo \<Rightarrow> PathDiscoveryInfo" where
  "completeFrozen outFace info =
    (if pi_IsPdFrozen info \<and> gm_bool (pi_FrozenFaces info) outFace then
       let i1 = info\<lparr>pi_FrozenFaces := gm_del outFace (pi_FrozenFaces info)\<rparr>
       in if length (pi_FrozenFaces i1) = 0
          then (foldl (\<lambda>i face. excludeFace face i) (i1\<lparr>pi_IsPdFrozen := False\<rparr>) (map fst (pi_FrozenRecoverFaces i1)))
                 \<lparr>pi_FrozenRecoverFaces := []\<rparr>
          else i1
     else info)"

definition scheduleProbe ::
  "FaceDispatch \<Rightarrow> gotime \<Rightarrow> InterestPkt \<Rightarrow> nat \<Rightarrow> faceId \<Rightarrow> PathDiscoveryInfo \<times> fwThread \<Rightarrow> PathDiscoveryInfo \<times> fwThread" where
  "scheduleProbe faces now packet pe inFace st =
    (let (info, t) = st
     in if pi_ProbedUpstreams info = [] then st
        else
          let idx = (if pi_ProbedSchedulerIndex info \<ge> length (pi_ProbedUpstreams info) then 0 else pi_ProbedSchedulerIndex info);
              outFace = pi_ProbedUpstreams info ! idx;
              i1 = info\<lparr>pi_ProbedSchedulerIndex := (idx + 1) mod length (pi_ProbedUpstreams info)\<rparr>;
              (t1, _) = SendInterest faces now packet pe outFace inFace t
          in (completeFrozen outFace i1, t1))"

definition handlePathDiscoveryInterest ::
  "fwConfig \<Rightarrow> FaceDispatch \<Rightarrow> gotime \<Rightarrow> InterestPkt \<Rightarrow> nat \<Rightarrow> faceId \<Rightarrow> FibNextHopEntry list \<Rightarrow> mpNode \<times> fwThread \<Rightarrow> mpNode \<times> fwThread" where
  "handlePathDiscoveryInterest cf faces now packet pe inFace nexthops st =
    (let (nd0, t) = st; n = ip_Name packet
     in if length n < 2 then st
        else
          let prefix = compString cf (n ! 0); srcNode = compString cf (n ! 1)
          in case atoi (compString cf (n ! (length n - 2))) of
               None \<Rightarrow> st
             | Some probeIdx \<Rightarrow>
                 let info = getPathDiscoveryInfo nd0 prefix;
                     nack = (\<lambda>i nd. (putInfo prefix i nd, fst (SendNack faces packet pe inFace inFace NackReasonNoRoute t)))
                 in if \<not> isRelevant cf prefix srcNode then nack (info\<lparr>pi_IsInvalidNode := True\<rparr>) nd0
                    else if pi_IsInvalidNode info then nack info nd0
                    else
                      let (i1, nd1) = ensurePdInitialized cf now probeIdx nexthops (info, nd0)
                      in if \<not> pi_IsNodeConverged i1 then
                           let ((i2, nd2), go2) = advanceProbe cf now probeIdx nexthops (i1, nd1)
                           in if \<not> go2 then (putInfo prefix i2 nd2, t)
                              else
                                let (i3, go3) = noteIngress inFace i2
                                in if \<not> go3 then (putInfo prefix i3 nd2, t)
                                   else
                                     let (i4, nd4) = (if isCurrentTierAllInvalid i3 then skipTier cf now (i3, nd2) else (i3, nd2))
                                     in if length (pi_ValidUpstreams i4) = 0 then nack (i4\<lparr>pi_IsInvalidNode := True\<rparr>) nd4
                                        else let (i5, t5) = scheduleProbe faces now packet pe inFace (i4, t)
                                             in (putInfo prefix i5 nd4, t5)
                         else let (i5, t5) = scheduleProbe faces now packet pe inFace (i1, t)
                              in (putInfo prefix i5 nd1, t5))"

definition handlePathDiscoveryNack ::
  "fwConfig \<Rightarrow> FaceDispatch \<Rightarrow> gotime \<Rightarrow> InterestPkt \<Rightarrow> nat \<Rightarrow> faceId \<Rightarrow> u64 \<Rightarrow> mpNode \<times> fwThread \<Rightarrow> mpNode \<times> fwThread" where
  "handlePathDiscoveryNack cf faces now packet pe inFace nackReason st =
    (let (nd0, t) = st; prefix = prefixKeyOf cf (ip_Name packet); info = getPathDiscoveryInfo nd0 prefix
     in if nackReason = NackReasonNoRoute then
          (if pi_IsInvalidNode info then (putInfo prefix info nd0, sendNackToAll faces packet pe inFace nackReason t)
           else
             let i1 = (if \<not> pi_IsPdFrozen info then excludeFace inFace info else info);
                 (i2, nd2) = (if isCurrentTierAllInvalid i1 then skipTier cf now (i1, nd0) else (i1, nd0))
             in if length (pi_ValidUpstreams i2) = 0
                then (putInfo prefix (i2\<lparr>pi_IsInvalidNode := True\<rparr>) nd2, sendNackToAll faces packet pe inFace NackReasonNoRoute t)
                else (putInfo prefix i2 nd2, sendNackToAll faces packet pe inFace NackReasonNone t))
        else if nackReason = NackReasonNone then (putInfo prefix info nd0, sendNackToAll faces packet pe inFace NackReasonNone t)
        else (putInfo prefix info nd0, t))"

text \<open>What a path discovery Data packet changes, and the flags that travel on.\<close>

definition notePdData :: "fwConfig \<Rightarrow> gotime \<Rightarrow> faceId \<Rightarrow> DiscoveryPacket \<Rightarrow> pdState \<Rightarrow> pdState \<times> DiscoveryPacket" where
  "notePdData cf now inFace dp st =
    (let (info, nd) = st;
         ((i1, nd1), tier1) =
           (if disc_TierConverged dp then
              let ia = (if \<not> pi_IsPdFrozen info
                        then info\<lparr>pi_ConvergedUpstreamTier := gm_del inFace (pi_ConvergedUpstreamTier info)\<rparr> else info)
              in if length (pi_ConvergedUpstreamTier ia) = 0
                 then (if \<not> pi_IsNodeConverged ia \<and> areHigherTiersEmpty ia then localNodeConverged cf now (ia, nd) else (ia, nd), True)
                 else ((ia, nd), False)
            else (st, False));
         tier2 = (if hasPrefix (nameString (cf_disableAlt cf) (cf_nodeName cf)) ''/pro'' then True else tier1);
         (i2, node2) =
           (if disc_NodeConverged dp then
              let ib = i1\<lparr>pi_ConvergedUpstreamNode := gm_del inFace (pi_ConvergedUpstreamNode i1)\<rparr>
              in (ib, pi_IsNodeConverged ib \<and> length (pi_ConvergedUpstreamNode ib) = 0)
            else (i1, False))
     in ((i2, nd1), \<lparr>disc_TierConverged = tier2, disc_NodeConverged = node2\<rparr>))"

definition contentBytes :: "content \<Rightarrow> string option" where
  "contentBytes c = (case c of BytesContent s \<Rightarrow> Some s | DtContent _ _ _ \<Rightarrow> None)"

definition handlePathDiscoveryData ::
  "fwConfig \<Rightarrow> FaceDispatch \<Rightarrow> gotime \<Rightarrow> DataPkt \<Rightarrow> nat \<Rightarrow> faceId \<Rightarrow> mpNode \<times> fwThread \<Rightarrow> mpNode \<times> fwThread" where
  "handlePathDiscoveryData cf faces now packet pe inFace st =
    (let (nd0, t) = st; prefix = prefixKeyOf cf (dk_Name packet); info = getPathDiscoveryInfo nd0 prefix; ndi = putInfo prefix info nd0
     in case dk_Raw packet of
          None \<Rightarrow> (ndi, sendDataToAll faces packet pe inFace t)
        | Some content \<Rightarrow>
            (case Option.bind (contentBytes content) deserializeDiscovery of
               None \<Rightarrow> (ndi, t)
             | Some dp \<Rightarrow>
                 let ((i1, nd1), dp1) = notePdData cf now inFace dp (info, nd0);
                     packet1 = packet\<lparr>dk_Raw := Some (BytesContent (serializeDiscovery dp1))\<rparr>
                 in (putInfo prefix i1 nd1, sendDataToAll faces packet1 pe inFace t)))"

end
