(* ===== verification/Mp_Discovery_Inv.thy ===== *)
theory Mp_Discovery_Inv
  imports Mp_Discovery
begin

text \<open>
  The state of path discovery is well-formed: the tiers are sorted by cost and hold the hops of
  their cost, the valid upstreams are exactly the faces on the wait list, no face is probed twice,
  and once the node has converged the faces for data transmission are those of the tiers.
\<close>

subsection \<open>Lists without repetition\<close>

lemma keepFirst_foldl:
  "distinct seen \<Longrightarrow> distinct (foldl (\<lambda>seen x. if x \<in> set seen then seen else seen @ [x]) seen xs)
    \<and> set (foldl (\<lambda>seen x. if x \<in> set seen then seen else seen @ [x]) seen xs) = set seen \<union> set xs"
  by (induction xs arbitrary: seen) auto

lemma keepFirst [simp]: "distinct (keepFirst xs)" "set (keepFirst xs) = set xs"
  using keepFirst_foldl [of "[]" xs] by (simp_all add: keepFirst_def)

lemma mset_group:
  "distinct ks \<Longrightarrow> mset (concat (map (\<lambda>k. filter (\<lambda>h. g h = k) hs) ks)) = mset (filter (\<lambda>h. g h \<in> set ks) hs)"
proof (induction ks)
  case (Cons k ks)
  have "mset (filter (\<lambda>h. g h = k \<or> g h \<in> set ks) hs) = mset (filter (\<lambda>h. g h = k) hs) + mset (filter (\<lambda>h. g h \<in> set ks) hs)"
    using Cons.prems by (induction hs) auto
  then show ?case using Cons by simp
qed simp

definition tier_ok :: "hopSnapshot list list \<Rightarrow> u64 list \<Rightarrow> bool" where
  "tier_ok tiers costs \<longleftrightarrow> length tiers = length costs \<and> sorted_wrt (<) costs
     \<and> (\<forall>i < length tiers. \<forall>hop \<in> set (tiers ! i). hs_Cost hop = costs ! i)"

definition hopFaces :: "hopSnapshot list list \<Rightarrow> faceId list" where
  "hopFaces tiers = map hs_Nexthop (concat tiers)"

lemma group_ok:
  assumes "groupHopSnapshotsByCost hops = (tiers, costs)"
  shows "tier_ok tiers costs" "mset (concat tiers) = mset hops"
proof -
  have e: "costs = sort (keepFirst (map hs_Cost hops))" "tiers = map (\<lambda>c. filter (\<lambda>hop. hs_Cost hop = c) hops) costs"
    using assms by (auto simp: groupHopSnapshotsByCost_def Let_def)
  have d: "distinct costs" "set costs = hs_Cost ` set hops" by (simp_all add: e(1))
  show "tier_ok tiers costs" using d(1) by (auto simp: tier_ok_def e strict_sorted_iff)
  show "mset (concat tiers) = mset hops" unfolding e(2) mset_group [OF d(1)] d(2) by (auto intro!: arg_cong [where f = mset] filter_True)
qed

lemma group_faces:
  assumes "groupHopSnapshotsByCost hops = (tiers, costs)"
  shows "mset (hopFaces tiers) = mset (map hs_Nexthop hops)"
  using group_ok(2) [OF assms] by (simp add: hopFaces_def)

lemma distinct_mset: "mset xs = mset ys \<Longrightarrow> distinct xs = distinct ys"
  by (rule mset_eq_imp_distinct_iff)

lemma hopFaces_filter: "hopFaces (map (filter P) tiers) = map hs_Nexthop (filter P (concat tiers))"
  by (simp add: hopFaces_def filter_concat)

lemma tier_ok_filter: "tier_ok tiers costs \<Longrightarrow> tier_ok (map (filter P) tiers) costs"
  by (auto simp: tier_ok_def)

subsection \<open>Well-formed discovery state\<close>

definition all_true :: "('k, bool) gomap \<Rightarrow> bool" where
  "all_true m \<longleftrightarrow> gm_ok m \<and> (\<forall>k b. map_of m k = Some b \<longrightarrow> b)"

definition wait_ok :: "PathDiscoveryInfo \<Rightarrow> bool" where
  "wait_ok info \<longleftrightarrow> all_true (pi_ValidUpstreams info) \<and> dom (map_of (pi_ValidUpstreams info)) = set (hopFaces (pi_WaitList info))
     \<and> distinct (hopFaces (pi_WaitList info)) \<and> 0 \<notin> set (hopFaces (pi_WaitList info)) \<and> distinct (pi_ProbedUpstreams info)"

definition align_ok :: "PathDiscoveryInfo \<Rightarrow> bool" where
  "align_ok info \<longleftrightarrow> length (pi_WaitList info) = length (pi_TierList info)
     \<and> (\<forall>i < length (pi_WaitList info). set (pi_WaitList info ! i) \<subseteq> set (pi_TierList info ! i))
     \<and> pi_CurrentTier info < max 1 (length (pi_WaitList info))"

definition final_ok :: "PathDiscoveryInfo \<Rightarrow> bool" where
  "final_ok info \<longleftrightarrow> (pi_DtFaceRateControlEnabled info \<longleftrightarrow> 1 < length (pi_DtValidFaces info)) \<and> distinct (pi_DtValidFaces info) \<and> 0 \<notin> set (pi_DtValidFaces info)
     \<and> (pi_DtValidFaces info = [] \<or> pi_DtValidFaces info = flattenDtTierFaces (pi_TierList info)
           \<and> dom (map_of (pi_ValidUpstreams info)) \<subseteq> set (pi_DtValidFaces info))"

definition fresh_ok :: "PathDiscoveryInfo \<Rightarrow> bool" where
  "fresh_ok info \<longleftrightarrow> (pi_IsNodeConverged info \<or> pi_DtValidFaces info = []) \<and> (pi_IsInitialized info \<or> pi_TierList info = [] \<and> pi_WaitList info = [] \<and> pi_DtValidFaces info = [])"

definition pd_wf :: "PathDiscoveryInfo \<Rightarrow> bool" where
  "pd_wf info \<longleftrightarrow> wait_ok info \<and> fresh_ok info \<and> tier_ok (pi_TierList info) (pi_TierCostList info)
     \<and> (if pi_IsNodeConverged info then final_ok info else align_ok info)"

lemma pd_wf_new: "pd_wf (newPathDiscoveryInfo p)"
  by (simp add: pd_wf_def wait_ok_def tier_ok_def align_ok_def fresh_ok_def newPathDiscoveryInfo_def hopFaces_def all_true_def)

lemma all_true_del: "all_true m \<Longrightarrow> all_true (gm_del f m)"
  by (auto simp: all_true_def)

lemma all_true_foldl_del: "all_true m \<Longrightarrow> all_true (foldl (\<lambda>m f. gm_del f m) m fs)"
  by (induction fs arbitrary: m) (auto simp: all_true_del)

lemma dom_foldl_del: "dom (map_of (foldl (\<lambda>m f. gm_del f m) m fs)) = dom (map_of m) - set fs"
proof (induction fs arbitrary: m)
  case (Cons f fs)
  show ?case using Cons.IH [of "gm_del f m"] gm.dom_del [of f m] by auto
qed simp

lemma gm_bool_dom: "all_true m \<Longrightarrow> gm_bool m f \<longleftrightarrow> f \<in> dom (map_of m)"
  by (auto simp: all_true_def gm_get0_def split: option.splits)

lemma align_shrink:
  assumes "align_ok info" "length w = length (pi_WaitList info)" "\<And>i. i < length w \<Longrightarrow> set (w ! i) \<subseteq> set (pi_WaitList info ! i)"
  shows "align_ok (info\<lparr>pi_WaitList := w\<rparr>)"
  using assms by (fastforce simp: align_ok_def)

lemma exclude_fields:
  "pi_WaitList (excludeFace f info) = map (filter (\<lambda>hop. hs_Nexthop hop \<noteq> f)) (pi_WaitList info)"
  "pi_ValidUpstreams (excludeFace f info) = gm_del f (pi_ValidUpstreams info)"
  "pi_ProbedUpstreams (excludeFace f info) = remove1 f (pi_ProbedUpstreams info)"
  "pi_TierList (excludeFace f info) = pi_TierList info" "pi_TierCostList (excludeFace f info) = pi_TierCostList info"
  "pi_IsNodeConverged (excludeFace f info) = pi_IsNodeConverged info" "pi_CurrentTier (excludeFace f info) = pi_CurrentTier info"
  "pi_DtValidFaces (excludeFace f info) = pi_DtValidFaces info"
  "pi_DtFaceRateControlEnabled (excludeFace f info) = pi_DtFaceRateControlEnabled info"
  "pi_IsInitialized (excludeFace f info) = pi_IsInitialized info"
  by (simp_all add: excludeFace_def removeFaceFromWaitList_def removeFaceFromProbedUpstreams_def Let_def)

lemma exclude_wf:
  assumes "pd_wf info"
  shows "pd_wf (excludeFace f info)"
proof -
  have w: "wait_ok info" using assms by (simp add: pd_wf_def)
  have hf: "hopFaces (map (filter (\<lambda>hop. hs_Nexthop hop \<noteq> f)) (pi_WaitList info)) = filter (\<lambda>g. g \<noteq> f) (hopFaces (pi_WaitList info))"
    unfolding hopFaces_filter by (simp add: hopFaces_def filter_map o_def)
  have "wait_ok (excludeFace f info)"
    using w by (auto simp: wait_ok_def exclude_fields hf all_true_del gm.dom_del distinct_remove1)
  moreover have "align_ok info \<Longrightarrow> align_ok (excludeFace f info)"
    by (auto simp: align_ok_def exclude_fields)
  moreover have "final_ok info \<Longrightarrow> final_ok (excludeFace f info)"
    by (auto simp: final_ok_def exclude_fields gm.dom_del)
  ultimately show ?thesis using assms by (auto simp: pd_wf_def fresh_ok_def exclude_fields split: if_splits)
qed

text \<open>Fields the invariant does not read.\<close>

lemma pd_wf_frame [simp]:
  "pd_wf (info\<lparr>pi_ConvergedUpstreamTier := a\<rparr>) = pd_wf info" "pd_wf (info\<lparr>pi_ConvergedUpstreamNode := a\<rparr>) = pd_wf info"
  "pd_wf (info\<lparr>pi_FrozenFaces := a\<rparr>) = pd_wf info" "pd_wf (info\<lparr>pi_FrozenRecoverFaces := a\<rparr>) = pd_wf info"
  "pd_wf (info\<lparr>pi_IsPdFrozen := b\<rparr>) = pd_wf info" "pd_wf (info\<lparr>pi_IsInvalidNode := b\<rparr>) = pd_wf info"
  "pd_wf (info\<lparr>pi_ProbedSchedulerIndex := k\<rparr>) = pd_wf info" "pd_wf (info\<lparr>pi_ProbeIndex := j\<rparr>) = pd_wf info"
  by (simp_all add: pd_wf_def wait_ok_def align_ok_def final_ok_def fresh_ok_def)

lemma pd_wf_cong:
  assumes "pd_wf info" "pi_WaitList i = pi_WaitList info" "pi_ValidUpstreams i = pi_ValidUpstreams info" "pi_TierList i = pi_TierList info"
    "pi_TierCostList i = pi_TierCostList info" "pi_IsNodeConverged i = pi_IsNodeConverged info" "pi_IsInitialized i = pi_IsInitialized info"
    "pi_CurrentTier i = pi_CurrentTier info" "pi_DtValidFaces i = pi_DtValidFaces info"
    "pi_DtFaceRateControlEnabled i = pi_DtFaceRateControlEnabled info" "distinct (pi_ProbedUpstreams i)"
  shows "pd_wf i"
proof -
  have "align_ok i = align_ok info" "final_ok i = final_ok info" "fresh_ok i = fresh_ok info"
    using assms(2-10) by (simp_all only: align_ok_def final_ok_def fresh_ok_def)
  moreover have "wait_ok info \<Longrightarrow> wait_ok i" using assms by (simp add: wait_ok_def)
  ultimately show ?thesis using assms by (simp add: pd_wf_def)
qed

subsection \<open>Convergence\<close>

lemma sorted_wrt_filter_idx:
  assumes "sorted_wrt (<) costs"
  shows "sorted_wrt (<) (map (\<lambda>i. costs ! i) (filter P [0..<length costs]))"
proof -
  have "sorted_wrt (\<lambda>i j. costs ! i < costs ! j) (filter P [0..<length costs])"
    by (rule sorted_wrt_filter) (use assms in \<open>auto simp: sorted_wrt_iff_nth_less\<close>)
  then show ?thesis by (simp add: sorted_wrt_map)
qed

lemma update_after:
  assumes "tier_ok (pi_TierList info) (pi_TierCostList info)" "align_ok info"
  shows "tier_ok (pi_TierList (updateAfterPathDiscovery info)) (pi_TierCostList (updateAfterPathDiscovery info))"
    "hopFaces (pi_TierList (updateAfterPathDiscovery info)) = hopFaces (pi_WaitList info)"
proof -
  let ?W = "pi_WaitList info" and ?C = "pi_TierCostList info"
  let ?kept = "filter (\<lambda>i. ?W ! i \<noteq> []) [0..<length ?W]"
  have len: "length ?W = length ?C" using assms by (simp add: align_ok_def tier_ok_def)
  have all: "filter (\<lambda>i. i < length ?C) ?kept = ?kept" unfolding len by (rule filter_True) auto
  have T: "pi_TierList (updateAfterPathDiscovery info) = map (\<lambda>i. ?W ! i) ?kept"
    "pi_TierCostList (updateAfterPathDiscovery info) = map (\<lambda>i. ?C ! i) ?kept"
    by (simp_all add: updateAfterPathDiscovery_def Let_def all del: filter_filter)
  have "sorted_wrt (<) (map (\<lambda>i. ?C ! i) ?kept)" unfolding len by (rule sorted_wrt_filter_idx) (use assms(1) in \<open>simp add: tier_ok_def\<close>)
  moreover have "hs_Cost hop = ?C ! j" if "j \<in> set ?kept" "hop \<in> set (?W ! j)" for j hop
  proof -
    have j: "j < length ?W" using that(1) by simp
    then have "hop \<in> set (pi_TierList info ! j)" using that(2) assms(2) by (auto simp: align_ok_def)
    then show ?thesis using j assms len by (simp add: tier_ok_def align_ok_def)
  qed
  ultimately show "tier_ok (pi_TierList (updateAfterPathDiscovery info)) (pi_TierCostList (updateAfterPathDiscovery info))"
    unfolding T by (auto simp: tier_ok_def dest: nth_mem)
  have "concat (map (\<lambda>i. ?W ! i) (filter (\<lambda>i. ?W ! i \<noteq> []) is)) = concat (map (\<lambda>i. ?W ! i) is)" for "is"
    by (induction "is") auto
  then show "hopFaces (pi_TierList (updateAfterPathDiscovery info)) = hopFaces ?W"
    unfolding T hopFaces_def by (simp add: map_nth)
qed

lemma flatten_distinct: "distinct (hopFaces tiers) \<Longrightarrow> set (flattenDtTierFaces tiers) = set (hopFaces tiers)"
  by (simp add: flattenDtTierFaces_def hopFaces_def)

lemma converge_wf:
  assumes "pd_wf info"
  shows "pd_wf (fst (localNodeConverged cf now (info, nd)))"
proof (cases "pi_IsNodeConverged info")
  case True
  then show ?thesis using assms by (simp add: localNodeConverged_def)
next
  case False
  let ?i = "info\<lparr>pi_ConvergedUpstreamTier := [], pi_IsNodeConverged := True\<rparr>"
  have a: "tier_ok (pi_TierList ?i) (pi_TierCostList ?i)" "align_ok ?i" "wait_ok info" using assms False by (auto simp: pd_wf_def align_ok_def)
  note u = update_after [OF a(1,2)]
  have f: "pi_WaitList (updateAfterPathDiscovery i) = pi_WaitList i" "pi_ValidUpstreams (updateAfterPathDiscovery i) = pi_ValidUpstreams i"
    "pi_ProbedUpstreams (updateAfterPathDiscovery i) = pi_ProbedUpstreams i" "pi_IsNodeConverged (updateAfterPathDiscovery i) = pi_IsNodeConverged i"
    "pi_IsInitialized (updateAfterPathDiscovery i) = pi_IsInitialized i" for i
    by (simp_all add: updateAfterPathDiscovery_def Let_def)
  have "fresh_ok info" using assms by (simp add: pd_wf_def)
  then have e: "pi_IsInitialized info \<or> pi_TierList (updateAfterPathDiscovery ?i) = [] \<and> pi_WaitList info = []"
    by (auto simp: fresh_ok_def updateAfterPathDiscovery_def Let_def)
  have d: "distinct (flattenDtTierFaces ts)" "flattenDtTierFaces [] = []" for ts by (simp_all add: flattenDtTierFaces_def keepFirst_def [of "[]"])
  show ?thesis using False a(3) u e d flatten_distinct [of "pi_TierList (updateAfterPathDiscovery ?i)"]
    by (auto simp: localNodeConverged_def Let_def pd_wf_def final_ok_def fresh_ok_def wait_ok_def f)
qed

subsection \<open>Skipping and probing tiers\<close>

lemma hopFaces_take_drop: "hopFaces (take k ts) @ hopFaces (drop k ts) = hopFaces ts"
  by (simp add: hopFaces_def flip: map_append concat_append)

lemma hopFaces_cleared: "hopFaces (take k ts @ map (\<lambda>_. []) (drop k ts)) = hopFaces (take k ts)"
  by (simp add: hopFaces_def)

lemma skip_wf:
  assumes "pd_wf info"
  shows "pd_wf (fst (skipTier cf now (info, nd)))"
proof -
  let ?k = "pi_CurrentTier info" and ?W = "pi_WaitList info"
  let ?rm = "map hs_Nexthop (concat (drop ?k ?W))"
  define i1 where "i1 = info\<lparr>pi_WaitList := take ?k ?W @ map (\<lambda>_. []) (drop ?k ?W),
     pi_ValidUpstreams := foldl (\<lambda>m f. gm_del f m) (pi_ValidUpstreams info) ?rm,
     pi_ConvergedUpstreamNode := foldl (\<lambda>m f. gm_del f m) (pi_ConvergedUpstreamNode info) ?rm\<rparr>"
  have w: "wait_ok info" using assms by (simp add: pd_wf_def)
  have hf: "hopFaces (pi_WaitList i1) = hopFaces (take ?k ?W)" "?rm = hopFaces (drop ?k ?W)" "distinct (hopFaces (take ?k ?W) @ hopFaces (drop ?k ?W))"
    using w by (simp_all add: i1_def hopFaces_cleared wait_ok_def hopFaces_take_drop) (simp add: hopFaces_def)
  have dm: "dom (map_of (pi_ValidUpstreams i1)) = dom (map_of (pi_ValidUpstreams info)) - set (hopFaces (drop ?k ?W))"
    by (simp add: i1_def dom_foldl_del hf(2))
  have un: "set (hopFaces ?W) = set (hopFaces (take ?k ?W)) \<union> set (hopFaces (drop ?k ?W))"
    by (metis hopFaces_take_drop set_append)
  then have "dom (map_of (pi_ValidUpstreams i1)) = set (hopFaces (pi_WaitList i1))"
    using w hf(3) unfolding dm hf(1) by (auto simp: wait_ok_def)
  moreover have "0 \<notin> set (hopFaces (pi_WaitList i1))" using w un unfolding hf(1) by (simp add: wait_ok_def)
  moreover have "distinct (hopFaces (pi_WaitList i1))" using hf(3) unfolding hf(1) by simp
  moreover have "all_true (pi_ValidUpstreams i1)" "pi_ProbedUpstreams i1 = pi_ProbedUpstreams info"
    using w by (simp_all add: wait_ok_def i1_def all_true_foldl_del)
  ultimately have w1: "wait_ok i1" using w by (simp add: wait_ok_def)
  have "align_ok info \<Longrightarrow> align_ok i1"
    by (auto simp: align_ok_def i1_def nth_append)
  moreover have "final_ok info \<Longrightarrow> final_ok i1"
    using dm by (auto simp: final_ok_def) (auto simp: i1_def)
  ultimately have "pd_wf i1" using assms w1 by (auto simp: pd_wf_def fresh_ok_def) (auto simp: i1_def)
  then show ?thesis using converge_wf [of i1 cf now nd] by (simp add: skipTier_def Let_def i1_def)
qed

lemma probeHop_wf: "pd_wf info \<Longrightarrow> pd_wf (probeHop info hop)"
  by (rule pd_wf_cong) (auto simp: probeHop_def Let_def pd_wf_def wait_ok_def)

lemma foldl_wf: "(\<And>i x. pd_wf i \<Longrightarrow> pd_wf (f i x)) \<Longrightarrow> pd_wf i \<Longrightarrow> pd_wf (foldl f i xs)"
  by (induction xs arbitrary: i) auto

lemma probe_wf:
  assumes "pd_wf info"
  shows "pd_wf (fst (ProbeTier cf now k (info, nd)))"
proof -
  have "pd_wf (foldl probeHop info (pi_WaitList info ! k))" by (rule foldl_wf [OF probeHop_wf assms])
  then show ?thesis using assms by (simp add: ProbeTier_def Let_def converge_wf)
qed

lemma probeNext_wf:
  assumes "pd_wf info" "pi_IsNodeConverged info \<or> int (pi_CurrentTier info) < int (length (pi_WaitList info)) - 1"
  shows "pd_wf (fst (ProbeNextTier cf now (info, nd)))"
proof -
  have "pd_wf (info\<lparr>pi_CurrentTier := pi_CurrentTier info + 1\<rparr>)"
  proof -
    let ?i = "info\<lparr>pi_CurrentTier := pi_CurrentTier info + 1\<rparr>"
    have "final_ok ?i = final_ok info" "wait_ok ?i = wait_ok info" "fresh_ok ?i = fresh_ok info"
      by (simp_all add: final_ok_def wait_ok_def fresh_ok_def)
    moreover have "align_ok info \<Longrightarrow> \<not> pi_IsNodeConverged info \<Longrightarrow> align_ok ?i"
      using assms(2) by (simp add: align_ok_def)
    ultimately show ?thesis using assms(1) by (simp add: pd_wf_def split: if_splits)
  qed
  from probe_wf [OF this] show ?thesis by (simp add: ProbeNextTier_def Let_def)
qed

subsection \<open>Starting and refreshing\<close>

lemma all_true_foldl_put: "all_true m \<Longrightarrow> all_true (foldl (\<lambda>m h. gm_put (g h) True m) m hs)"
proof (induction hs arbitrary: m)
  case (Cons h hs)
  have "all_true (gm_put (g h) True m)" using Cons.prems by (auto simp: all_true_def split: if_splits)
  then show ?case using Cons.IH by simp
qed simp

lemma dom_foldl_put: "dom (map_of (foldl (\<lambda>m h. gm_put (g h) True m) m hs)) = dom (map_of m) \<union> g ` set hs"
proof (induction hs arbitrary: m)
  case (Cons h hs)
  show ?case using Cons.IH [of "gm_put (g h) True m"] gm.dom_put [of "g h" True m] by auto
qed simp

lemma removeCostly_wf:
  assumes "pd_wf info" "i < length (pi_WaitList info)"
  shows "pd_wf (removeCostlyTier c info i)" "length (pi_WaitList (removeCostlyTier c info i)) = length (pi_WaitList info)"
proof -
  let ?W = "pi_WaitList info"
  have w: "wait_ok info" using assms by (simp add: pd_wf_def)
  have split: "hopFaces ?W = hopFaces (take i ?W) @ map hs_Nexthop (?W ! i) @ hopFaces (drop (Suc i) ?W)"
    using arg_cong [OF id_take_nth_drop [OF assms(2)], of hopFaces] by (simp add: hopFaces_def)
  have cut: "hopFaces (?W[i := []]) = hopFaces (take i ?W) @ hopFaces (drop (Suc i) ?W)"
    using assms(2) by (simp add: upd_conv_take_nth_drop hopFaces_def)
  define j where "j = info\<lparr>pi_ValidUpstreams := foldl (\<lambda>m f. gm_del f m) (pi_ValidUpstreams info) (map hs_Nexthop (?W ! i)),
      pi_ConvergedUpstreamNode := foldl (\<lambda>m f. gm_del f m) (pi_ConvergedUpstreamNode info) (map hs_Nexthop (?W ! i)), pi_WaitList := ?W[i := []]\<rparr>"
  define A B C where "A = hopFaces (take i ?W)" and "B = map hs_Nexthop (?W ! i)" and "C = hopFaces (drop (Suc i) ?W)"
  have ww: "dom (map_of (pi_ValidUpstreams info)) = set A \<union> set B \<union> set C" "distinct (A @ B @ C)" "0 \<notin> set A \<union> set C"
    using w split unfolding A_def B_def C_def wait_ok_def by auto
  have jj: "dom (map_of (pi_ValidUpstreams j)) = dom (map_of (pi_ValidUpstreams info)) - set B" "hopFaces (pi_WaitList j) = A @ C"
    by (simp_all add: j_def A_def B_def C_def cut dom_foldl_del del: set_map)
  have "all_true (pi_ValidUpstreams j)" "distinct (pi_ProbedUpstreams j)" using w by (simp_all add: wait_ok_def j_def all_true_foldl_del)
  then have "wait_ok j" using ww unfolding wait_ok_def jj by auto
  moreover have "align_ok info \<Longrightarrow> align_ok j" 
    using assms(2) by (force simp: align_ok_def j_def nth_list_update)
  moreover have "final_ok info \<Longrightarrow> final_ok j" by (auto simp: final_ok_def j_def dom_foldl_del)
  moreover have "fresh_ok info \<Longrightarrow> fresh_ok j" by (auto simp: fresh_ok_def j_def)
  ultimately have "pd_wf j" using assms(1) by (auto simp: pd_wf_def) (auto simp: j_def)
  then show "pd_wf (removeCostlyTier c info i)" using assms(1) by (simp add: removeCostlyTier_def Let_def j_def)
  show "length (pi_WaitList (removeCostlyTier c info i)) = length ?W" by (simp add: removeCostlyTier_def Let_def)
qed

lemma removeCostly_foldl:
  "pd_wf info \<Longrightarrow> \<forall>i \<in> set is. i < length (pi_WaitList info) \<Longrightarrow> pd_wf (foldl (removeCostlyTier c) info is)"
proof (induction "is" arbitrary: info)
  case (Cons i "is")
  then have r: "pd_wf (removeCostlyTier c info i)" "length (pi_WaitList (removeCostlyTier c info i)) = length (pi_WaitList info)"
    by (auto intro: removeCostly_wf)
  show ?case using Cons.IH [OF r(1)] Cons.prems(2) r(2) by simp
qed simp

lemma start_wf:
  assumes "pd_wf info" "pi_IsNodeConverged info \<longrightarrow> pi_DtValidFaces info = []" "pi_IsInitialized info" "distinct (map hs_Nexthop hops)" "0 \<notin> hs_Nexthop ` set hops"
  shows "pd_wf (fst (StartPathDiscovery cf now (TierGrouping hops info, nd)))"
proof -
  obtain tiers costs where g: "groupHopSnapshotsByCost hops = (tiers, costs)" by fastforce
  define i0 where "i0 = info\<lparr>pi_TierList := tiers, pi_TierCostList := costs, pi_WaitList := tiers, pi_CurrentTier := 0\<rparr>"
  define all where "all = foldl (\<lambda>m hop. gm_put (hs_Nexthop hop) True m) [] (concat tiers)"
  define i1 where "i1 = i0\<lparr>pi_ValidUpstreams := all, pi_ConvergedUpstreamNode := all, pi_CurrentTier := 0\<rparr>"
  have d: "distinct (hopFaces tiers)" using group_faces [OF g] assms(4) distinct_mset by metis
  have t: "tier_ok tiers costs" by (rule group_ok(1) [OF g])
  have z: "0 \<notin> set (hopFaces tiers)" using group_faces [OF g] assms(5) by (metis list.set_map mset_eq_setD)
  have "all_true all" "dom (map_of all) = set (hopFaces tiers)"
    by (simp_all add: all_def all_true_foldl_put all_true_def [of "[]"] dom_foldl_put hopFaces_def)
  then have "wait_ok i1" using assms(1) d z by (simp add: pd_wf_def wait_ok_def i1_def i0_def)
  moreover have "align_ok i1" "fresh_ok info \<Longrightarrow> fresh_ok i1" using assms(3) by (simp_all add: align_ok_def fresh_ok_def i1_def i0_def)
  moreover have "pi_IsNodeConverged info \<Longrightarrow> final_ok info \<Longrightarrow> final_ok i1" using assms(2) by (simp add: final_ok_def i1_def i0_def)
  moreover have "pi_IsNodeConverged i1 = pi_IsNodeConverged info" "pi_TierList i1 = tiers" "pi_TierCostList i1 = costs"
    by (simp_all add: i1_def i0_def)
  ultimately have w1: "pd_wf i1" using assms(1) t by (simp add: pd_wf_def split: if_splits)
  have len: "length (pi_WaitList i1) = length costs" using t by (simp add: i1_def i0_def tier_ok_def)
  define i2 where "i2 = (case costs of [] \<Rightarrow> i1 | c # _ \<Rightarrow> foldl (removeCostlyTier (c * 2)) i1 (rev [1..<length costs]))"
  have "pd_wf i2" unfolding i2_def using w1 len by (auto split: list.split simp del: upt_Suc intro!: removeCostly_foldl)
  from probe_wf [OF this] have "pd_wf (fst (ProbeTier cf now (pi_CurrentTier i2) (i2, nd)))" .
  moreover have "StartPathDiscovery cf now (TierGrouping hops info, nd) =
      (let (i3, nd3) = ProbeTier cf now (pi_CurrentTier i2) (i2, nd) in (i3\<lparr>pi_ProbedSchedulerIndex := 0\<rparr>, nd3))"
  proof -
    have f: "TierGrouping hops info = i0" "pi_TierList i0 = tiers" "pi_TierCostList i1 = costs"
      by (simp_all add: TierGrouping_def g i1_def i0_def)
    show ?thesis unfolding StartPathDiscovery_def Let_def prod.case f all_def [symmetric] i1_def [symmetric] f i2_def [symmetric] by (rule refl)
  qed
  ultimately show ?thesis by (simp add: case_prod_beta)
qed

lemma initialized_frame:
  "pi_IsInitialized (fst (localNodeConverged cf now (info, nd))) = pi_IsInitialized info"
  "pi_IsInitialized (probeHop info h) = pi_IsInitialized info"
  "pi_IsInitialized (removeCostlyTier c info k) = pi_IsInitialized info"
  by (simp_all add: localNodeConverged_def updateAfterPathDiscovery_def Let_def probeHop_def removeCostlyTier_def)

lemma foldl_frame: "(\<And>i x. g (f i x) = g i) \<Longrightarrow> g (foldl f i xs) = g i"
  by (induction xs arbitrary: i) auto

lemma start_initialized:
  assumes "pi_IsInitialized info"
  shows "pi_IsInitialized (fst (StartPathDiscovery cf now (TierGrouping hops info, nd)))"
proof -
  have p: "pi_IsInitialized (fst (ProbeTier cf now k (i, n))) = pi_IsInitialized i" for k i n
    by (simp add: ProbeTier_def Let_def initialized_frame foldl_frame [where g = pi_IsInitialized and f = probeHop])
  have c: "pi_IsInitialized (foldl (removeCostlyTier c) i ks) = pi_IsInitialized i" for c i ks
    by (rule foldl_frame) (simp add: initialized_frame)
  show ?thesis using assms
    by (simp add: StartPathDiscovery_def TierGrouping_def Let_def case_prod_beta p c split: list.split)
qed

lemma dropVanished_foldl:
  "all_true (pi_ValidUpstreams info) \<Longrightarrow> distinct (pi_ProbedUpstreams info) \<Longrightarrow>
    all_true (pi_ValidUpstreams (foldl (dropVanished latest) info fs)) \<and> distinct (pi_ProbedUpstreams (foldl (dropVanished latest) info fs))
    \<and> dom (map_of (pi_ValidUpstreams (foldl (dropVanished latest) info fs))) = dom (map_of (pi_ValidUpstreams info)) - (set fs - set latest)
    \<and> pi_IsNodeConverged (foldl (dropVanished latest) info fs) = pi_IsNodeConverged info
    \<and> pi_IsInitialized (foldl (dropVanished latest) info fs) = pi_IsInitialized info
    \<and> pi_DtValidFaces (foldl (dropVanished latest) info fs) = pi_DtValidFaces info"
proof (induction fs arbitrary: info)
  case (Cons f fs)
  have "all_true (pi_ValidUpstreams (dropVanished latest info f))" "distinct (pi_ProbedUpstreams (dropVanished latest info f))"
    "dom (map_of (pi_ValidUpstreams (dropVanished latest info f))) = dom (map_of (pi_ValidUpstreams info)) - ({f} - set latest)"
    "pi_IsNodeConverged (dropVanished latest info f) = pi_IsNodeConverged info"
    "pi_IsInitialized (dropVanished latest info f) = pi_IsInitialized info" "pi_DtValidFaces (dropVanished latest info f) = pi_DtValidFaces info"
    using Cons.prems by (auto simp: dropVanished_def removeFaceFromProbedUpstreams_def all_true_del gm.dom_del distinct_remove1)
  with Cons.IH [of "dropVanished latest info f"] show ?case by auto
qed simp

lemma refresh_wf:
  assumes wf: "pd_wf info" and nc: "\<not> pi_IsNodeConverged info" "pi_IsInitialized info" and d: "distinct (map nh_Nexthop nexthops)" "0 \<notin> nh_Nexthop ` set nexthops"
  shows "pd_wf (refreshPathDiscoverySnapshot nexthops info) \<and> \<not> pi_IsNodeConverged (refreshPathDiscoverySnapshot nexthops info)"
proof (cases "nexthops = []")
  case True
  then show ?thesis using wf nc by (simp add: refreshPathDiscoverySnapshot_def snapshotNexthops_def)
next
  case False
  let ?latest = "snapshotNexthops nexthops"
  let ?faces = "map hs_Nexthop ?latest"
  obtain tiers costs where g: "groupHopSnapshotsByCost ?latest = (tiers, costs)" by fastforce
  have faces: "?faces = map nh_Nexthop nexthops" by (simp add: snapshotNexthops_def o_def)
  have "set (hopFaces tiers) = set ?faces" using group_faces [OF g] by (metis mset_eq_setD)
  moreover have "distinct (hopFaces tiers)" using group_faces [OF g] d(1) faces distinct_mset by metis
  ultimately have T: "set (hopFaces tiers) = set ?faces" "distinct (hopFaces tiers)" .
  define i1 where "i1 = foldl (dropVanished ?faces) info (map fst (pi_ValidUpstreams info))"
  have w: "all_true (pi_ValidUpstreams info)" "distinct (pi_ProbedUpstreams info)" using wf by (auto simp: pd_wf_def wait_ok_def)
  have "dom (map_of (pi_ValidUpstreams info)) = set (map fst (pi_ValidUpstreams info))" by (simp add: dom_map_of_conv_image_fst)
  with dropVanished_foldl [OF w, of ?faces "map fst (pi_ValidUpstreams info)"]
  have v: "all_true (pi_ValidUpstreams i1)" "dom (map_of (pi_ValidUpstreams i1)) \<subseteq> set ?faces" "\<not> pi_IsNodeConverged i1" "pi_IsInitialized i1"
      and e: "pi_DtValidFaces i1 = []"
    using nc wf unfolding i1_def by (auto simp: pd_wf_def fresh_ok_def)
  define ft where "ft = map (filter (\<lambda>hop. gm_bool (pi_ValidUpstreams i1) (hs_Nexthop hop))) tiers"
  have hf: "hopFaces ft = filter (\<lambda>f. f \<in> dom (map_of (pi_ValidUpstreams i1))) (hopFaces tiers)"
    unfolding ft_def hopFaces_filter gm_bool_dom [OF v(1)] by (simp add: hopFaces_def filter_map o_def)
  have "0 \<notin> set ?faces" using d(2) unfolding faces by simp
  then have wait: "dom (map_of (pi_ValidUpstreams i1)) = set (hopFaces ft)" "distinct (hopFaces ft)" "0 \<notin> set (hopFaces ft)"
    using v(2) T unfolding hf by auto
  have tk: "tier_ok ft costs" unfolding ft_def by (rule tier_ok_filter [OF group_ok(1) [OF g]])
  define pr where "pr = keepFirst (filter (\<lambda>face. face \<in> set ?faces \<and> gm_bool (pi_ValidUpstreams i1) face) (pi_ProbedUpstreams i1))"
  define i2 where "i2 = i1\<lparr>pi_TierList := ft, pi_WaitList := ft, pi_TierCostList := costs, pi_ProbedUpstreams := pr,
      pi_ProbedSchedulerIndex := (if pr = [] \<or> pi_ProbedSchedulerIndex i1 \<ge> length pr then 0 else pi_ProbedSchedulerIndex i1)\<rparr>"
  have "distinct pr" by (simp add: pr_def)
  have res: "refreshPathDiscoverySnapshot nexthops info = (if pi_WaitList i2 = [] then i2\<lparr>pi_CurrentTier := 0\<rparr>
             else if pi_CurrentTier i2 \<ge> length (pi_WaitList i2) then i2\<lparr>pi_CurrentTier := length (pi_WaitList i2) - 1\<rparr> else i2)"
    using False by (simp add: refreshPathDiscoverySnapshot_def snapshotNexthops_def [of nexthops] g [unfolded snapshotNexthops_def] Let_def i2_def i1_def ft_def pr_def)
  have "pd_wf (i2\<lparr>pi_CurrentTier := k\<rparr>)" if "k < max 1 (length ft)" for k
    using that v wait tk e \<open>distinct pr\<close> by (simp add: i2_def pd_wf_def wait_ok_def align_ok_def fresh_ok_def)
  from this [of 0] this [of "length ft - 1"] this [of "pi_CurrentTier i2"] show ?thesis
    unfolding res using v(3) by (auto simp: i2_def split: if_splits)
qed

subsection \<open>The steps of the handlers\<close>

lemma ensurePdInitialized_wf:
  assumes "pd_wf info" "distinct (map nh_Nexthop nexthops)" "0 \<notin> nh_Nexthop ` set nexthops"
  shows "pd_wf (fst (ensurePdInitialized cf now p nexthops (info, nd))) \<and> pi_IsInitialized (fst (ensurePdInitialized cf now p nexthops (info, nd)))"
proof (cases "pi_IsInitialized info")
  case True
  then show ?thesis using assms by (simp add: ensurePdInitialized_def)
next
  case False
  let ?i = "info\<lparr>pi_IsInitialized := True, pi_ProbeIndex := p\<rparr>"
  have "fresh_ok info" using assms by (simp add: pd_wf_def)
  then have e: "pi_DtValidFaces info = []" using False by (simp add: fresh_ok_def)
  have "align_ok ?i = align_ok info" "final_ok ?i = final_ok info" "wait_ok ?i = wait_ok info"
    by (simp_all add: align_ok_def final_ok_def wait_ok_def)
  then have w: "pd_wf ?i" using assms(1) by (simp add: pd_wf_def fresh_ok_def)
  have "distinct (map hs_Nexthop (snapshotNexthops nexthops))" using assms(2) by (simp add: snapshotNexthops_def o_def)
  moreover have "0 \<notin> hs_Nexthop ` set (snapshotNexthops nexthops)" using assms(3) by (auto simp: snapshotNexthops_def)
  ultimately have "pd_wf (fst (StartPathDiscovery cf now (TierGrouping (snapshotNexthops nexthops) ?i, nd)))"
    by (intro start_wf [OF w]) (simp_all add: e)
  moreover have "pi_IsInitialized (fst (StartPathDiscovery cf now (TierGrouping hops ?i, nd)))" for hops
    by (rule start_initialized) simp
  ultimately show ?thesis using False by (simp add: ensurePdInitialized_def)
qed

lemma advance_wf:
  assumes "pd_wf info" "\<not> pi_IsNodeConverged info" "pi_IsInitialized info" "distinct (map nh_Nexthop nexthops)" "0 \<notin> nh_Nexthop ` set nexthops"
    "advanceProbe cf now p nexthops (info, nd) = ((i2, nd2), go)"
  shows "pd_wf i2"
proof -
  let ?r = "refreshPathDiscoverySnapshot nexthops info"
  have r: "pd_wf ?r" using refresh_wf [OF assms(1-5)] by simp
  have "pd_wf (fst (ProbeNextTier cf now (?r\<lparr>pi_ProbeIndex := p\<rparr>, nd)))" if "\<not> int (pi_CurrentTier ?r) \<ge> int (length (pi_WaitList ?r)) - 1"
    by (rule probeNext_wf) (use r that in auto)
  then show ?thesis using assms(1,6) r by (auto simp: advanceProbe_def Let_def split: if_splits)
qed

lemma ingress_wf: "pd_wf info \<Longrightarrow> noteIngress f info = (i, go) \<Longrightarrow> pd_wf i"
  by (auto simp: noteIngress_def freezeTier_def Let_def exclude_wf split: if_splits option.splits)

lemma completeFrozen_wf: "pd_wf info \<Longrightarrow> pd_wf (completeFrozen f info)"
  by (auto simp: completeFrozen_def Let_def intro!: foldl_wf [where f = "\<lambda>i face. excludeFace face i"] exclude_wf)

lemma schedule_wf: "pd_wf info \<Longrightarrow> pd_wf (fst (scheduleProbe faces now packet pe inFace (info, t)))"
  by (auto simp: scheduleProbe_def Let_def completeFrozen_wf split: prod.splits)

lemma skipIf_wf: "pd_wf info \<Longrightarrow> (if b then skipTier cf now (info, nd) else (info, nd)) = (i, n) \<Longrightarrow> pd_wf i"
  using skip_wf [of info cf now nd] by (auto split: if_splits)

lemma notePd_wf:
  assumes "pd_wf info" "notePdData cf now f dp (info, nd) = ((i, n), d)"
  shows "pd_wf i"
  using assms converge_wf [of "info\<lparr>pi_ConvergedUpstreamTier := gm_del f (pi_ConvergedUpstreamTier info)\<rparr>" cf now nd] converge_wf [OF assms(1), of cf now nd]
  by (auto simp: notePdData_def Let_def split: if_splits prod.splits)

end
