(* ===== verification/Mp_Strategy.thy ===== *)
theory Mp_Strategy
  imports Mp_Discovery_Inv
begin

text \<open>
  The handlers of the multipath strategy (\<open>fw/fw/multipath.go\<close>) for everything but path discovery,
  and the dispatch of Interests, Data and Nacks on the type of the name.  An event reads the clock
  once.  Of next hops with equal costs the earlier one is tried first.
\<close>

type_synonym mpState = "Multipath \<times> mpNode \<times> fwThread"

subsection \<open>Interests without a type\<close>

text \<open>The first pass; the flag says that the handler returned.\<close>

fun fallbackFirstPass ::
  "FaceDispatch \<Rightarrow> gotime \<Rightarrow> InterestPkt \<Rightarrow> nat \<Rightarrow> faceId \<Rightarrow> FibNextHopEntry list \<Rightarrow> fwThread \<Rightarrow> fwThread \<times> bool" where
  "fallbackFirstPass faces now packet pe inFace [] t = (t, False)"
| "fallbackFirstPass faces now packet pe inFace (nh # hops) t =
    (case map_of (pe_outRecords (pitEntryOf t pe)) (nh_Nexthop nh) of
       Some oR \<Rightarrow> if or_LatestTimestamp oR + multipathFallbackSuppressionTime > now then (t, True)
                 else fallbackFirstPass faces now packet pe inFace hops t
     | None \<Rightarrow>
         let (t1, sent) = SendInterest faces now packet pe (nh_Nexthop nh) inFace t
         in if sent then (t1, True) else fallbackFirstPass faces now packet pe inFace hops t1)"

fun sendFirstUsable ::
  "FaceDispatch \<Rightarrow> gotime \<Rightarrow> InterestPkt \<Rightarrow> nat \<Rightarrow> faceId \<Rightarrow> FibNextHopEntry list \<Rightarrow> fwThread \<Rightarrow> fwThread" where
  "sendFirstUsable faces now packet pe inFace [] t = t"
| "sendFirstUsable faces now packet pe inFace (nh # hops) t =
    (let (t1, sent) = SendInterest faces now packet pe (nh_Nexthop nh) inFace t
     in if sent then t1 else sendFirstUsable faces now packet pe inFace hops t1)"

definition handleBestRouteInterest ::
  "FaceDispatch \<Rightarrow> gotime \<Rightarrow> InterestPkt \<Rightarrow> nat \<Rightarrow> faceId \<Rightarrow> FibNextHopEntry list \<Rightarrow> fwThread \<Rightarrow> fwThread" where
  "handleBestRouteInterest faces now packet pe inFace nexthops t =
    (let sortedHops = sort_key nh_Cost nexthops;
         (t1, returned) = fallbackFirstPass faces now packet pe inFace sortedHops t
     in if nexthops = [] then t
        else if returned then t1 else sendFirstUsable faces now packet pe inFace sortedHops t1)"

subsection \<open>Data transmission Interests\<close>

definition splitDtShapingReadyFaces :: "mpNode \<Rightarrow> faceId list \<Rightarrow> faceId list \<times> faceId list" where
  "splitDtShapingReadyFaces nd candidateFaces =
    (let ready = (\<lambda>face. fc_activated (controlOf nd face) \<and> fc_rate (controlOf nd face) > 0)
     in (filter ready candidateFaces, filter (\<lambda>face. \<not> ready face) candidateFaces))"

definition shouldProbeDtUnreadyFaceLocked :: "PathDiscoveryInfo \<Rightarrow> PathDiscoveryInfo \<times> bool" where
  "shouldProbeDtUnreadyFaceLocked info =
    (let k = pi_DtBootstrapProbeCounter info + 1
     in (info\<lparr>pi_DtBootstrapProbeCounter := k\<rparr>, k mod dtPartialBootstrapProbeEvery = 0))"

definition selectDtBootstrapFaceRRLocked :: "PathDiscoveryInfo \<Rightarrow> faceId list \<Rightarrow> PathDiscoveryInfo \<times> faceId" where
  "selectDtBootstrapFaceRRLocked info candidateFaces =
    (if candidateFaces = [] then (info, 0)
     else
       let n = int (length candidateFaces);
           rr = (if pi_DtBootstrapFaceRR info < 0 \<or> pi_DtBootstrapFaceRR info \<ge> n then 0 else pi_DtBootstrapFaceRR info)
       in (info\<lparr>pi_DtBootstrapFaceRR := (rr + 1) mod n\<rparr>, candidateFaces ! nat rr))"

text \<open>The faces an Interest may use, and whether their rates are controlled.\<close>

definition dtFacesFor :: "PathDiscoveryInfo \<Rightarrow> dtFailureSnapshot \<Rightarrow> faceId list \<Rightarrow> faceId list" where
  "dtFacesFor info snapshot candidateFaces =
    (let dtFaces = (if pi_IsNodeConverged info \<and> pi_DtValidFaces info \<noteq> [] then pi_DtValidFaces info else candidateFaces)
     in if sn_Active snapshot then dtFilterFacesWithoutFailure dtFaces (sn_FailedFace snapshot) else dtFaces)"

definition dtRateControlled :: "PathDiscoveryInfo \<Rightarrow> bool" where
  "dtRateControlled info \<longleftrightarrow> (if pi_IsNodeConverged info then pi_DtFaceRateControlEnabled info else True)"

text \<open>The part of the handler that assigns the Interest to a ready face and queues it.\<close>

definition assignDtInterest ::
  "fwConfig \<Rightarrow> gotime \<Rightarrow> InterestPkt \<Rightarrow> nat \<Rightarrow> faceId \<Rightarrow> string \<Rightarrow> faceId list \<Rightarrow> Multipath \<times> mpNode \<Rightarrow> Multipath \<times> mpNode" where
  "assignDtInterest cf now packet pe inFace prefixKey readyFaces st =
    (let (s, nd) = st;
         (s1, assignedFace) = selectDtAssignedFaceWRR (dtCurrentFaceWeight nd) prefixKey readyFaces s
     in if assignedFace = 0 then (s1, nd)
        else
          let item = \<lparr>iq_Packet = packet, iq_PitEntry = pe, iq_InFace = inFace, iq_OwnerThreadID = mp_threadID s1,
                      iq_CandidateFaces = readyFaces, iq_AssignedFace = assignedFace, iq_EnqueueTime = now\<rparr>;
              (s2, nd2, _, _) = enqueueLocalDtInterest cf prefixKey item (s1, nd)
          in (s2, nd2))"

definition forwardDtInterest ::
  "fwConfig \<Rightarrow> FaceDispatch \<Rightarrow> gotime \<Rightarrow> InterestPkt \<Rightarrow> nat \<Rightarrow> faceId \<Rightarrow> string \<Rightarrow> faceId list \<Rightarrow> mpState \<Rightarrow> mpState" where
  "forwardDtInterest cf faces now packet pe inFace prefixKey dtFaces st =
    (let (s, nd, t) = st; info = getPathDiscoveryInfo nd prefixKey;
         send = (\<lambda>face. fst (SendInterest faces now packet pe face inFace t))
     in if \<not> dtRateControlled info then (s, putInfo prefixKey info nd, send (hd dtFaces))
        else
          let nd1 = ensureDtControlActivated dtFaces now nd;
              (readyFaces, unreadyFaces) = splitDtShapingReadyFaces nd1 dtFaces
          in if readyFaces = [] then
               let (i1, face) = selectDtBootstrapFaceRRLocked info dtFaces in (s, putInfo prefixKey i1 nd1, send face)
             else
               let (i1, probe) = (if unreadyFaces \<noteq> [] then shouldProbeDtUnreadyFaceLocked info else (info, False))
               in if probe then
                    let (i2, face) = selectDtBootstrapFaceRRLocked i1 unreadyFaces in (s, putInfo prefixKey i2 nd1, send face)
                  else
                    let (s2, nd2) = assignDtInterest cf now packet pe inFace prefixKey readyFaces (s, putInfo prefixKey i1 nd1)
                    in (s2, nd2, t))"

definition handleDataTransmissionInterest ::
  "fwConfig \<Rightarrow> FaceDispatch \<Rightarrow> gotime \<Rightarrow> InterestPkt \<Rightarrow> nat \<Rightarrow> faceId \<Rightarrow> FibNextHopEntry list \<Rightarrow> mpState \<Rightarrow> mpState" where
  "handleDataTransmissionInterest cf faces now packet pe inFace nexthops st =
    (let (s0, nd0, t) = st;
         ((s, nd), failureSnapshot) = syncDtFailureState cf now (s0, nd0)
     in if nexthops = [] then (s, nd, t)
        else
          let candidateFaces = sort (map nh_Nexthop nexthops);
              prefixKey = prefixKeyOf cf (ip_Name packet);
              info = getPathDiscoveryInfo nd prefixKey;
              dtFaces = dtFacesFor info failureSnapshot candidateFaces
          in if dtFaces = [] then (s, putInfo prefixKey info nd, t)
             else forwardDtInterest cf faces now packet pe inFace prefixKey dtFaces (s, nd, t))"

subsection \<open>Data transmission Nacks and Data\<close>

definition handleTransmissionNack ::
  "fwConfig \<Rightarrow> FaceDispatch \<Rightarrow> InterestPkt \<Rightarrow> nat \<Rightarrow> faceId \<Rightarrow> u64 \<Rightarrow> mpNode \<times> fwThread \<Rightarrow> mpNode \<times> fwThread" where
  "handleTransmissionNack cf faces packet pe inFace nackReason st =
    (let (nd, t) = st; prefix = prefixKeyOf cf (ip_Name packet); info = getPathDiscoveryInfo nd prefix;
         i1 = (if nackReason = NackReasonNoRoute \<and> inFace \<in> set (pi_ActiveFaces info)
               then let rest = remove1 inFace (pi_ActiveFaces info)
                    in info\<lparr>pi_ActiveFaces := rest,
                            pi_ActiveFaceIndex := (if pi_ActiveFaceIndex info \<ge> length rest then 0 else pi_ActiveFaceIndex info)\<rparr>
               else info)
     in (putInfo prefix i1 nd, sendNackToAll faces packet pe inFace nackReason t))"

text \<open>The content as a data transmission packet: the two queue signals and the values.\<close>

definition decodeDt :: "content \<Rightarrow> (float64 \<times> float64 \<times> u64 list) option" where
  "decodeDt c = (case c of
       DtContent i d vs \<Rightarrow> Some (i, d, vs)
     | BytesContent bs \<Rightarrow> map_option (\<lambda>dp. (float64_of_bits (dp_InterestQsf dp), float64_of_bits (dp_DataQsf dp), dp_Values dp)) (deserializeData bs))"

definition contentLength :: "content \<Rightarrow> nat" where
  "contentLength c = (case c of DtContent _ _ vs \<Rightarrow> 16 + 8 * length vs | BytesContent bs \<Rightarrow> length bs)"

definition dtDataQsfSource :: string where "dtDataQsfSource = ''qdisc''"
definition dtLinkServiceQueueCapacityPackets :: float64 where "dtLinkServiceQueueCapacityPackets = 20"

definition downstreamDataQsf :: "FaceDispatch \<Rightarrow> nat \<Rightarrow> faceId \<Rightarrow> float64" where
  "downstreamDataQsf faces dataPayloadSizeBytes faceID =
    (case GetFace faces faceID of
       None \<Rightarrow> 0
     | Some outFace \<Rightarrow>
         if dtDataQsfSource = ''qdisc''
         then normalizeDtQueueSignal (of_nat (unat (ff_LinkBacklogPackets outFace))) dtQdiscQueueCapacityPackets
         else if dtDataQsfSource = ''link-service''
         then normalizeDtQueueSignal (of_nat (unat (ff_LinkSendQueueLen outFace))) dtLinkServiceQueueCapacityPackets
         else normalizeDtQueueSignal (of_nat (unat (ff_SendQueueSize outFace)) / of_nat dataPayloadSizeBytes) dtInterestQueueCapacityPackets)"

text \<open>The measurements a Data packet gives; skipped for a prefix with a single path.\<close>

definition measureDt ::
  "string \<Rightarrow> faceId \<Rightarrow> gotime \<Rightarrow> gotime option \<Rightarrow> int \<Rightarrow> float64 \<Rightarrow> float64 \<Rightarrow> mpNode \<Rightarrow> mpNode" where
  "measureDt prefix inFace now outTime payloadSize interestQsf dataQsf nd =
    (let (info, face) = updateDtUpstreamMeasurements prefix inFace now payloadSize interestQsf dataQsf
                          (getPathDiscoveryInfo nd prefix, faceOf nd inFace)
     in onFace (\<lambda>_. maybeInitDtControlPeriodFromRtt outTime now face) inFace (putInfo prefix info nd))"

definition sendDtData ::
  "FaceDispatch \<Rightarrow> DataPkt \<Rightarrow> nat \<Rightarrow> faceId \<Rightarrow> (faceId \<Rightarrow> content option) \<Rightarrow> fwThread \<Rightarrow> fwThread" where
  "sendDtData faces packet pe inFace contentFor t =
    foldl (\<lambda>t faceID. SendData faces (case contentFor faceID of None \<Rightarrow> packet | Some c \<Rightarrow> packet\<lparr>dk_Raw := Some c\<rparr>) pe faceID inFace t)
      t (inFaces t pe)"

definition handleTransmissionData ::
  "fwConfig \<Rightarrow> FaceDispatch \<Rightarrow> gotime \<Rightarrow> DataPkt \<Rightarrow> nat \<Rightarrow> faceId \<Rightarrow> mpNode \<times> fwThread \<Rightarrow> mpNode \<times> fwThread" where
  "handleTransmissionData cf faces now packet pe inFace st =
    (let (nd, t) = st
     in case dk_Raw packet of
          None \<Rightarrow> (nd, sendDataToAll faces packet pe inFace t)
        | Some originalContent \<Rightarrow>
            let contentSize = contentLength originalContent; dataPayloadSizeBytes = (if contentSize = 0 then 1 else contentSize);
                dtPacket = decodeDt originalContent;
                interestQsf = (case dtPacket of Some (i, _, _) \<Rightarrow> i | None \<Rightarrow> 0);
                dataQsf = (case dtPacket of Some (_, d, _) \<Rightarrow> d | None \<Rightarrow> 0);
                prefix = prefixKeyOf cf (dk_Name packet); info = getPathDiscoveryInfo nd prefix;
                singlePathDtBypass = (pi_IsNodeConverged info \<and> \<not> pi_DtFaceRateControlEnabled info);
                outTime = map_option or_LatestTimestamp (map_of (pe_outRecords (pitEntryOf t pe)) inFace);
                nd1 = (if singlePathDtBypass then putInfo prefix info nd
                       else measureDt prefix inFace now outTime (int contentSize) interestQsf dataQsf nd);
                interestQueueQsf = (if singlePathDtBypass then interestQsf
                  else normalizeDtQueueSignal (of_int (globalDtPrefixQueueLen nd1 prefix)) (dtGlobalInterestQueueCapacityPackets (cf_numThreads cf)));
                contentFor = (\<lambda>faceID. map_option (\<lambda>(_, _, vs).
                  DtContent interestQueueQsf
                    (let down = downstreamDataQsf faces dataPayloadSizeBytes faceID
                     in if singlePathDtBypass then max dataQsf down else down) vs) dtPacket)
            in (nd1, sendDtData faces packet pe inFace contentFor t))"

subsection \<open>Dispatch\<close>

definition packetType :: "fwConfig \<Rightarrow> name \<Rightarrow> string" where
  "packetType cf n = (if length n \<ge> 3 then compString cf (n ! 2) else [])"

definition AfterContentStoreHit :: "FaceDispatch \<Rightarrow> DataPkt \<Rightarrow> nat \<Rightarrow> faceId \<Rightarrow> mpState \<Rightarrow> mpState" where
  "AfterContentStoreHit faces packet pe inFace st = (let (s, nd, t) = st in (s, nd, SendData faces packet pe inFace 0 t))"

definition AfterReceiveData ::
  "fwConfig \<Rightarrow> FaceDispatch \<Rightarrow> gotime \<Rightarrow> DataPkt \<Rightarrow> nat \<Rightarrow> faceId \<Rightarrow> mpState \<Rightarrow> mpState" where
  "AfterReceiveData cf faces now packet pe inFace st =
    (let (s, nd, t) = st; dataType = packetType cf (dk_Name packet)
     in if dataType = ''pd'' then (s, handlePathDiscoveryData cf faces now packet pe inFace (nd, t))
        else if dataType = ''dt'' then (s, handleTransmissionData cf faces now packet pe inFace (nd, t))
        else (s, nd, sendDataToAll faces packet pe inFace t))"

definition AfterReceiveInterest ::
  "fwConfig \<Rightarrow> FaceDispatch \<Rightarrow> gotime \<Rightarrow> InterestPkt \<Rightarrow> nat \<Rightarrow> faceId \<Rightarrow> FibNextHopEntry list \<Rightarrow> mpState \<Rightarrow> mpState" where
  "AfterReceiveInterest cf faces now packet pe inFace nexthops st =
    (let (s, nd, t) = st; interestType = packetType cf (ip_Name packet)
     in if interestType = ''pd'' then (s, handlePathDiscoveryInterest cf faces now packet pe inFace nexthops (nd, t))
        else if interestType = ''dt'' then handleDataTransmissionInterest cf faces now packet pe inFace nexthops st
        else (s, nd, handleBestRouteInterest faces now packet pe inFace nexthops t))"

definition AfterReceiveNack ::
  "fwConfig \<Rightarrow> FaceDispatch \<Rightarrow> gotime \<Rightarrow> InterestPkt \<Rightarrow> nat \<Rightarrow> faceId \<Rightarrow> u64 \<Rightarrow> mpState \<Rightarrow> mpState" where
  "AfterReceiveNack cf faces now packet pe inFace nackReason st =
    (let (s, nd, t) = st; interestType = packetType cf (ip_Name packet)
     in if interestType = ''pd'' then (s, handlePathDiscoveryNack cf faces now packet pe inFace nackReason (nd, t))
        else if interestType = ''dt'' then (s, handleTransmissionNack cf faces packet pe inFace nackReason (nd, t))
        else (s, nd, sendNackToAll faces packet pe inFace nackReason t))"

definition AfterReceiveLoopedInterest ::
  "fwConfig \<Rightarrow> FaceDispatch \<Rightarrow> InterestPkt \<Rightarrow> nat \<Rightarrow> faceId \<Rightarrow> mpState \<Rightarrow> mpState" where
  "AfterReceiveLoopedInterest cf faces packet pe inFace st =
    (let (s, nd, t) = st
     in if packetType cf (ip_Name packet) = ''pd'' then (s, nd, fst (SendNack faces packet pe inFace inFace NackReasonNone t)) else st)"

end
