(* ===== verification/Mp_Steps.thy ===== *)
theory Mp_Steps
  imports Mp_Strategy
begin

text \<open>
  What one handler of the multipath strategy may change.  A thread records its demand in its own slot
  of the shared node and leaves the slots of the other threads alone; the discovery handlers store a
  well-formed state of their prefix and never change a converged result; and every handler keeps the
  thread's queues and the recorded demand in step.
\<close>

subsection \<open>What one event may change for the others\<close>

definition calm :: "fwConfig \<Rightarrow> mpNode \<Rightarrow> mpNode \<Rightarrow> bool" where
  "calm cf nd nd' \<longleftrightarrow> (\<forall>f. demandVec (cf_numThreads cf) (controlOf nd' f) = demandVec (cf_numThreads cf) (controlOf nd f))"

definition quiet :: "fwConfig \<Rightarrow> mpNode \<Rightarrow> mpNode \<Rightarrow> bool" where
  "quiet cf nd nd' \<longleftrightarrow> calm cf nd nd' \<and> nd_info nd' = nd_info nd"

definition spares :: "fwConfig \<Rightarrow> Multipath \<Rightarrow> mpNode \<Rightarrow> mpNode \<Rightarrow> bool" where
  "spares cf s nd nd' \<longleftrightarrow> (\<forall>f j. j < threadSlots (cf_numThreads cf) \<and> j \<noteq> nat (mp_threadID s) \<longrightarrow>
     demandVec (cf_numThreads cf) (controlOf nd' f) ! j = demandVec (cf_numThreads cf) (controlOf nd f) ! j)"

definition own :: "fwConfig \<Rightarrow> Multipath \<times> mpNode \<Rightarrow> Multipath \<times> mpNode \<Rightarrow> bool" where
  "own cf st st' \<longleftrightarrow> mp_threadID (fst st') = mp_threadID (fst st) \<and> nd_info (snd st') = nd_info (snd st)
     \<and> set (mp_localFaceOrder (fst st)) \<subseteq> set (mp_localFaceOrder (fst st'))
     \<and> (0 \<notin> set (mp_localFaceOrder (fst st)) \<longrightarrow> 0 \<notin> set (mp_localFaceOrder (fst st')))
     \<and> (slot_ok cf (fst st) \<longrightarrow> spares cf (fst st) (snd st) (snd st'))"

lemma calm_refl [simp]: "calm cf nd nd" and quiet_refl [simp]: "quiet cf nd nd"
  by (simp_all add: calm_def quiet_def)

lemma quiet_trans: "quiet cf nd nd1 \<Longrightarrow> quiet cf nd1 nd2 \<Longrightarrow> quiet cf nd nd2"
  by (simp add: quiet_def calm_def)

lemma own_refl [simp]: "own cf st st"
  by (simp add: own_def spares_def)

lemma own_trans: "own cf st st1 \<Longrightarrow> own cf st1 st2 \<Longrightarrow> own cf st st2"
  by (auto simp: own_def spares_def slot_ok_def)

lemma own_quiet:
  "quiet cf nd nd' \<Longrightarrow> mp_threadID s' = mp_threadID s \<Longrightarrow> mp_localFaceOrder s' = mp_localFaceOrder s \<Longrightarrow> own cf (s, nd) (s', nd')"
  by (simp add: own_def quiet_def calm_def spares_def)

lemma quiet_onControl: "(\<And>c. demandVec (cf_numThreads cf) (g c) = demandVec (cf_numThreads cf) c) \<Longrightarrow> quiet cf nd (onControl g f nd)"
  by (simp add: quiet_def calm_def)

lemma quiet_onFace:
  "(\<And>c. demandVec (cf_numThreads cf) (fs_control (g c)) = demandVec (cf_numThreads cf) (fs_control c)) \<Longrightarrow> quiet cf nd (onFace g f nd)"
  by (simp add: quiet_def calm_def controlOf_def)

lemma quiet_foldl: "(\<And>nd x. quiet cf nd (g nd x)) \<Longrightarrow> quiet cf nd (foldl g nd xs)"
  by (induction xs arbitrary: nd) (auto intro: quiet_trans)

lemma quiet_failure [simp]: "quiet cf nd (nd\<lparr>nd_failure := x\<rparr>)"
  by (simp add: quiet_def calm_def)

lemma quiet_queueLen [simp]: "quiet cf nd (fst (noteDtGlobalPrefixQueue p d nd))"
  by (simp add: quiet_def calm_def)

lemma quiet_blocked: "quiet cf nd (fst (dtBlockedFace cf now f nd))" "quiet cf nd (fst (dtFailureSnapshotNode cf now nd))"
  by (simp_all add: dtBlockedFace_def dtFailureSnapshotNode_def case_prod_beta)

lemma own_demandUpdate:
  assumes "mp_threadID s' = mp_threadID s"
  shows "own cf (s, nd) (s, demandUpdate cf s' f d nd)"
  using assms by (auto simp: own_def spares_def demandUpdate_def slot_ok_def demandVec_note)

lemma own_eligible: "f \<noteq> 0 \<Longrightarrow> own cf (s, nd) (noteLocalPrefixEligibleForFace f p s, nd)"
  by (auto simp: own_def spares_def noteLocalPrefixEligibleForFace_def Let_def)

lemma select_frame:
  assumes "selectDtAssignedFaceWRR w p fs s = (s', g)"
  shows "\<exists>a. s' = s\<lparr>mp_assignByPrefix := a\<rparr>"
  using assms by (auto simp: selectDtAssignedFaceWRR_def Let_def split: if_splits) (metis Multipath.cases Multipath.update_convs(4))+

lemma own_select: "selectDtAssignedFaceWRR w p fs s = (s', g) \<Longrightarrow> own cf (s, nd) (s', nd)"
  using select_frame [of w p fs s s' g] by (auto simp: own_def spares_def)

lemma own_enqueue:
  assumes "enqueueLocalDtInterest cf p item (s, nd) = (s', nd', k, m)"
  shows "own cf (s, nd) (s', nd')"
proof -
  define s1 where "s1 = s\<lparr>mp_queuesByPrefix := gm_put p (gm_get0 [] (mp_queuesByPrefix s) p @ [item]) (mp_queuesByPrefix s)\<rparr>"
  define nd1 where "nd1 = fst (noteDtGlobalPrefixQueue p 1 nd)"
  have a: "own cf (s, nd) (s1, nd1)" by (rule own_quiet) (simp_all add: s1_def nd1_def)
  have b: "own cf (s1, nd1) (s1, demandUpdate cf s1 (iq_AssignedFace item) 1 nd1)" by (rule own_demandUpdate) simp
  show ?thesis
  proof (cases "iq_AssignedFace item = 0")
    case True
    then show ?thesis using a assms by (simp add: enqueueLocalDtInterest_def Let_def case_prod_beta s1_def nd1_def)
  next
    case False
    then have "s' = noteLocalPrefixEligibleForFace (iq_AssignedFace item) p s1" "nd' = demandUpdate cf s1 (iq_AssignedFace item) 1 nd1"
      using assms by (simp_all add: enqueueLocalDtInterest_def Let_def case_prod_beta s1_def nd1_def)
    then show ?thesis using own_trans [OF own_trans [OF a b] own_eligible [OF False]] by simp
  qed
qed

lemma own_dequeue:
  assumes "dequeueDtInterestForFaceRR cf f (s, nd) = (s', nd', i)"
  shows "own cf (s, nd) (s', nd')"
proof -
  have "own cf (s, nd) (onExec g f s1, if c then demandUpdate cf s1 h d (fst (noteDtGlobalPrefixQueue p e nd)) else fst (noteDtGlobalPrefixQueue p e nd))"
    if s1: "s1 = s\<lparr>mp_queuesByPrefix := q\<rparr>" for g s1 q c h d p e
  proof -
    let ?nd = "fst (noteDtGlobalPrefixQueue p e nd)"
    have a: "own cf (s, nd) (s1, ?nd)" by (rule own_quiet) (simp_all add: s1)
    have b: "own cf (s1, ?nd) (s1, demandUpdate cf s1 h d ?nd)" by (rule own_demandUpdate) simp
    have c: "own cf (s1, n) (onExec g f s1, n)" for n by (rule own_quiet) simp_all
    show ?thesis using own_trans [OF a c] own_trans [OF own_trans [OF a b] c] by simp
  qed
  then show ?thesis using assms
    by (fastforce simp: dequeueDtInterestForFaceRR_def Let_def split: if_splits option.splits)
qed

lemma own_drainLoop: "own cf (ds_s d, ds_nd d) (ds_s (drainLoop cf faces now f k d), ds_nd (drainLoop cf faces now f k d))"
proof (induction k arbitrary: d)
  case (Suc k)
  obtain s1 nd1 i where q: "dequeueDtInterestForFaceRR cf f (ds_s d, ds_nd d) = (s1, nd1, i)" by (metis prod_cases3)
  note a = own_dequeue [OF q]
  have x: "own cf (s1, nd1) (onExec g f s1, nd1)" "own cf (s1, nd1) (onExec h f (onExec g f s1), nd1)" for g h
    by (rule own_quiet; simp)+
  show ?case
  proof (cases i)
    case None
    then show ?thesis using q None own_trans [OF a x(1)] by simp
  next
    case (Some item)
    obtain t1 ok where t: "SendInterest faces now (iq_Packet item) (iq_PitEntry item) f (iq_InFace item) (ds_t d) = (t1, ok)" by fastforce
    define d1 where "d1 = d\<lparr>ds_s := onExec (noteAge now item) f (if ok then onExec (\<lambda>x. x\<lparr>ex_sentShaped := ex_sentShaped x + 1\<rparr>) f s1 else s1),
        ds_nd := nd1, ds_t := t1, ds_used := (if ok then ds_used d + 1 else ds_used d), ds_sendFail := (if ok then ds_sendFail d else ds_sendFail d + 1)\<rparr>"
    have e: "drainLoop cf faces now f (Suc k) d = drainLoop cf faces now f k d1" using q Some t by (simp add: d1_def Let_def)
    have "own cf (ds_s d, ds_nd d) (ds_s d1, ds_nd d1)" using own_trans [OF a x(1)] own_trans [OF a x(2)] by (simp add: d1_def)
    from own_trans [OF this Suc.IH] show ?thesis unfolding e .
  qed
qed simp

lemma quiet_localPending: "quiet cf nd (fst (localPendingInterestsForFace cf f s nd))"
  by (simp add: localPendingInterestsForFace_def Let_def quiet_onControl)

lemma own_drainFace:
  assumes "drainDtInterestForFace cf faces now f (s, nd, t) = (s', nd', t')"
  shows "own cf (s, nd) (s', nd')"
proof -
  let ?n = "cf_numThreads cf"
  obtain nd1 bl where b: "dtBlockedFace cf now f nd = (nd1, bl)" by fastforce
  obtain nd2 pending where p: "localPendingInterestsForFace cf f s nd1 = (nd2, pending)" by fastforce
  obtain c budget where k: "takeDtThreadBudget ?n (mp_threadID s) dtSchedulerMaxSendPerTick (controlOf nd2 f) = (c, budget)" by fastforce
  have q2: "quiet cf nd nd1" "quiet cf nd nd2"
    using quiet_blocked(1) [of cf nd now f] quiet_localPending [of cf nd1 f s] b p by (auto intro: quiet_trans)
  have "demandVec ?n c = demandVec ?n (controlOf nd2 f)"
    using demandVec_slot_ops(2) [of ?n "mp_threadID s" dtSchedulerMaxSendPerTick "controlOf nd2 f"] k by simp
  then have q3: "quiet cf nd (onControl (\<lambda>_. c) f nd2)" using q2(2) by (simp add: quiet_def calm_def)
  have x: "own cf (s0, n0) (onExec g f s0, n0)" for s0 n0 g by (rule own_quiet) simp_all
  have y: "quiet cf n0 (onControl (noteDtRoundSchedulerEvent ?n (mp_threadID s) pe g u z e sf) f n0)"
    "quiet cf n0 (onControl (noteDtFaceSentPackets j) f n0)" for n0 pe g u z e sf j
    by (rule quiet_onControl; simp)+
  define s1 where "s1 = onExec (\<lambda>x. x\<lparr>ex_tickCount := ex_tickCount x + 1\<rparr>) f s"
  define nd3 where "nd3 = onControl (\<lambda>_. c) f nd2"
  have a: "own cf (s, nd) (s1, nd3)" using own_quiet [OF q3] by (simp add: s1_def nd3_def)
  define d where "d = drainLoop cf faces now f (nat budget) \<lparr>ds_s = s1, ds_nd = nd3, ds_t = t, ds_used = 0, ds_sendFail = 0, ds_emptyBudget = 0\<rparr>"
  have l: "own cf (s, nd) (ds_s d, ds_nd d)"
    using own_trans [OF a] own_drainLoop [of cf "\<lparr>ds_s = s1, ds_nd = nd3, ds_t = t, ds_used = 0, ds_sendFail = 0, ds_emptyBudget = 0\<rparr>"] by (simp add: d_def)
  have fin: "own cf (s, nd) (onExec g f sa, n1)" if "own cf (s, nd) (sa, n0)" "quiet cf n0 n1" for sa n0 n1 g
    using own_trans [OF that(1)] own_quiet [OF that(2)] by simp
  have z: "quiet cf n0 (fst (localPendingInterestsForFace cf f s0 (onControl (noteDtRoundSchedulerEvent ?n (mp_threadID s) pe g u z e sf) f
      (onControl (noteDtFaceSentPackets j) f n0))))" for n0 s0 pe g u z e sf j
    using quiet_trans [OF quiet_trans [OF y(2) y(1)] quiet_localPending] .
  consider "bl" | "\<not> bl" "pending = 0" | "\<not> bl" "pending \<noteq> 0" "budget \<le> 0" | "\<not> bl" "pending \<noteq> 0" "\<not> budget \<le> 0" by blast
  then show ?thesis
  proof cases
    case 3
    then have "s' = onExec logDtSchedulerSummary f (onExec (\<lambda>x. x\<lparr>ex_tokenMisses := ex_tokenMisses x + 1\<rparr>) f s1)"
      "nd' = onControl (noteDtRoundSchedulerEvent ?n (mp_threadID s) pending 0 0 True 0 0) f nd3"
      using assms b p k by (auto simp: drainDtInterestForFace_def Let_def s1_def nd3_def)
    then show ?thesis using fin [OF own_trans [OF a x] y(1)] by simp
  next
    case 4
    then have "s' = onExec logDtSchedulerSummary f (ds_s d)" "nd' = fst (localPendingInterestsForFace cf f (ds_s d)
        (onControl (noteDtRoundSchedulerEvent ?n (mp_threadID s) pending budget (ds_used d) False (ds_emptyBudget d) (ds_sendFail d)) f
          (onControl (noteDtFaceSentPackets (ds_used d)) f (ds_nd d))))"
      using assms b p k by (auto simp: drainDtInterestForFace_def Let_def s1_def nd3_def d_def)
    then show ?thesis using fin [OF l z] by simp
  qed (use assms b p q2 in \<open>auto simp: drainDtInterestForFace_def Let_def intro: own_quiet\<close>)
qed

subsection \<open>Reassignment and the controller\<close>

lemma own_reassignItem:
  assumes "reassignItem cf p b item (s, nd) = (st', item', k)"
  shows "own cf (s, nd) st'"
proof -
  have "own cf (s, nd) (noteLocalPrefixEligibleForFace g p s1, demandUpdate cf s1 g 1 (demandUpdate cf s1 b (- 1) nd))"
    if "selectDtAssignedFaceWRR w p fs s = (s1, g)" "g \<noteq> 0" for w fs s1 g
    using own_trans [OF own_trans [OF own_trans [OF own_select [OF that(1)] own_demandUpdate] own_demandUpdate] own_eligible [OF that(2)]] by simp
  then show ?thesis using assms own_select
    by (fastforce simp: reassignItem_def Let_def split: if_splits prod.splits)
qed

lemma own_reassignQueue: "reassignQueue cf p b q st = (st', q', k) \<Longrightarrow> own cf st st'"
proof (induction q arbitrary: st st' q' k)
  case (Cons i q)
  obtain st1 i1 k1 where a: "reassignItem cf p b i st = (st1, i1, k1)" by (metis prod_cases3)
  obtain st2 q2 k2 where c: "reassignQueue cf p b q st1 = (st2, q2, k2)" by (metis prod_cases3)
  have "st' = st2" using Cons.prems a c by simp
  moreover have "own cf st st1" using own_reassignItem [of cf p b i "fst st" "snd st"] a by simp
  ultimately show ?case using own_trans Cons.IH [OF c] by blast
qed simp

lemma own_reassignPrefix: "own cf (fst acc) (fst (reassignPrefix cf b acc p))"
proof -
  obtain st m where a: "acc = (st, m)" by fastforce
  obtain s1 nd1 q k where r: "reassignQueue cf p b (gm_get0 [] (mp_queuesByPrefix (fst st)) p) st = ((s1, nd1), q, k)" by (metis prod_cases3 surj_pair)
  have "own cf (s1, nd1) (s1\<lparr>mp_queuesByPrefix := x\<rparr>, nd1)" for x by (rule own_quiet) simp_all
  from own_trans [OF own_reassignQueue [OF r] this] show ?thesis by (simp add: a reassignPrefix_def r)
qed

lemma own_reassign: "own cf st (fst (reassignLocalDtInterestsFromFailedFace cf b st))"
proof -
  have "own cf (fst acc) (fst (foldl (reassignPrefix cf b) acc ps))" for acc ps
  proof (induction ps arbitrary: acc)
    case (Cons p ps)
    from own_trans [OF own_reassignPrefix Cons.IH] show ?case by simp
  qed simp
  from this [of "(st, 0)"] show ?thesis by (simp add: reassignLocalDtInterestsFromFailedFace_def)
qed

lemma quiet_controllerFace: "quiet cf nd (controllerFace cf now clock nd f)"
proof -
  obtain nd1 bl where b: "dtBlockedFace cf now f nd = (nd1, bl)" by fastforce
  have q1: "quiet cf nd nd1" using quiet_blocked(1) [of cf nd now f] b by simp
  let ?n = "cf_numThreads cf"
  define nd2 where "nd2 = (let c = controlOf nd1 f
     in if fc_activated c \<and> fc_rateControlActive c \<and> fc_period c > 0 \<and> (isZero (fc_nextRun c) \<or> \<not> now < fc_nextRun c)
        then onFace (faceSendRateEstimationCore ?n (fst clock) (snd clock)) f (onControl (\<lambda>c. c\<lparr>fc_nextRun := now + fc_period c\<rparr>) f nd1) else nd1)"
  have "quiet cf nd1 nd2"
    unfolding nd2_def Let_def using quiet_trans [OF quiet_onControl quiet_onFace] by simp
  with q1 have q2: "quiet cf nd nd2" by (rule quiet_trans)
  obtain nd3 b3 where b3: "dtBlockedFace cf now f nd2 = (nd3, b3)" by fastforce
  have q3: "quiet cf nd nd3" using quiet_trans [OF q2] quiet_blocked(1) [of cf nd2 now f] b3 by simp
  have x: "quiet cf nd1 (onControl (\<lambda>c. clearDtFaceBlockedStateLocked now (ensureDtControlThreadSlotsLocked ?n c)) f nd1)"
    "quiet cf nd3 (onControl (allocateDtFaceBudgets ?n b3 now) f nd3)"
    by (rule quiet_onControl; simp)+
  have "controllerFace cf now clock nd f = (if bl then onControl (\<lambda>c. clearDtFaceBlockedStateLocked now (ensureDtControlThreadSlotsLocked ?n c)) f nd1
      else onControl (allocateDtFaceBudgets ?n b3 now) f nd3)"
    using b3 unfolding controllerFace_def b nd2_def Let_def prod.case by (simp add: case_prod_beta)
  then show ?thesis using quiet_trans [OF q1 x(1)] quiet_trans [OF q3 x(2)] by simp
qed

lemma quiet_epoch: "quiet cf nd (runDtFastSchedulerEpochIfDue cf now clock nd)"
proof -
  have "quiet cf nd (nd\<lparr>nd_fastEpoch := a, nd_fastNext := b\<rparr>)" for a b
    by (simp add: quiet_def calm_def controlOf_def faceOf_def)
  then show ?thesis
    using quiet_trans quiet_foldl [where g = "\<lambda>nd face. controllerFace cf now (clock face) nd face", OF quiet_controllerFace]
    by (fastforce simp: runDtFastSchedulerEpochIfDue_def runDtControllerTick_def)
qed

subsection \<open>Path discovery\<close>

lemma quiet_activated: "quiet cf nd (ensureDtControlActivated fs now nd)"
  unfolding ensureDtControlActivated_def by (rule quiet_foldl) (simp add: quiet_onControl)

lemma quiet_converged: "quiet cf nd (snd (localNodeConverged cf now (info, nd)))"
  using quiet_trans [OF quiet_failure quiet_activated] by (simp add: localNodeConverged_def Let_def)

lemma quiet_skip: "quiet cf nd (snd (skipTier cf now (info, nd)))"
  by (simp add: skipTier_def Let_def quiet_converged)

lemma quiet_probe: "quiet cf nd (snd (ProbeTier cf now k (info, nd)))"
  by (simp add: ProbeTier_def Let_def quiet_converged)

lemma quiet_start: "quiet cf nd (snd (StartPathDiscovery cf now (info, nd)))"
  by (simp add: StartPathDiscovery_def Let_def case_prod_beta quiet_probe)

lemma quiet_initialized: "quiet cf nd (snd (ensurePdInitialized cf now p nexthops (info, nd)))"
  by (simp add: ensurePdInitialized_def quiet_start)

lemma quiet_advance: "quiet cf nd (snd (fst (advanceProbe cf now p nexthops (info, nd))))"
  by (simp add: advanceProbe_def ProbeNextTier_def Let_def quiet_probe)

lemma quiet_notePd: "quiet cf nd (snd (fst (notePdData cf now f dp (info, nd))))"
  by (simp add: notePdData_def Let_def case_prod_beta quiet_converged)

text \<open>The result of a converged discovery does not change.\<close>

definition keeps :: "PathDiscoveryInfo \<Rightarrow> PathDiscoveryInfo \<Rightarrow> bool" where
  "keeps i i' \<longleftrightarrow> (pi_IsNodeConverged i \<longrightarrow> pi_IsNodeConverged i' \<and> pi_DtValidFaces i' = pi_DtValidFaces i
     \<and> pi_DtFaceRateControlEnabled i' = pi_DtFaceRateControlEnabled i)"

lemma keeps_refl [simp]: "keeps i i"
  by (simp add: keeps_def)

lemma keeps_trans: "keeps i i1 \<Longrightarrow> keeps i1 i2 \<Longrightarrow> keeps i i2"
  by (simp add: keeps_def)

lemma keeps_foldl: "(\<And>i x. keeps i (f i x)) \<Longrightarrow> keeps i (foldl f i xs)"
  by (induction xs arbitrary: i) (auto intro: keeps_trans)

lemma keeps_frame:
  "keeps i (excludeFace f i)" "keeps i (probeHop i h)" "keeps i (removeCostlyTier c i k)" "keeps i (completeFrozen f i)"
  "noteIngress f i = (i', go) \<Longrightarrow> keeps i i'" "keeps i (dropVanished fs i f)"
proof -
  show e: "keeps i (excludeFace f i)" for i f by (simp add: keeps_def exclude_fields)
  show "keeps i (probeHop i h)" "keeps i (removeCostlyTier c i k)" "keeps i (dropVanished fs i f)"
    by (simp_all add: keeps_def probeHop_def removeCostlyTier_def dropVanished_def removeFaceFromProbedUpstreams_def Let_def)
  show "noteIngress f i = (i', go) \<Longrightarrow> keeps i i'"
    using e by (auto simp: noteIngress_def freezeTier_def Let_def keeps_def split: if_splits option.splits)
  have "keeps (i\<lparr>pi_FrozenFaces := m, pi_IsPdFrozen := False\<rparr>) (foldl (\<lambda>i face. excludeFace face i) (i\<lparr>pi_FrozenFaces := m, pi_IsPdFrozen := False\<rparr>) fs)" for m fs
    by (rule keeps_foldl) (rule e)
  then show "keeps i (completeFrozen f i)" by (simp add: completeFrozen_def keeps_def Let_def)
qed

lemma keeps_converged: "keeps i (fst (localNodeConverged cf now (i, nd)))"
  by (simp add: keeps_def localNodeConverged_def)

lemma keeps_skip: "keeps i (fst (skipTier cf now (i, nd)))"
  by (simp add: keeps_def skipTier_def Let_def)

lemma keeps_probe: "keeps i (fst (ProbeTier cf now k (i, nd)))"
proof -
  have "keeps i (foldl probeHop i hs)" for hs by (rule keeps_foldl) (rule keeps_frame)
  then show ?thesis using keeps_trans [OF _ keeps_converged] by (simp add: ProbeTier_def Let_def)
qed

lemma keeps_start: "keeps i (fst (ensurePdInitialized cf now p nexthops (i, nd)))"
proof -
  have c: "keeps i (foldl (removeCostlyTier t) i ks)" for t i ks by (rule keeps_foldl) (rule keeps_frame)
  have g: "keeps i (TierGrouping hops (i\<lparr>pi_IsInitialized := True, pi_ProbeIndex := p\<rparr>))" for hops
    by (simp add: keeps_def TierGrouping_def split: prod.split)
  have s: "keeps i (fst (StartPathDiscovery cf now (i, nd)))" for i
  proof -
    define i1 where "i1 = i\<lparr>pi_ValidUpstreams := foldl (\<lambda>m hop. gm_put (hs_Nexthop hop) True m) [] (concat (pi_TierList i)),
      pi_ConvergedUpstreamNode := foldl (\<lambda>m hop. gm_put (hs_Nexthop hop) True m) [] (concat (pi_TierList i)), pi_CurrentTier := 0\<rparr>"
    define i2 where "i2 = (case pi_TierCostList i1 of [] \<Rightarrow> i1 | c # _ \<Rightarrow> foldl (removeCostlyTier (c * 2)) i1 (rev [1..<length (pi_TierCostList i1)]))"
    have "keeps i i1" by (simp add: keeps_def i1_def)
    moreover have "keeps i1 i2" unfolding i2_def using c by (auto split: list.split simp del: upt_Suc)
    ultimately have "keeps i i2" by (rule keeps_trans)
    from keeps_trans [OF this keeps_probe] have k: "keeps i (fst (ProbeTier cf now (pi_CurrentTier i2) (i2, nd)))" .
    have "StartPathDiscovery cf now (i, nd) = (let (i3, nd3) = ProbeTier cf now (pi_CurrentTier i2) (i2, nd) in (i3\<lparr>pi_ProbedSchedulerIndex := 0\<rparr>, nd3))"
      unfolding StartPathDiscovery_def Let_def prod.case i1_def [symmetric] i2_def [symmetric] by (rule refl)
    then show ?thesis using k by (simp add: case_prod_beta keeps_def)
  qed
  show ?thesis using keeps_trans [OF g s] by (simp add: ensurePdInitialized_def)
qed

lemma keeps_schedule: "keeps i (fst (scheduleProbe faces now packet pe inFace (i, t)))"
proof -
  have "keeps i (completeFrozen f (i\<lparr>pi_ProbedSchedulerIndex := k\<rparr>))" for f k
    by (rule keeps_trans [OF _ keeps_frame(4)]) (simp add: keeps_def)
  then show ?thesis by (simp add: scheduleProbe_def Let_def case_prod_beta)
qed

lemma keeps_notePd: "notePdData cf now f dp (i, nd) = ((i', nd'), dp') \<Longrightarrow> keeps i i'"
  by (auto simp: notePdData_def keeps_def Let_def localNodeConverged_def split: if_splits prod.splits)

text \<open>A handler stores a well-formed state of its prefix, keeps its result and leaves the demand alone.\<close>

definition discovers :: "fwConfig \<Rightarrow> mpNode \<Rightarrow> mpNode \<Rightarrow> bool" where
  "discovers cf nd nd' \<longleftrightarrow> nd' = nd \<or> (\<exists>prefix info nd''. quiet cf nd nd'' \<and> pd_wf info \<and> keeps (getPathDiscoveryInfo nd prefix) info
     \<and> nd' = putInfo prefix info nd'')"

lemma discoversI:
  "quiet cf nd nd'' \<Longrightarrow> pd_wf info \<Longrightarrow> keeps (getPathDiscoveryInfo nd prefix) info \<Longrightarrow> discovers cf nd (putInfo prefix info nd'')"
  by (auto simp: discovers_def)

lemma interest_discovers:
  assumes wf: "\<And>p. pd_wf (getPathDiscoveryInfo nd p)" and nh: "distinct (map nh_Nexthop nexthops)" "0 \<notin> nh_Nexthop ` set nexthops"
  shows "discovers cf nd (fst (handlePathDiscoveryInterest cf faces now packet pe inFace nexthops (nd, t)))"
proof -
  define n where "n = ip_Name packet"
  define prefix where "prefix = compString cf (n ! 0)"
  define info where "info = getPathDiscoveryInfo nd prefix"
  have w: "pd_wf info" unfolding info_def by (rule wf)
  have inv: "discovers cf nd (putInfo prefix (i\<lparr>pi_IsInvalidNode := True\<rparr>) nd')" "discovers cf nd (putInfo prefix i nd')"
    if "quiet cf nd nd'" "pd_wf i" "keeps info i" for i nd'
    using that unfolding info_def by (auto intro!: discoversI simp: keeps_def)
  have sched: "discovers cf nd (putInfo prefix (fst (scheduleProbe faces now packet pe inFace (i, t))) nd')" if "quiet cf nd nd'" "pd_wf i" "keeps info i" for i nd'
    using that unfolding info_def by (intro discoversI schedule_wf keeps_trans [OF _ keeps_schedule])
  show ?thesis
  proof (cases "length n < 2 \<or> \<not> isRelevant cf prefix (compString cf (n ! 1)) \<or> pi_IsInvalidNode info")
    case True
    then show ?thesis using inv [OF quiet_refl w keeps_refl]
      by (auto simp: handlePathDiscoveryInterest_def Let_def n_def prefix_def info_def discovers_def split: option.splits)
  next
    case rel: False
    show ?thesis
    proof (cases "atoi (compString cf (n ! (length n - 2)))")
      case None
      then show ?thesis using rel by (simp add: handlePathDiscoveryInterest_def Let_def n_def discovers_def)
    next
      case (Some k)
      obtain i1 nd1 where i1: "ensurePdInitialized cf now k nexthops (info, nd) = (i1, nd1)" by fastforce
      have k1: "keeps info i1" using keeps_start [of info cf now k nexthops nd] i1 by simp
      have w1: "pd_wf i1" "pi_IsInitialized i1" and q1: "quiet cf nd nd1"
        using ensurePdInitialized_wf [OF w nh, of cf now k nd] quiet_initialized [of cf nd now k nexthops info] i1 by auto
      obtain i2 nd2 go2 where i2: "advanceProbe cf now k nexthops (i1, nd1) = ((i2, nd2), go2)" by (metis prod_cases3 surj_pair)
      have w2: "pd_wf i2" if "\<not> pi_IsNodeConverged i1" using advance_wf [OF w1(1) that w1(2) nh i2] .
      have q2: "quiet cf nd nd2" using quiet_trans [OF q1] quiet_advance [of cf nd1 now k nexthops i1] i2 by simp
      have k2: "keeps info i" if "\<not> pi_IsNodeConverged i1" for i using k1 that by (simp add: keeps_def)
      obtain i3 go3 where i3: "noteIngress inFace i2 = (i3, go3)" by fastforce
      obtain i4 nd4 where i4: "(if isCurrentTierAllInvalid i3 then skipTier cf now (i3, nd2) else (i3, nd2)) = (i4, nd4)" by fastforce
      have w4: "pd_wf i3" "pd_wf i4" if "\<not> pi_IsNodeConverged i1"
        using ingress_wf [OF w2 [OF that] i3] skipIf_wf [OF _ i4] by auto
      have q4: "quiet cf nd nd4" using quiet_trans [OF q2 quiet_skip [of cf nd2 now i3]] q2 i4 by (auto split: if_splits)
      have "fst (handlePathDiscoveryInterest cf faces now packet pe inFace nexthops (nd, t)) =
         (if pi_IsNodeConverged i1 then putInfo prefix (fst (scheduleProbe faces now packet pe inFace (i1, t))) nd1
          else if \<not> go2 then putInfo prefix i2 nd2 else if \<not> go3 then putInfo prefix i3 nd2
          else if length (pi_ValidUpstreams i4) = 0 then putInfo prefix (i4\<lparr>pi_IsInvalidNode := True\<rparr>) nd4
          else putInfo prefix (fst (scheduleProbe faces now packet pe inFace (i4, t))) nd4)"
        using rel Some
        unfolding handlePathDiscoveryInterest_def Let_def prod.case n_def [symmetric] prefix_def [symmetric] info_def [symmetric]
        by (simp add: i1 i2 i3 i4 split: prod.splits)
      then show ?thesis using inv sched w1 w2 w4 q1 q2 q4 k1 k2 by simp
    qed
  qed
qed

lemma nack_discovers:
  assumes wf: "\<And>p. pd_wf (getPathDiscoveryInfo nd p)"
  shows "discovers cf nd (fst (handlePathDiscoveryNack cf faces now packet pe inFace reason (nd, t)))"
proof -
  define prefix where "prefix = prefixKeyOf cf (ip_Name packet)"
  define info where "info = getPathDiscoveryInfo nd prefix"
  have w: "pd_wf info" unfolding info_def by (rule wf)
  define i1 where "i1 = (if \<not> pi_IsPdFrozen info then excludeFace inFace info else info)"
  have w1: "pd_wf i1" using w by (simp add: i1_def exclude_wf)
  obtain i2 nd2 where i2: "(if isCurrentTierAllInvalid i1 then skipTier cf now (i1, nd) else (i1, nd)) = (i2, nd2)" by fastforce
  have w2: "pd_wf i2" by (rule skipIf_wf [OF w1 i2])
  have q2: "quiet cf nd nd2" using quiet_skip [of cf nd now i1] i2 by (auto split: if_splits)
  have "keeps info i1" by (simp add: i1_def keeps_frame)
  moreover have "keeps i1 i2" using i2 keeps_skip [of i1 cf now nd] by (auto split: if_splits)
  ultimately have k2: "keeps info i2" by (rule keeps_trans)
  have d: "discovers cf nd (putInfo prefix info nd)" "discovers cf nd (putInfo prefix i2 nd2)" "discovers cf nd (putInfo prefix (i2\<lparr>pi_IsInvalidNode := True\<rparr>) nd2)"
    using w w2 q2 k2 unfolding info_def by (auto intro!: discoversI simp: keeps_def)
  show ?thesis
    unfolding handlePathDiscoveryNack_def Let_def prod.case prefix_def [symmetric] info_def [symmetric] i1_def [symmetric] i2
    using d by simp
qed

lemma data_discovers:
  assumes wf: "\<And>p. pd_wf (getPathDiscoveryInfo nd p)"
  shows "discovers cf nd (fst (handlePathDiscoveryData cf faces now packet pe inFace (nd, t)))"
proof -
  define prefix where "prefix = prefixKeyOf cf (dk_Name packet)"
  define info where "info = getPathDiscoveryInfo nd prefix"
  have w: "pd_wf info" unfolding info_def by (rule wf)
  have d0: "discovers cf nd (putInfo prefix info nd)" using w by (simp add: discoversI info_def)
  have "discovers cf nd (putInfo prefix i1 nd1)" if "notePdData cf now inFace dp (info, nd) = ((i1, nd1), dp1)" for dp i1 nd1 dp1
    using notePd_wf [OF w that] quiet_notePd [of cf nd now inFace dp info] keeps_notePd [OF that] that by (simp add: discoversI info_def)
  then show ?thesis using d0
    by (auto simp: handlePathDiscoveryData_def Let_def prefix_def [symmetric] info_def [symmetric] split: option.splits prod.splits)
qed

subsection \<open>The invariant of a thread and of the node\<close>

definition infos_ok :: "mpNode \<Rightarrow> bool" where
  "infos_ok nd \<longleftrightarrow> (\<forall>p. pd_wf (getPathDiscoveryInfo nd p))"

definition candidates_ok :: "Multipath \<Rightarrow> bool" where
  "candidates_ok s \<longleftrightarrow> (\<forall>p. \<forall>i \<in> set (queueOf s p). 0 \<notin> set (iq_CandidateFaces i))"

definition thread_inv :: "fwConfig \<Rightarrow> mpNode \<Rightarrow> Multipath \<Rightarrow> bool" where
  "thread_inv cf nd s \<longleftrightarrow> queue_ok cf s nd \<and> candidates_ok s \<and> 0 \<notin> set (mp_localFaceOrder s)"

definition step_ok :: "fwConfig \<Rightarrow> Multipath \<times> mpNode \<Rightarrow> Multipath \<times> mpNode \<Rightarrow> bool" where
  "step_ok cf st st' \<longleftrightarrow> thread_inv cf (snd st') (fst st') \<and> infos_ok (snd st') \<and> mp_threadID (fst st') = mp_threadID (fst st)
     \<and> spares cf (fst st) (snd st) (snd st') \<and> (\<forall>p. keeps (getPathDiscoveryInfo (snd st) p) (getPathDiscoveryInfo (snd st') p))"

lemma step_trans: "step_ok cf st st1 \<Longrightarrow> step_ok cf st1 st2 \<Longrightarrow> step_ok cf st st2"
  by (simp add: step_ok_def spares_def) (blast intro: keeps_trans)

lemma wf_valid: "pd_wf info \<Longrightarrow> 0 \<notin> set (pi_DtValidFaces info)"
  by (auto simp: pd_wf_def final_ok_def fresh_ok_def split: if_splits)

lemma named: "infos_ok nd \<Longrightarrow> candidates_ok s \<Longrightarrow> faces_named s nd"
  by (simp add: infos_ok_def candidates_ok_def faces_named_def wf_valid)

lemma named_candidates: "faces_named s nd \<Longrightarrow> candidates_ok s"
  by (simp add: candidates_ok_def faces_named_def)

lemma infos_same: "nd_info nd' = nd_info nd \<Longrightarrow> infos_ok nd' = infos_ok nd"
  by (simp add: infos_ok_def getPathDiscoveryInfo_def)

lemma infos_put: "infos_ok nd \<Longrightarrow> pd_wf info \<Longrightarrow> infos_ok (putInfo p info nd)"
  by (simp add: infos_ok_def getPathDiscoveryInfo_def putInfo_def)

lemma calm_put [simp]: "calm cf nd (putInfo p i nd') = calm cf nd nd'"
  by (simp add: calm_def controlOf_def faceOf_def putInfo_def)

lemma calm_step:
  "thread_inv cf nd s \<Longrightarrow> infos_ok nd' \<Longrightarrow> calm cf nd nd' \<Longrightarrow> (\<And>p. keeps (getPathDiscoveryInfo nd p) (getPathDiscoveryInfo nd' p)) \<Longrightarrow> step_ok cf (s, nd) (s, nd')"
  by (auto simp: step_ok_def thread_inv_def calm_def spares_def intro: queue_ok_node)

lemma quiet_step: "thread_inv cf nd s \<Longrightarrow> infos_ok nd \<Longrightarrow> quiet cf nd nd' \<Longrightarrow> step_ok cf (s, nd) (s, nd')"
  by (rule calm_step) (simp_all add: quiet_def infos_same [of nd' nd] getPathDiscoveryInfo_def)

lemma discovers_step: "thread_inv cf nd s \<Longrightarrow> infos_ok nd \<Longrightarrow> discovers cf nd nd' \<Longrightarrow> step_ok cf (s, nd) (s, nd')"
proof (rule calm_step)
  assume "infos_ok nd" "discovers cf nd nd'"
  then consider "nd' = nd" | p i nd'' where "quiet cf nd nd''" "pd_wf i" "nd' = putInfo p i nd''" by (auto simp: discovers_def)
  then show "infos_ok nd'"
  proof cases
    case 2
    then have "infos_ok nd''" using \<open>infos_ok nd\<close> infos_same [of nd'' nd] by (simp add: quiet_def)
    then show ?thesis using 2 by (simp add: infos_put)
  qed (use \<open>infos_ok nd\<close> in simp)
  show "calm cf nd nd'" using \<open>discovers cf nd nd'\<close> by (auto simp: discovers_def quiet_def)
  show "keeps (getPathDiscoveryInfo nd p) (getPathDiscoveryInfo nd' p)" for p
    using \<open>discovers cf nd nd'\<close> by (auto simp: discovers_def quiet_def getPathDiscoveryInfo_def putInfo_def)
qed

lemma own_step:
  assumes "thread_inv cf nd s" "infos_ok nd" "own cf (s, nd) (s', nd')" "queue_ok cf s' nd'" "candidates_ok s'"
  shows "step_ok cf (s, nd) (s', nd')"
  using assms by (auto simp: step_ok_def thread_inv_def own_def queue_ok_def infos_same [of nd' nd] getPathDiscoveryInfo_def)

lemma sync_step:
  assumes "thread_inv cf nd s" "infos_ok nd" "syncDtFailureState cf now (s, nd) = ((s', nd'), sn)"
  shows "step_ok cf (s, nd) (s', nd')"
proof -
  obtain nd1 sn1 where f: "dtFailureSnapshotNode cf now nd = (nd1, sn1)" by fastforce
  have q: "quiet cf nd nd1" using quiet_blocked(2) [of cf nd now] f by simp
  have st1: "step_ok cf (s, nd) (s, nd1)" by (rule quiet_step [OF assms(1,2) q])
  have t1: "thread_inv cf nd1 s" "infos_ok nd1" using st1 by (simp_all add: step_ok_def)
  obtain s2 nd2 k where re: "reassignLocalDtInterestsFromFailedFace cf (sn_FailedFace sn1) (s, nd1) = ((s2, nd2), k)" by (metis surj_pair)
  have o: "own cf (s, nd1) (s2, nd2)" using own_reassign [of cf "(s, nd1)" "sn_FailedFace sn1"] re by simp
  have "queue_ok cf s2 nd2 \<and> candidates_ok s2"
  proof (cases "sn_FailedFace sn1 = 0")
    case True
    then show ?thesis using re t1(1) by (simp add: reassignLocalDtInterestsFromFailedFace_def thread_inv_def)
  next
    case False
    from re have "foldl (reassignPrefix cf (sn_FailedFace sn1)) ((s, nd1), 0) (map fst (mp_queuesByPrefix s)) = ((s2, nd2), k)"
      using False by (simp add: reassignLocalDtInterestsFromFailedFace_def)
    from reassign_foldl [OF _ False _ this] t1 named [of nd1 s] named_candidates [of s2 nd2] show ?thesis by (auto simp: thread_inv_def)
  qed
  then have "step_ok cf (s, nd1) (s2, nd2)" using own_step [OF t1 o] by blast
  with st1 have st2: "step_ok cf (s, nd) (s2, nd2)" by (rule step_trans)
  moreover have "step_ok cf (s, nd) (s2\<lparr>mp_failureAppliedEpoch := e\<rparr>, nd2) = step_ok cf (s, nd) (s2, nd2)" for e
    by (simp add: step_ok_def thread_inv_def candidates_ok_def)
  ultimately show ?thesis using assms(3) st1 f re by (auto simp: syncDtFailureState_def Let_def split: if_splits)
qed

lemma drainFace_step:
  assumes "thread_inv cf nd s" "infos_ok nd" "f \<noteq> 0" "drainDtInterestForFace cf faces now f (s, nd, t) = (s', nd', t')"
  shows "step_ok cf (s, nd) (s', nd')"
proof (cases "snd (dtBlockedFace cf now f nd)")
  case True
  then have "s' = s" "nd' = fst (dtBlockedFace cf now f nd)" using assms(4) by (auto simp: drainDtInterestForFace_def case_prod_beta Let_def)
  then show ?thesis using quiet_step [OF assms(1,2) quiet_blocked(1)] by simp
next
  case False
  have ok: "queue_ok cf s nd" "candidates_ok s" using assms(1) by (simp_all add: thread_inv_def)
  from drain_face [OF ok(1) assms(3) False assms(4)]
  obtain items where q: "queued s = mset items + queued s'" "queue_ok cf s' nd'" by (auto simp: drains_def)
  have g: "gm_ok (mp_queuesByPrefix s)" "gm_ok (mp_queuesByPrefix s')" using ok(1) q(2) by (auto simp: queue_ok_def index_ok_tables)
  have "candidates_ok s'" unfolding candidates_ok_def
  proof (intro allI ballI)
    fix p i assume "i \<in> set (queueOf s' p)"
    then have "i \<in># queued s'" using queueOf_queued [OF g(2)] by blast
    then have "i \<in># queued s" by (simp add: q(1))
    then show "0 \<notin> set (iq_CandidateFaces i)" using queueOf_queued [OF g(1)] ok(2) by (auto simp: candidates_ok_def)
  qed
  then show ?thesis using own_step [OF assms(1,2) own_drainFace [OF assms(4)] q(2)] by blast
qed

lemma order_face:
  assumes "xs \<noteq> []"
  shows "unat (r mod of_nat (length xs) :: u64) < length xs"
proof -
  let ?n = "length xs"
  have u: "unat (r mod of_nat ?n :: u64) = unat r mod (?n mod 2 ^ 64)" by (simp add: unat_mod_distrib unat_of_nat)
  show ?thesis
  proof (cases "?n mod 2 ^ 64 = 0")
    case True
    then have "2 ^ 64 \<le> ?n" using assms by (metis length_greater_0_conv mod_less not_le less_irrefl)
    moreover have "unat r < 2 ^ LENGTH(64)" by (rule unsigned_less)
    ultimately show ?thesis using u True by simp
  next
    case False
    then have "unat r mod (?n mod 2 ^ 64) < ?n mod 2 ^ 64" by simp
    also have "\<dots> \<le> ?n" by simp
    finally show ?thesis by (simp only: u)
  qed
qed

lemma drainVisits_step:
  "thread_inv cf nd s \<Longrightarrow> infos_ok nd \<Longrightarrow> mp_localFaceOrder s \<noteq> [] \<Longrightarrow> drainVisits cf faces now k (s, nd, t) = (s', nd', t') \<Longrightarrow>
    step_ok cf (s, nd) (s', nd')"
proof (induction k arbitrary: s nd t)
  case (Suc k)
  define f where "f = mp_localFaceOrder s ! unat (mp_localFaceRR s mod of_nat (length (mp_localFaceOrder s)))"
  define s0 where "s0 = s\<lparr>mp_localFaceRR := mp_localFaceRR s + 1\<rparr>"
  obtain s1 nd1 t1 where d: "drainDtInterestForFace cf faces now f (s0, nd, t) = (s1, nd1, t1)" by (metis prod_cases3)
  have s0: "step_ok cf (s0, nd) st = step_ok cf (s, nd) st" "thread_inv cf nd s0" "mp_localFaceOrder s0 = mp_localFaceOrder s" for st
    using Suc.prems(1) by (simp_all add: s0_def step_ok_def thread_inv_def spares_def candidates_ok_def)
  have "unat (mp_localFaceRR s mod of_nat (length (mp_localFaceOrder s))) < length (mp_localFaceOrder s)"
    by (rule order_face) (rule Suc.prems(3))
  then have "f \<in> set (mp_localFaceOrder s)" by (simp add: f_def)
  then have "f \<noteq> 0" using Suc.prems(1) by (auto simp: thread_inv_def)
  from drainFace_step [OF s0(2) Suc.prems(2) this d] have a: "step_ok cf (s0, nd) (s1, nd1)" .
  have "set (mp_localFaceOrder s0) \<subseteq> set (mp_localFaceOrder s1)" using own_drainFace [OF d] by (simp add: own_def)
  then have "mp_localFaceOrder s1 \<noteq> []" using Suc.prems(3) s0(3) by auto
  moreover have "drainVisits cf faces now k (s1, nd1, t1) = (s', nd', t')" using Suc.prems(4) d by (simp add: Let_def f_def s0_def)
  moreover have "thread_inv cf nd1 s1" "infos_ok nd1" using a by (simp_all add: step_ok_def)
  ultimately have "step_ok cf (s1, nd1) (s', nd')" using Suc.IH by blast
  then show ?case using step_trans [OF a] s0(1) by blast
qed (simp add: quiet_step)

lemma tick_step:
  assumes "thread_inv cf nd s" "infos_ok nd" "OnTick cf faces now clock (s, nd, t) = (s', nd', t')"
  shows "step_ok cf (s, nd) (s', nd')"
proof -
  obtain s1 nd1 sn where y: "syncDtFailureState cf now (s, nd) = ((s1, nd1), sn)" by (metis surj_pair)
  define nd2 where "nd2 = runDtFastSchedulerEpochIfDue cf now clock nd1"
  note a = sync_step [OF assms(1,2) y]
  have b: "step_ok cf (s1, nd1) (s1, nd2)" unfolding nd2_def by (rule quiet_step [OF _ _ quiet_epoch]) (use a in \<open>simp_all add: step_ok_def\<close>)
  note ab = step_trans [OF a b]
  have "drainLocalDtQueues cf faces now (s1, nd2, t) = (s', nd', t')" using assms(3) y by (simp add: OnTick_def nd2_def)
  then have "step_ok cf (s1, nd2) (s', nd')"
    using drainVisits_step [of cf nd2 s1 faces now _ t s' nd' t'] quiet_step [of cf nd2 s1 nd2] b
    by (auto simp: drainLocalDtQueues_def Let_def step_ok_def split: if_splits)
  with ab show ?thesis by (rule step_trans)
qed

subsection \<open>Data transmission\<close>

lemma pd_wf_transmission [simp]:
  "pd_wf (info\<lparr>pi_ActiveFaces := a\<rparr>) = pd_wf info" "pd_wf (info\<lparr>pi_ActiveFaceIndex := k\<rparr>) = pd_wf info"
  "pd_wf (info\<lparr>pi_DtBootstrapFaceRR := j\<rparr>) = pd_wf info" "pd_wf (info\<lparr>pi_DtBootstrapProbeCounter := j\<rparr>) = pd_wf info"
  "pd_wf (info\<lparr>pi_UpstreamSamples := b\<rparr>) = pd_wf info" "pd_wf (info\<lparr>pi_UpstreamQsfInterest := c\<rparr>) = pd_wf info"
  "pd_wf (info\<lparr>pi_UpstreamQsfData := c\<rparr>) = pd_wf info" "pd_wf (info\<lparr>pi_UpstreamQsfInterestSlope := c\<rparr>) = pd_wf info"
  "pd_wf (info\<lparr>pi_UpstreamQsfDataSlope := c\<rparr>) = pd_wf info" "pd_wf (info\<lparr>pi_UpstreamInterestQsfBias := c\<rparr>) = pd_wf info"
  "pd_wf (info\<lparr>pi_UpstreamInterestQsfBiasReady := d\<rparr>) = pd_wf info"
  by (simp_all add: pd_wf_def wait_ok_def align_ok_def final_ok_def fresh_ok_def)

lemma measurements_ok:
  assumes "updateDtUpstreamMeasurements prefix f now k iq dq (info, face) = (info', face')"
  shows "pd_wf info' = pd_wf info" "keeps info info'" "fc_demandByThread (fs_control face') = fc_demandByThread (fs_control face)"
  using assms by (auto simp: updateDtUpstreamMeasurements_def updateDtFaceInterestSignal_def Let_def dtUseQsfBiasRemoval_def keeps_def split: prod.splits)

lemma maybeInit_demand: "fc_demandByThread (fs_control (maybeInitDtControlPeriodFromRtt o' now s)) = fc_demandByThread (fs_control s)"
  by (simp add: maybeInitDtControlPeriodFromRtt_def activateDtFaceRateControl_def Let_def split: option.split prod.split)

lemma discovers_put: "infos_ok nd \<Longrightarrow> discovers cf nd (putInfo p (getPathDiscoveryInfo nd p) nd)"
  by (rule discoversI) (simp_all add: infos_ok_def)

lemma measure_step:
  assumes "thread_inv cf nd s" "infos_ok nd"
  shows "step_ok cf (s, nd) (s, measureDt p f now o' k iq dq nd)"
proof (rule calm_step [OF assms(1)])
  obtain info face where m: "updateDtUpstreamMeasurements p f now k iq dq (getPathDiscoveryInfo nd p, faceOf nd f) = (info, face)" by fastforce
  note ok = measurements_ok [OF m]
  have e: "measureDt p f now o' k iq dq nd = onFace (\<lambda>_. maybeInitDtControlPeriodFromRtt o' now face) f (putInfo p info nd)"
    by (simp add: measureDt_def m)
  have "infos_ok (putInfo p info nd)" using assms(2) ok(1) by (intro infos_put) (simp_all add: infos_ok_def)
  then show "infos_ok (measureDt p f now o' k iq dq nd)" unfolding e by (simp add: infos_same [of "onFace _ _ _" "putInfo p info nd"])
  have "controlOf (putInfo p info nd) g = controlOf nd g" "faceOf (putInfo p info nd) g = faceOf nd g" for g
    by (simp_all add: controlOf_def faceOf_def putInfo_def)
  moreover have "demandVec n (fs_control (maybeInitDtControlPeriodFromRtt o' now face)) = demandVec n (fs_control (faceOf nd f))" for n
    by (rule demandVec_same) (simp add: maybeInit_demand ok(3))
  ultimately show "calm cf nd (measureDt p f now o' k iq dq nd)" unfolding e by (simp add: calm_def controlOf_def)
  show "keeps (getPathDiscoveryInfo nd q) (getPathDiscoveryInfo (measureDt p f now o' k iq dq nd) q)" for q
    using ok(2) unfolding e by (simp add: getPathDiscoveryInfo_def putInfo_def)
qed

lemma transmissionData_step:
  assumes "thread_inv cf nd s" "infos_ok nd"
  shows "step_ok cf (s, nd) (s, fst (handleTransmissionData cf faces now packet pe inFace (nd, t)))"
  using measure_step [OF assms] discovers_step [OF assms discovers_put [OF assms(2)]] quiet_step [OF assms quiet_refl]
  by (simp add: handleTransmissionData_def Let_def split: option.split)

lemma transmissionNack_step:
  assumes "thread_inv cf nd s" "infos_ok nd"
  shows "step_ok cf (s, nd) (s, fst (handleTransmissionNack cf faces packet pe inFace reason (nd, t)))"
proof (rule discovers_step [OF assms])
  show "discovers cf nd (fst (handleTransmissionNack cf faces packet pe inFace reason (nd, t)))"
    using assms(2) by (auto simp: handleTransmissionNack_def Let_def infos_ok_def keeps_def intro!: discoversI)
qed

lemma assign_step:
  assumes inv: "thread_inv cf nd s" "infos_ok nd" and ready: "fs \<noteq> []" "0 \<notin> set fs"
    and a: "assignDtInterest cf now packet pe inFace p fs (s, nd) = (s', nd')"
  shows "step_ok cf (s, nd) (s', nd')"
proof -
  obtain s1 g where g: "selectDtAssignedFaceWRR (dtCurrentFaceWeight nd) p fs s = (s1, g)" by fastforce
  obtain x where s1: "s1 = s\<lparr>mp_assignByPrefix := x\<rparr>" and g0: "g \<noteq> 0" using select_member [OF ready g] by blast
  have t1: "queue_ok cf s1 nd" "candidates_ok s1" using inv(1) by (simp_all add: s1 thread_inv_def candidates_ok_def)
  define item where "item = \<lparr>iq_Packet = packet, iq_PitEntry = pe, iq_InFace = inFace, iq_OwnerThreadID = mp_threadID s1,
      iq_CandidateFaces = fs, iq_AssignedFace = g, iq_EnqueueTime = now\<rparr>"
  obtain k m where e: "enqueueLocalDtInterest cf p item (s1, nd) = (s', nd', k, m)"
    using a g g0 by (auto simp: assignDtInterest_def item_def Let_def split: prod.splits)
  have q: "queue_ok cf s' nd'" "queued s' = add_mset item (queued s1)"
    using enqueue_ok [OF t1(1) _ _ e] g0 by (simp_all add: item_def)
  have gm: "gm_ok (mp_queuesByPrefix s')" "gm_ok (mp_queuesByPrefix s1)" using q(1) t1(1) by (auto simp: queue_ok_def index_ok_tables)
  have "candidates_ok s'" unfolding candidates_ok_def
  proof (intro allI ballI)
    fix r i assume "i \<in> set (queueOf s' r)"
    then have "i \<in># queued s'" using queueOf_queued [OF gm(1)] by blast
    then consider "i = item" | "i \<in># queued s1" by (auto simp: q(2))
    then show "0 \<notin> set (iq_CandidateFaces i)"
      using ready(2) t1(2) queueOf_queued [OF gm(2), of i] by cases (auto simp: item_def candidates_ok_def)
  qed
  then show ?thesis using own_step [OF inv own_trans [OF own_select [OF g] own_enqueue [OF e]] q(1)] by blast
qed

lemma bootstrap_info:
  "pd_wf (fst (selectDtBootstrapFaceRRLocked info fs)) = pd_wf info" "pd_wf (fst (shouldProbeDtUnreadyFaceLocked info)) = pd_wf info"
  by (simp_all add: selectDtBootstrapFaceRRLocked_def shouldProbeDtUnreadyFaceLocked_def Let_def)

lemma forwardDt_step:
  assumes inv: "thread_inv cf nd s" "infos_ok nd" and fs: "0 \<notin> set fs"
    and f: "forwardDtInterest cf faces now packet pe inFace p fs (s, nd, t) = (s', nd', t')"
  shows "step_ok cf (s, nd) (s', nd')"
proof -
  define info where "info = getPathDiscoveryInfo nd p"
  have w: "pd_wf info" using inv(2) by (simp add: infos_ok_def info_def)
  define nd1 where "nd1 = ensureDtControlActivated fs now nd"
  have q1: "quiet cf nd nd1" unfolding nd1_def by (rule quiet_activated)
  have put: "step_ok cf (s, nd) (s, putInfo p i nd1)" if "pd_wf i" "keeps info i" for i
    using discovers_step [OF inv discoversI [OF q1 that(1)]] that(2) by (simp add: info_def)
  obtain ready unready where sp: "splitDtShapingReadyFaces nd1 fs = (ready, unready)" by fastforce
  have r: "0 \<notin> set ready" using sp fs by (auto simp: splitDtShapingReadyFaces_def Let_def)
  obtain i1 probe where pr: "(if unready \<noteq> [] then shouldProbeDtUnreadyFaceLocked info else (info, False)) = (i1, probe)" by fastforce
  have w1: "pd_wf i1" using pr w bootstrap_info(2) [of info] by (auto split: if_splits)
  obtain ib fb where sb: "selectDtBootstrapFaceRRLocked info fs = (ib, fb)" by fastforce
  obtain ic fc where sc: "selectDtBootstrapFaceRRLocked i1 unready = (ic, fc)" by fastforce
  have k1: "keeps info i1" using pr by (auto simp: shouldProbeDtUnreadyFaceLocked_def keeps_def Let_def split: if_splits)
  have kb: "keeps info ib" "keeps info ic" using sb sc k1 by (auto simp: selectDtBootstrapFaceRRLocked_def keeps_def Let_def split: if_splits)
  have wb: "pd_wf ib" "pd_wf ic" using sb sc w w1 bootstrap_info(1) [of info fs] bootstrap_info(1) [of i1 unready] by auto
  obtain s2 nd2 where as: "assignDtInterest cf now packet pe inFace p ready (s, putInfo p i1 nd1) = (s2, nd2)" by fastforce
  have "step_ok cf (s, nd) (s2, nd2)" if "ready \<noteq> []"
    using step_trans [OF put [OF w1 k1]] assign_step [OF _ _ that r as] put [OF w1 k1] by (auto simp: step_ok_def [of cf "(s, nd)"])
  moreover have "(s', nd') = (if \<not> dtRateControlled info then (s, putInfo p info nd) else if ready = [] then (s, putInfo p ib nd1)
      else if probe then (s, putInfo p ic nd1) else (s2, nd2))"
    using f unfolding forwardDtInterest_def Let_def prod.case info_def [symmetric] nd1_def [symmetric] sp pr sb sc as by (auto split: if_splits)
  ultimately show ?thesis
    using put [OF wb(1) kb(1)] put [OF wb(2) kb(2)] discovers_step [OF inv discovers_put [OF inv(2)]] by (auto simp: info_def split: if_splits)
qed

lemma transmissionInterest_step:
  assumes inv: "thread_inv cf nd s" "infos_ok nd" and nh: "0 \<notin> nh_Nexthop ` set nexthops"
    and h: "handleDataTransmissionInterest cf faces now packet pe inFace nexthops (s, nd, t) = (s', nd', t')"
  shows "step_ok cf (s, nd) (s', nd')"
proof -
  obtain s1 nd1 sn where y: "syncDtFailureState cf now (s, nd) = ((s1, nd1), sn)" by (metis surj_pair)
  note a = sync_step [OF inv y]
  have t1: "thread_inv cf nd1 s1" "infos_ok nd1" using a by (simp_all add: step_ok_def)
  define p where "p = prefixKeyOf cf (ip_Name packet)"
  define fs where "fs = dtFacesFor (getPathDiscoveryInfo nd1 p) sn (sort (map nh_Nexthop nexthops))"
  have "0 \<notin> set (pi_DtValidFaces (getPathDiscoveryInfo nd1 p))" using t1(2) by (simp add: infos_ok_def wf_valid)
  then have fs: "0 \<notin> set fs" using nh by (auto simp: fs_def dtFacesFor_def dtFilterFacesWithoutFailure_def Let_def split: if_splits)
  have "step_ok cf (s1, nd1) (s', nd')"
  proof (cases "nexthops = [] \<or> fs = []")
    case True
    then have "s' = s1 \<and> (nd' = nd1 \<or> nd' = putInfo p (getPathDiscoveryInfo nd1 p) nd1)"
      using h y by (auto simp: handleDataTransmissionInterest_def Let_def p_def fs_def split: if_splits)
    then show ?thesis using quiet_step [OF t1 quiet_refl] discovers_step [OF t1 discovers_put [OF t1(2)]] by auto
  next
    case False
    then have "forwardDtInterest cf faces now packet pe inFace p fs (s1, nd1, t) = (s', nd', t')"
      using h y by (simp add: handleDataTransmissionInterest_def Let_def p_def fs_def)
    from forwardDt_step [OF t1 fs this] show ?thesis .
  qed
  with a show ?thesis by (rule step_trans)
qed

end
