(* ===== verification/Mp_System.thy ===== *)
theory Mp_System
  imports Mp_Steps
begin

text \<open>
  The multipath strategy of a whole forwarder: the forwarding threads share the node, each has its own
  queues, and Interests, Data, Nacks and ticks reach the threads in any order.
\<close>

record mpContext =
  ev_thread :: nat
  ev_now :: gotime
  ev_faces :: FaceDispatch

datatype mpBody =
    ReceiveInterest InterestPkt nat faceId "FibNextHopEntry list"
  | ReceiveData DataPkt nat faceId
  | ReceiveNack InterestPkt nat faceId u64
  | LoopedInterest InterestPkt nat faceId
  | ContentStoreHit DataPkt nat faceId
  | Tick "faceId \<Rightarrow> gotime \<times> gotime"

type_synonym mpSystem = "mpNode \<times> (Multipath \<times> fwThread) list"

fun handleBody :: "fwConfig \<Rightarrow> mpContext \<Rightarrow> mpBody \<Rightarrow> mpState \<Rightarrow> mpState" where
  "handleBody cf e (ReceiveInterest packet pe inFace nexthops) = AfterReceiveInterest cf (ev_faces e) (ev_now e) packet pe inFace nexthops"
| "handleBody cf e (ReceiveData packet pe inFace) = AfterReceiveData cf (ev_faces e) (ev_now e) packet pe inFace"
| "handleBody cf e (ReceiveNack packet pe inFace reason) = AfterReceiveNack cf (ev_faces e) (ev_now e) packet pe inFace reason"
| "handleBody cf e (LoopedInterest packet pe inFace) = AfterReceiveLoopedInterest cf (ev_faces e) packet pe inFace"
| "handleBody cf e (ContentStoreHit packet pe inFace) = AfterContentStoreHit (ev_faces e) packet pe inFace"
| "handleBody cf e (Tick clock) = OnTick cf (ev_faces e) (ev_now e) clock"

definition mpStep :: "fwConfig \<Rightarrow> mpSystem \<Rightarrow> mpContext \<times> mpBody \<Rightarrow> mpSystem" where
  "mpStep cf sys ev =
    (let (nd, threads) = sys; (e, b) = ev; (s, t) = threads ! ev_thread e;
         (s1, nd1, t1) = handleBody cf e b (s, nd, t)
     in (nd1, threads[ev_thread e := (s1, t1)]))"

text \<open>The next hops of an Interest come from the FIB, which holds a face once and no face 0.\<close>

definition mpEnabled :: "mpSystem \<Rightarrow> mpContext \<times> mpBody \<Rightarrow> bool" where
  "mpEnabled sys ev \<longleftrightarrow> ev_thread (fst ev) < length (snd sys)
     \<and> (case snd ev of
          ReceiveInterest _ _ _ nexthops \<Rightarrow> distinct (map nh_Nexthop nexthops) \<and> 0 \<notin> nh_Nexthop ` set nexthops
        | _ \<Rightarrow> True)"

definition mpInitial :: "fwConfig \<Rightarrow> mpSystem" where
  "mpInitial cf = (newNode, map (\<lambda>i. (multipathInstantiate (int i), newFwThread (int i))) [0..<threadSlots (cf_numThreads cf)])"

subsection \<open>The whole node\<close>

lemma body_step:
  assumes inv: "thread_inv cf nd s" "infos_ok nd"
    and nh: "case b of ReceiveInterest _ _ _ nexthops \<Rightarrow> distinct (map nh_Nexthop nexthops) \<and> 0 \<notin> nh_Nexthop ` set nexthops | _ \<Rightarrow> True"
    and h: "handleBody cf e b (s, nd, t) = (s', nd', t')"
  shows "step_ok cf (s, nd) (s', nd')"
proof -
  have wf: "\<And>p. pd_wf (getPathDiscoveryInfo nd p)" using inv(2) by (simp add: infos_ok_def)
  note same = quiet_step [OF inv quiet_refl]
  show ?thesis
  proof (cases b)
    case (ReceiveInterest packet pe inFace nexthops)
    note nh' = nh [unfolded ReceiveInterest mpBody.case]
    from transmissionInterest_step [OF inv] discovers_step [OF inv interest_discovers [OF wf]] nh' h same show ?thesis
      by (auto simp: ReceiveInterest AfterReceiveInterest_def Let_def split: if_splits) (metis fst_conv)
  next
    case (ReceiveData packet pe inFace)
    with transmissionData_step [OF inv] discovers_step [OF inv data_discovers [OF wf]] h same show ?thesis
      by (auto simp: AfterReceiveData_def Let_def split: if_splits) (metis fst_conv)+
  next
    case (ReceiveNack packet pe inFace reason)
    with transmissionNack_step [OF inv] discovers_step [OF inv nack_discovers [OF wf]] h same show ?thesis
      by (auto simp: AfterReceiveNack_def Let_def split: if_splits) (metis fst_conv)+
  qed (use h same tick_step [OF inv] in \<open>auto simp: AfterReceiveLoopedInterest_def AfterContentStoreHit_def Let_def split: if_splits\<close>)
qed

definition sys_ok :: "fwConfig \<Rightarrow> mpSystem \<Rightarrow> bool" where
  "sys_ok cf sys \<longleftrightarrow> infos_ok (fst sys)
     \<and> (\<forall>i < length (snd sys). mp_threadID (fst (snd sys ! i)) = int i \<and> thread_inv cf (fst sys) (fst (snd sys ! i)))"

lemma sys_initial: "sys_ok cf (mpInitial cf)"
proof -
  have "infos_ok newNode" by (simp add: infos_ok_def getPathDiscoveryInfo_def newNode_def pd_wf_new)
  moreover have "thread_inv cf newNode (multipathInstantiate (int i))" if "i < threadSlots (cf_numThreads cf)" for i
    using queue_ok_initial [of "int i" cf] that
    by (simp add: thread_inv_def candidates_ok_def) (simp add: queueOf_def multipathInstantiate_def)
  ultimately show ?thesis by (simp add: sys_ok_def mpInitial_def) (simp add: multipathInstantiate_def)
qed

lemma sys_step:
  assumes ok: "sys_ok cf (nd, ths)" and en: "mpEnabled (nd, ths) (e, b)"
  shows "sys_ok cf (mpStep cf (nd, ths) (e, b)) \<and> (\<forall>p. keeps (getPathDiscoveryInfo nd p) (getPathDiscoveryInfo (fst (mpStep cf (nd, ths) (e, b))) p))"
proof -
  define i where "i = ev_thread e"
  obtain s t where st: "ths ! i = (s, t)" by fastforce
  obtain s' nd' t' where h: "handleBody cf e b (s, nd, t) = (s', nd', t')" by (metis prod_cases3)
  have i: "i < length ths" and nh: "case b of ReceiveInterest _ _ _ nexthops \<Rightarrow> distinct (map nh_Nexthop nexthops) \<and> 0 \<notin> nh_Nexthop ` set nexthops | _ \<Rightarrow> True"
    using en by (simp_all add: mpEnabled_def i_def)
  have inv: "thread_inv cf nd s" "infos_ok nd" "mp_threadID s = int i" using ok i st by (auto simp: sys_ok_def)
  note step = body_step [OF inv(1,2) nh h]
  have res: "mpStep cf (nd, ths) (e, b) = (nd', ths[i := (s', t')])" using st h by (simp add: mpStep_def i_def)
  have "thread_inv cf nd' (fst (ths ! j))" if j: "j < length ths" "j \<noteq> i" for j
  proof -
    let ?s = "fst (ths ! j)"
    have tj: "thread_inv cf nd ?s" "mp_threadID ?s = int j" using ok j by (auto simp: sys_ok_def)
    then have "demandOf cf ?s nd' f = demandOf cf ?s nd f" for f
      using step j inv(3) by (auto simp: step_ok_def spares_def demandOf_def thread_inv_def queue_ok_def slot_ok_def)
    then show ?thesis using tj(1) by (simp add: thread_inv_def queue_ok_def)
  qed
  then have "sys_ok cf (nd', ths[i := (s', t')])"
    using step ok i inv(3) by (auto simp: sys_ok_def step_ok_def nth_list_update)
  then show ?thesis using step res by (simp add: step_ok_def)
qed

interpretation multipath: guarded_system "\<lambda>sys. sys = mpInitial cf" mpEnabled "mpStep cf" "sys_ok cf" for cf
proof unfold_locales
  show "sys = mpInitial cf \<Longrightarrow> sys_ok cf sys" for sys by (simp add: sys_initial)
  show "sys_ok cf sys \<Longrightarrow> mpEnabled sys ev \<Longrightarrow> sys_ok cf (mpStep cf sys ev)" for sys ev
    using sys_step [of cf "fst sys" "snd sys" "fst ev" "snd ev"] by simp
qed

text \<open>
  A consumer node with one thread.  A discovery Interest of its consumer for the prefix \<open>p\<close>, whose only
  next hop is face 7, is answered on that face by Data that reports a converged tier; then a data
  transmission Interest and a tick.
\<close>

definition demoNode :: fwConfig where
  "demoNode = demoFwConfig\<lparr>cf_nodeName := [newStringComponent TypeGenericNameComponent ''con0'']\<rparr>"

definition demoPath :: "string list \<Rightarrow> name" where
  "demoPath = map (newStringComponent TypeGenericNameComponent)"

definition demoContext :: mpContext where
  "demoContext = \<lparr>ev_thread = 0, ev_now = 9, ev_faces = []\<rparr>"

definition demoProbe :: "mpContext \<times> mpBody" where
  "demoProbe = (demoContext, ReceiveInterest (demoInterest\<lparr>ip_Name := demoPath [''p'', ''con0'', ''pd'', ''0'', ''s'']\<rparr>) 0 2
     [\<lparr>nh_Nexthop = 7, nh_Cost = 10\<rparr>])"

definition demoAnswer :: "mpContext \<times> mpBody" where
  "demoAnswer = (demoContext, ReceiveData \<lparr>dk_Name = demoPath [''p'', ''con0'', ''pd'', ''0'', ''s''],
     dk_Data = \<lparr>fd_NameV = [], fd_FreshnessPeriod = None\<rparr>, dk_Raw = Some (BytesContent [CHR 0x01, CHR 0x00]), dk_PitToken = [], dk_IncomingFaceID = 7\<rparr> 0 7)"

definition demoRequest :: "mpContext \<times> mpBody" where
  "demoRequest = (demoContext, ReceiveInterest (demoInterest\<lparr>ip_Name := demoPath [''q'', ''con0'', ''dt'', ''s'']\<rparr>) 0 2
     [\<lparr>nh_Nexthop = 7, nh_Cost = 10\<rparr>, \<lparr>nh_Nexthop = 8, nh_Cost = 12\<rparr>])"

definition demoTick :: "mpContext \<times> mpBody" where
  "demoTick = (demoContext, Tick (\<lambda>_. (9, 9)))"

lemmas demo_events = demoProbe_def demoAnswer_def demoRequest_def demoTick_def demoContext_def

lemma mpStep_length [simp]: "length (snd (mpStep cf sys ev)) = length (snd sys)"
  by (simp add: mpStep_def case_prod_beta Let_def)

lemma mpInitial_demo [simp]: "length (snd (mpInitial demoNode)) = 1"
  by (simp add: mpInitial_def demoNode_def demoFwConfig_def threadSlots_def)

lemma demoNode_enabled:
  "enabled_run mpEnabled (mpStep demoNode) (mpInitial demoNode) [demoProbe, demoAnswer, demoRequest, demoTick]"
  "enabled_run mpEnabled (mpStep demoNode) (mpInitial demoNode) ([demoProbe, demoAnswer] @ [demoRequest, demoTick])"
  by (simp_all add: mpEnabled_def demo_events)

text \<open>
  (C3) Whatever Interests, Data, Nacks and ticks reach the forwarding threads, in whatever order: in
  every thread each queued Interest is owned by the thread, is assigned to a face and sits in a queue
  that the scheduler visits for that face, and for every face the demand that the thread has recorded
  in the shared node, which the budgets are allocated by, is the number of Interests it has queued for that face.
\<close>

theorem demand_matches_queues:
  assumes "enabled_run mpEnabled (mpStep cf) (mpInitial cf) es" "run (mpStep cf) (mpInitial cf) es = (nd, threads)" "i < length threads"
  shows "queue_ok cf (fst (threads ! i)) nd"
  using multipath.run_inv [OF refl assms(1)] assms(2,3) by (auto simp: sys_ok_def thread_inv_def)

theorem demand_matches_queues_witness:
  "queue_ok demoNode (fst (snd (run (mpStep demoNode) (mpInitial demoNode) [demoProbe, demoAnswer, demoRequest, demoTick]) ! 0))
     (fst (run (mpStep demoNode) (mpInitial demoNode) [demoProbe, demoAnswer, demoRequest, demoTick]))"
proof -
  let ?final = "run (mpStep demoNode) (mpInitial demoNode) [demoProbe, demoAnswer, demoRequest, demoTick]"
  have "0 < length (snd ?final)" by simp
  from demand_matches_queues [OF demoNode_enabled(1) prod.collapse [symmetric] this] show ?thesis .
qed

text \<open>
  (C4) The discovery state of every prefix is well-formed after any run of events: tiers and costs have
  the same length, the costs increase and each hop of a tier has its cost; the valid upstreams are
  exactly the faces on the wait list, each once and none of them 0; no face is probed twice; before
  convergence the wait list is aligned with the tiers and the current tier exists (or is 0, without any tier); after convergence
  rate control is on exactly for more than one face, and the faces for data transmission, unless there
  are none, are those of the tiers and include every upstream that is still valid.
\<close>

theorem discovery_state_well_formed:
  assumes "enabled_run mpEnabled (mpStep cf) (mpInitial cf) es"
  shows "pd_wf (getPathDiscoveryInfo (fst (run (mpStep cf) (mpInitial cf) es)) prefix)"
  using multipath.run_inv [OF refl assms] by (simp add: sys_ok_def infos_ok_def)

theorem discovery_state_well_formed_witness:
  "pd_wf (getPathDiscoveryInfo (fst (run (mpStep demoNode) (mpInitial demoNode) [demoProbe, demoAnswer, demoRequest, demoTick])) ''p'')"
  by (rule discovery_state_well_formed [OF demoNode_enabled(1)])

lemma run_keeps_result:
  "sys_ok cf sys \<Longrightarrow> enabled_run mpEnabled (mpStep cf) sys es \<Longrightarrow>
    keeps (getPathDiscoveryInfo (fst sys) p) (getPathDiscoveryInfo (fst (run (mpStep cf) sys es)) p)"
proof (induction es arbitrary: sys)
  case (Cons ev es)
  obtain nd ths e b where s: "sys = (nd, ths)" "ev = (e, b)" by fastforce
  have st: "sys_ok cf (mpStep cf sys ev)" "keeps (getPathDiscoveryInfo (fst sys) p) (getPathDiscoveryInfo (fst (mpStep cf sys ev)) p)"
    using sys_step [of cf nd ths e b] Cons.prems by (auto simp: s)
  from keeps_trans [OF st(2) Cons.IH [OF st(1)]] Cons.prems(2) show ?case by simp
qed simp

text \<open>
  (C11) Once path discovery of a prefix has converged its result is final: after any further events it
  is still converged, with the same faces for data transmission and the same choice of rate control.
\<close>

theorem discovery_result_final:
  assumes "enabled_run mpEnabled (mpStep cf) (mpInitial cf) (es @ later)"
    and "info = getPathDiscoveryInfo (fst (run (mpStep cf) (mpInitial cf) es)) prefix" "pi_IsNodeConverged info"
    and "info' = getPathDiscoveryInfo (fst (run (mpStep cf) (mpInitial cf) (es @ later))) prefix"
  shows "pi_IsNodeConverged info' \<and> pi_DtValidFaces info' = pi_DtValidFaces info
    \<and> pi_DtFaceRateControlEnabled info' = pi_DtFaceRateControlEnabled info"
proof -
  from assms(1) have r: "enabled_run mpEnabled (mpStep cf) (mpInitial cf) es"
    "enabled_run mpEnabled (mpStep cf) (run (mpStep cf) (mpInitial cf) es) later" by (simp_all add: enabled_run_append)
  from run_keeps_result [OF multipath.run_inv [OF refl r(1)] r(2), of prefix] show ?thesis
    using assms(2-4) by (simp add: keeps_def run_append)
qed

definition demoConverged :: mpNode where
  "demoConverged = (case (demoProbe, demoAnswer) of
     ((_, ReceiveInterest packet pe inFace hops), (_, ReceiveData answer ae aFace)) \<Rightarrow>
        fst (handlePathDiscoveryData demoNode [] 9 answer ae aFace
              (handlePathDiscoveryInterest demoNode [] 9 packet pe inFace hops (newNode, newFwThread 0)))
   | _ \<Rightarrow> newNode)"

lemma demoNode_run: "fst (run (mpStep demoNode) (mpInitial demoNode) [demoProbe, demoAnswer]) = demoConverged"
proof -
  have t: "packetType demoNode (demoPath [''p'', ''con0'', ''pd'', ''0'', ''s'']) = ''pd''" by code_simp
  have i: "mpInitial demoNode = (newNode, [(multipathInstantiate 0, newFwThread 0)])"
    by (simp add: mpInitial_def demoNode_def demoFwConfig_def threadSlots_def)
  show ?thesis
    by (simp add: i mpStep_def demoConverged_def demo_events AfterReceiveInterest_def AfterReceiveData_def t case_prod_beta Let_def)
qed

lemma demo_converged:
  "pi_IsNodeConverged (getPathDiscoveryInfo demoConverged ''p'')" "pi_DtValidFaces (getPathDiscoveryInfo demoConverged ''p'') = [7]"
  by code_simp+

theorem discovery_result_final_witness:
  "pi_DtValidFaces (getPathDiscoveryInfo
     (fst (run (mpStep demoNode) (mpInitial demoNode) ([demoProbe, demoAnswer] @ [demoRequest, demoTick]))) ''p'') = [7]"
  using discovery_result_final [OF demoNode_enabled(2) refl _ refl, of "''p''"] demo_converged unfolding demoNode_run by simp

end
