(* ===== verification/Fw_Strategies.thy ===== *)
theory Fw_Strategies
  imports Fw_Types
begin

text \<open>
  The best-route and multicast strategies (\<open>fw/fw/bestroute.go\<close>, \<open>fw/fw/multicast.go\<close>).  Neither has
  state of its own; the logging of every 200th packet is left out.
\<close>

subsection \<open>Best route\<close>

datatype BestRouteInterestForwardingMode = BestRouteInterestForwardingStandard | BestRouteInterestForwardingStrictLeastCost

definition BestRouteInterestForwardingType :: BestRouteInterestForwardingMode where
  "BestRouteInterestForwardingType = BestRouteInterestForwardingStrictLeastCost"

text \<open>By cost, and by face among equal costs: two stable sorts.\<close>

definition sortNexthopsByCost :: "FibNextHopEntry list \<Rightarrow> FibNextHopEntry list" where
  "sortNexthopsByCost nexthops = sort_key nh_Cost (sort_key nh_Nexthop nexthops)"

text \<open>The loop over the next hops in one pass; the flag says that an Interest was sent.\<close>

fun standardPass ::
  "FaceDispatch \<Rightarrow> gotime \<Rightarrow> InterestPkt \<Rightarrow> nat \<Rightarrow> faceId \<Rightarrow> bool \<Rightarrow> FibNextHopEntry list \<Rightarrow> fwThread \<Rightarrow> fwThread \<times> bool" where
  "standardPass faces now packet pe inFace first [] t = (t, False)"
| "standardPass faces now packet pe inFace first (nh # hops) t =
    (if first \<and> map_of (pe_outRecords (pitEntryOf t pe)) (nh_Nexthop nh) \<noteq> None
     then standardPass faces now packet pe inFace first hops t
     else
       let (t1, sent) = SendInterest faces now packet pe (nh_Nexthop nh) inFace t
       in if sent then (t1, True) else standardPass faces now packet pe inFace first hops t1)"

definition forwardInterestStandard ::
  "FaceDispatch \<Rightarrow> gotime \<Rightarrow> InterestPkt \<Rightarrow> nat \<Rightarrow> faceId \<Rightarrow> FibNextHopEntry list \<Rightarrow> fwThread \<Rightarrow> fwThread" where
  "forwardInterestStandard faces now packet pe inFace nexthops t =
    (let (t1, sent) = standardPass faces now packet pe inFace True nexthops t
     in if sent then t1 else fst (standardPass faces now packet pe inFace False nexthops t1))"

definition forwardInterestStrictLeastCost ::
  "FaceDispatch \<Rightarrow> gotime \<Rightarrow> InterestPkt \<Rightarrow> nat \<Rightarrow> faceId \<Rightarrow> FibNextHopEntry list \<Rightarrow> fwThread \<Rightarrow> fwThread" where
  "forwardInterestStrictLeastCost faces now packet pe inFace nexthops t =
    fst (SendInterest faces now packet pe (nh_Nexthop (nexthops ! 0)) inFace t)"

definition bestRouteAfterReceiveInterest ::
  "BestRouteInterestForwardingMode \<Rightarrow> FaceDispatch \<Rightarrow> gotime \<Rightarrow> InterestPkt \<Rightarrow> nat \<Rightarrow> faceId \<Rightarrow> FibNextHopEntry list \<Rightarrow> fwThread \<Rightarrow> fwThread" where
  "bestRouteAfterReceiveInterest mode faces now packet pe inFace nexthops t =
    (if nexthops = [] then t
     else
       let sorted = sortNexthopsByCost nexthops
       in case mode of
            BestRouteInterestForwardingStrictLeastCost \<Rightarrow> forwardInterestStrictLeastCost faces now packet pe inFace sorted t
          | BestRouteInterestForwardingStandard \<Rightarrow> forwardInterestStandard faces now packet pe inFace sorted t)"

definition bestRouteAfterContentStoreHit :: "FaceDispatch \<Rightarrow> DataPkt \<Rightarrow> nat \<Rightarrow> faceId \<Rightarrow> fwThread \<Rightarrow> fwThread" where
  "bestRouteAfterContentStoreHit faces packet pe inFace t = SendData faces packet pe inFace 0 t"

definition bestRouteAfterReceiveData :: "FaceDispatch \<Rightarrow> DataPkt \<Rightarrow> nat \<Rightarrow> faceId \<Rightarrow> fwThread \<Rightarrow> fwThread" where
  "bestRouteAfterReceiveData faces packet pe inFace t = sendDataToAll faces packet pe inFace t"

definition bestRouteAfterReceiveNack :: "FaceDispatch \<Rightarrow> InterestPkt \<Rightarrow> nat \<Rightarrow> faceId \<Rightarrow> u64 \<Rightarrow> fwThread \<Rightarrow> fwThread" where
  "bestRouteAfterReceiveNack faces packet pe inFace reason t = sendNackToAll faces packet pe inFace reason t"

subsection \<open>Multicast\<close>

definition MulticastSuppressionTime :: duration where "MulticastSuppressionTime = 500 * millisecond"

definition multicastAfterReceiveInterest ::
  "FaceDispatch \<Rightarrow> gotime \<Rightarrow> InterestPkt \<Rightarrow> nat \<Rightarrow> faceId \<Rightarrow> FibNextHopEntry list \<Rightarrow> fwThread \<Rightarrow> fwThread" where
  "multicastAfterReceiveInterest faces now packet pe inFace nexthops t =
    (if nexthops = [] then t
     else if list_ex (\<lambda>(_, r). or_LatestNonce r \<noteq> interestNonce (ip_Interest packet) \<and> or_LatestTimestamp r + MulticastSuppressionTime > now)
               (pe_outRecords (pitEntryOf t pe)) then t
     else foldl (\<lambda>t nh. fst (SendInterest faces now packet pe (nh_Nexthop nh) inFace t)) t nexthops)"

definition multicastAfterContentStoreHit :: "FaceDispatch \<Rightarrow> DataPkt \<Rightarrow> nat \<Rightarrow> faceId \<Rightarrow> fwThread \<Rightarrow> fwThread" where
  "multicastAfterContentStoreHit faces packet pe inFace t = SendData faces packet pe inFace 0 t"

definition multicastAfterReceiveData :: "FaceDispatch \<Rightarrow> DataPkt \<Rightarrow> nat \<Rightarrow> faceId \<Rightarrow> fwThread \<Rightarrow> fwThread" where
  "multicastAfterReceiveData faces packet pe inFace t = sendDataToAll faces packet pe inFace t"

definition multicastAfterReceiveNack :: "FaceDispatch \<Rightarrow> InterestPkt \<Rightarrow> nat \<Rightarrow> faceId \<Rightarrow> u64 \<Rightarrow> fwThread \<Rightarrow> fwThread" where
  "multicastAfterReceiveNack faces packet pe inFace reason t = sendNackToAll faces packet pe inFace reason t"

subsection \<open>Data for every pending downstream\<close>

text \<open>What an in-record receives.\<close>

definition delivery :: "FaceDispatch \<Rightarrow> DataPkt \<Rightarrow> faceId \<Rightarrow> faceId \<times> PitInRecord \<Rightarrow> OutPkt list" where
  "delivery faces packet inFace = (\<lambda>(f, r). if dataAllowed faces (dk_Name packet) f
     then [\<lparr>op_Face = f, op_Pkt = OutData packet, op_PitToken = ir_PitToken r, op_InFace = inFace\<rparr>] else [])"

lemma gm_del_head: "gm_ok ((k, v) # m) \<Longrightarrow> gm_del k ((k, v) # m) = m"
  by (auto simp: gm_del_def gm_ok_def filter_id_conv)

lemma foldl_SendData:
  assumes "gm_ok recs" "pe_inRecords (pitEntryOf t pe) = recs"
  shows "ft_out (foldl (\<lambda>t f. SendData faces packet pe f inFace t) t (map fst recs)) = ft_out t @ concat (map (delivery faces packet inFace) recs)
    \<and> pe_inRecords (pitEntryOf (foldl (\<lambda>t f. SendData faces packet pe f inFace t) t (map fst recs)) pe) = []"
  using assms
proof (induction recs arbitrary: t)
  case (Cons rec recs)
  obtain f r where rec: "rec = (f, r)" by fastforce
  let ?t = "SendData faces packet pe f inFace t"
  have m: "map_of (pe_inRecords (pitEntryOf t pe)) f = Some r" using Cons.prems(2) rec by simp
  have "pe_inRecords (pitEntryOf ?t pe) = recs"
    using SendData_effect(2) [OF m, of faces packet inFace] Cons.prems gm_del_head [of f r recs] by (simp add: RemoveInRecord_def rec)
  moreover have "gm_ok recs" using Cons.prems(1) by (simp add: gm_ok_def)
  ultimately show ?case using Cons.IH [of ?t] SendData_effect(1) [OF m, of faces packet inFace] by (simp add: rec delivery_def)
qed simp

text \<open>
  (C40) A strategy that forwards a Data packet as it is sends it to the downstream of every in-record of the PIT
  entry, once and with the PIT token that downstream gave, except to faces that no longer exist and,
  for names under /localhost, non-local ones; nothing else is sent, and no in-record is left.
\<close>

theorem data_reaches_every_downstream:
  assumes "gm_ok (pe_inRecords (pitEntryOf t pe))"
  shows "ft_out (sendDataToAll faces packet pe inFace t) = ft_out t @ concat (map (delivery faces packet inFace) (pe_inRecords (pitEntryOf t pe)))
    \<and> pe_inRecords (pitEntryOf (sendDataToAll faces packet pe inFace t) pe) = []"
  using foldl_SendData [OF assms refl] by (simp add: sendDataToAll_def inFaces_def)

text \<open>A local face 2 and a missing face 3 wait for the Data.\<close>

definition demoPending :: fwThread where
  "demoPending = (newFwThread 0)\<lparr>ft_entries := [(0, emptyPitEntry\<lparr>pe_inRecords :=
     [(2, \<lparr>ir_Face = 2, ir_LatestTimestamp = 1, ir_LatestNonce = 4, ir_ExpirationTime = 9, ir_PitToken = ''a''\<rparr>),
      (3, \<lparr>ir_Face = 3, ir_LatestTimestamp = 1, ir_LatestNonce = 6, ir_ExpirationTime = 9, ir_PitToken = ''b''\<rparr>)]\<rparr>)]\<rparr>"

definition demoData :: DataPkt where
  "demoData = \<lparr>dk_Name = [], dk_Data = \<lparr>fd_NameV = [], fd_FreshnessPeriod = None\<rparr>, dk_Raw = None, dk_PitToken = [], dk_IncomingFaceID = 7\<rparr>"

definition demoFaces :: FaceDispatch where
  "demoFaces = [(2, \<lparr>ff_Scope = LocalScope, ff_LinkType = PointToPoint, ff_SendQueueSize = 0, ff_LinkSendQueueLen = 0, ff_LinkBacklogPackets = 0\<rparr>)]"

theorem data_reaches_every_downstream_witness:
  "ft_out (sendDataToAll demoFaces demoData 0 7 demoPending) = [\<lparr>op_Face = 2, op_Pkt = OutData demoData, op_PitToken = ''a'', op_InFace = 7\<rparr>]"
proof -
  have p: "pitEntryOf demoPending 0 = emptyPitEntry\<lparr>pe_inRecords :=
     [(2, \<lparr>ir_Face = 2, ir_LatestTimestamp = 1, ir_LatestNonce = 4, ir_ExpirationTime = 9, ir_PitToken = ''a''\<rparr>),
      (3, \<lparr>ir_Face = 3, ir_LatestTimestamp = 1, ir_LatestNonce = 6, ir_ExpirationTime = 9, ir_PitToken = ''b''\<rparr>)]\<rparr>"
    by (simp add: pitEntryOf_def demoPending_def gm_get0_def)
  have "gm_ok (pe_inRecords (pitEntryOf demoPending 0))" by (simp add: p gm_ok_def)
  from data_reaches_every_downstream [OF this, of demoFaces demoData 7] show ?thesis
    by (simp add: p delivery_def dataAllowed_def GetFace_def demoFaces_def) (simp add: demoPending_def newFwThread_def)
qed

subsection \<open>The least-cost next hop\<close>

lemma sorted_first:
  assumes "nexthops \<noteq> []" "nh = sortNexthopsByCost nexthops ! 0"
  shows "nh \<in> set nexthops" "\<forall>h \<in> set nexthops. nh_Cost nh < nh_Cost h \<or> nh_Cost nh = nh_Cost h \<and> nh_Nexthop nh \<le> nh_Nexthop h"
proof -
  define ys where "ys = sort_key nh_Nexthop nexthops"
  define xs where "xs = sort_key nh_Cost ys"
  have xs: "xs \<noteq> []" "set xs = set nexthops" "sorted (map nh_Cost xs)" using assms(1) set_sort [of nh_Cost ys] set_sort [of nh_Nexthop nexthops]
    by (auto simp: xs_def ys_def simp flip: set_empty)
  have nh: "nh = xs ! 0" using assms(2) by (simp add: sortNexthopsByCost_def xs_def ys_def)
  show "nh \<in> set nexthops" using xs by (metis nh length_greater_0_conv nth_mem)
  show "\<forall>h \<in> set nexthops. nh_Cost nh < nh_Cost h \<or> nh_Cost nh = nh_Cost h \<and> nh_Nexthop nh \<le> nh_Nexthop h"
  proof
    fix h assume h: "h \<in> set nexthops"
    obtain z zs where z: "xs = z # zs" using xs(1) by (cases xs) auto
    have c: "nh_Cost nh \<le> nh_Cost h" using xs h by (auto simp: nh z)
    moreover have "nh_Nexthop nh \<le> nh_Nexthop h" if e: "nh_Cost h = nh_Cost nh"
    proof -
      let ?P = "\<lambda>x. nh_Cost x = nh_Cost nh"
      have s: "filter ?P xs = filter ?P ys" unfolding xs_def using sort_key_stable [of nh_Cost "nh_Cost nh" ys] by simp
      have "sorted (map nh_Nexthop (filter ?P ys))" by (rule sorted_filter) (simp add: ys_def)
      moreover have "filter ?P xs = nh # filter ?P zs" using z nh by simp
      moreover have "h \<in> set (filter ?P xs)" using h e xs(2) by simp
      ultimately show ?thesis unfolding s [symmetric] by auto
    qed
    ultimately show "nh_Cost nh < nh_Cost h \<or> nh_Cost nh = nh_Cost h \<and> nh_Nexthop nh \<le> nh_Nexthop h" by force
  qed
qed

text \<open>
  (C39) In its configured mode the best-route strategy hands an Interest to one next hop only, one of
  least cost and, among those, the one with the smallest face; whatever that face answers, no other is tried.
\<close>

theorem best_route_least_cost:
  assumes "nexthops \<noteq> []"
  shows "\<exists>nh \<in> set nexthops. (\<forall>h \<in> set nexthops. nh_Cost nh < nh_Cost h \<or> nh_Cost nh = nh_Cost h \<and> nh_Nexthop nh \<le> nh_Nexthop h)
    \<and> bestRouteAfterReceiveInterest BestRouteInterestForwardingType faces now packet pe inFace nexthops t =
        fst (SendInterest faces now packet pe (nh_Nexthop nh) inFace t)"
  using sorted_first [OF assms refl] assms
  by (intro bexI [of _ "sortNexthopsByCost nexthops ! 0"])
     (simp_all add: bestRouteAfterReceiveInterest_def BestRouteInterestForwardingType_def forwardInterestStrictLeastCost_def)

definition demoHops :: "FibNextHopEntry list" where
  "demoHops = [\<lparr>nh_Nexthop = 5, nh_Cost = 10\<rparr>, \<lparr>nh_Nexthop = 4, nh_Cost = 10\<rparr>, \<lparr>nh_Nexthop = 3, nh_Cost = 12\<rparr>]"

definition demoInterestPkt :: InterestPkt where
  "demoInterestPkt = \<lparr>ip_Name = [], ip_Interest = \<lparr>fi_NameV = [], fi_CanBePrefixV = False, fi_MustBeFreshV = False, fi_ForwardingHintV = [],
     fi_NonceV = Some 5, fi_LifetimeV = None, fi_HopLimitV = None\<rparr>, ip_PitToken = [], ip_IncomingFaceID = 2,
     ip_NextHopFaceID = None, ip_NackReason = None\<rparr>"

theorem best_route_least_cost_witness:
  "bestRouteAfterReceiveInterest BestRouteInterestForwardingType demoFaces 9 demoInterestPkt 0 2 demoHops demoPending =
     fst (SendInterest demoFaces 9 demoInterestPkt 0 4 2 demoPending)"
  using best_route_least_cost [of demoHops demoFaces 9 demoInterestPkt 0 2 demoPending] by (auto simp: demoHops_def)

end
