(* ===== verification/Spec2Isabelle.thy ===== *)
theory Spec2Isabelle
  imports Consumer_System Mp_System Fw_Strategies
begin

text \<open>
  \<^bold>\<open>MARS, verified: the consumer, the multipath forwarder and what they share.\<close>

  MARS is a multipath transport for named-data networking in Go.  A \<^emph>\<open>consumer\<close>
  (\<open>src/mars/std/examples/mars/apps/consumer\<close>) runs flows.  A flow first discovers paths: it sends
  discovery Interests until the nodes on the way have converged.  Then it transfers data: it sends
  one Interest per sequence number, paced by a token bucket, a congestion window and a rate controller, and
  repairs losses with timers and a shadow loss detector.  A \<^emph>\<open>forwarder\<close> (\<open>src/mars/fw\<close>) hands
  packets to a strategy.  The multipath strategy (\<open>fw/fw/multipath.go\<close>) takes part in discovery by
  probing the next hops of a prefix tier by tier, and afterwards queues data Interests per prefix, assigns each
  to a face by weighted round robin and drains the queues within per-thread budgets, which come from a
  token bucket per face whose rate follows the queue signals that Data carries.

  \<^bold>\<open>Shared theories.\<close>
  \<^item> \<open>Mars_Prelude\<close>: Go maps as association lists with the laws of the locale \<open>go_map\<close>, time, float64,
    and \<open>guarded_system\<close>, the locale of a system whose events have guards: an invariant that every enabled
    event keeps holds after every run.  It is interpreted for a flow, the consumer, the loss detector
    and the multipath node.
  \<^item> \<open>Go_Strings\<close>, \<open>Go_Heap\<close>: the parts of \<open>strings\<close>, \<open>strconv\<close> and \<open>container/heap\<close> the sources use; the
    locale \<open>indexed_heap\<close> is interpreted for the priority queue and for the timers.
  \<^item> \<open>Ndn_Name\<close> (\<open>std/encoding\<close>): printing and parsing of names, with their round trip and a panic.
  \<^item> \<open>Data_Packet\<close> (\<open>std/datapacket\<close>): the payload codecs and their round trip.
  \<^item> \<open>Priority_Queue\<close> (\<open>std/types/priority_queue\<close>): refines a multiset of items (locale \<open>min_queue\<close>);
    \<open>Dead_Nonce_List\<close> (\<open>fw/table/dead-nonce-list.go\<close>) is its client and forgets exactly what is due.

  \<^bold>\<open>Consumer\<close> (\<open>consumer.go\<close>, \<open>shadow_loss.go\<close>).
  \<^item> \<open>Consumer_Config\<close>: constants, tunables (the record \<open>config\<close>) and pure helpers.
  \<^item> \<open>Shadow_Loss\<close>: the whole detector; its summaries balance, a scan reports exactly the candidates,
    and a fast repair is proposed once per attempt.
  \<^item> \<open>Rate_Control\<close>, \<open>Rate_Invariant\<close>: \<open>updateRTT\<close>, the congestion window, the bandwidth estimator, the
    QSF and the delay controller; the slope is the weighted least-squares slope, each step is bounded,
    and the state stays in its range.
  \<^item> \<open>Flow_Context\<close>, \<open>Flow_Invariant\<close>, \<open>Flow_System\<close>: \<open>FlowContext\<close> and its methods in both modes.
    Whatever calls reach a flow, each sequence is counted once and completion means that all arrived.
  \<^item> \<open>Retx_Controller\<close>, \<open>Retx_Invariant\<close>: the timers, their generations and the scheduler round.
  \<^item> \<open>Consumer_Loop\<close>: \<open>sendSingleInterest\<close>, the engine's callback, \<open>runFlow\<close>, the control loop, the
    scheduler tick, \<open>checkAllPdFinished\<close> and the throughput sampler.  \<open>Consumer_System\<close> interleaves all of them:
    in a consumer started in data transmission, a pending sequence is always marked for retransmission or has a
    live timer; in path discovery, undecodable Data makes the outstanding count reach zero too early.

  \<^bold>\<open>Forwarder\<close> (\<open>fw/fw\<close>, \<open>fw/defn\<close>, \<open>fw/dispatch\<close>, \<open>fw/table/pit-cs.go\<close>).
  \<^item> \<open>Fw_Types\<close>: packets, faces, PIT entries and the outgoing pipelines of \<open>thread.go\<close> with the helpers
    of \<open>strategy.go\<close>.
  \<^item> \<open>Fw_Strategies\<close>: \<open>bestroute.go\<close> and \<open>multicast.go\<close>; Data reaches every downstream once, and
    best-route sends to the least cost.
  \<^item> \<open>Mp_Types\<close>, \<open>Mp_Rate\<close>, \<open>Mp_Budget\<close>: constants and records of \<open>multipath.go\<close>, the measurements and the
    rate controller of a face with the bounds of a round, and the division of a face's tokens
    among threads, with what a round may give out.
  \<^item> \<open>Mp_Node\<close>, \<open>Mp_Queue\<close>: the node's shared state and the injected failure; a thread's queues, assignment,
    draining and the tick.  About them: \<open>Mp_Fair\<close> (shares in proportion to the weights), \<open>Mp_Demand\<close> and
    \<open>Mp_Drain\<close> (recorded demand equals the queues; a drain sends what budget and queue allow),
    \<open>Mp_Failover\<close> (Interests leave a failed face and none is lost).
  \<^item> \<open>Mp_Discovery\<close>, \<open>Mp_Discovery_Inv\<close>: path discovery and its well-formed states.
  \<^item> \<open>Mp_Strategy\<close>: the data transmission handlers, the fallback and the dispatch on the packet type.
    \<open>Mp_Steps\<close> says what a handler may change, \<open>Mp_System\<close> runs all threads of a node in any order: demand
    matches the queues, discovery states are well-formed, and a converged result is final.

  \<^bold>\<open>Modelling choices.\<close>  State is passed explicitly; a method that holds a mutex is one step, and
  the order of steps is arbitrary; \<open>sendSingleInterest\<close>, which takes its locks one after the other, is one step
  as well, so a switch to data transfer between naming and recording an Interest is not modelled.  The clock is an argument of an operation, which reads it once unless
  several readings matter; durations are integers in nanoseconds, float64 is the reals (no rounding, and bit patterns
  of NaN and infinity read as 0), and machine
  words keep their width where they wrap.  A Go map is iterated in the order of its association list, where
  the source allows any order.  What the outside decides (the clock, the fate of an Interest in the engine, the FIB's next
  hops, the table of faces, hashes of third-party packages) is an argument.  The guards of the systems are the code's own,
  with two conditions on the outside: an Interest can be encoded, and the FIB lists a face once and never face 0.

  \<^bold>\<open>Termination.\<close>  Operations are total functions.  The one loop that could run forever, \<open>sendLoop\<close>, is a
  partial function, and it is proved to return within the tokens of a burst.  \<open>drainLoop\<close> recurses on
  the budget, at most 64 packets, which is the bound of the source; an empty queue ends it early.

  \<^bold>\<open>Not modelled.\<close>  The RIB, the FIB trees and hash tables, the PIT and content-store tree with its eviction, and
  the incoming pipelines of \<open>thread.go\<close>, which look up these tables: the strategies take what the
  lookups return.  A queued Interest names its PIT entry by an index, so the recycling of entries by the pool
  is not modelled either.  Faces, sockets, qdisc control, management and start-up, the producer, the repository,
  the tools and the scripts are input and output.  The TLV codecs are generated code.  The distance-vector daemon,
  the engine, object, sync, security and schema libraries and the MPQUIC and MPTCP baselines are outside the
  transport.  Logging and CSV output, with the fields only they read, are left out.
\<close>

end
